theory Spec2Isabelle
  imports Complex_Main "HOL-Library.AList" "HOL-Library.Multiset" "HOL-Library.Log_Nat"
begin

section \<open>Conventions of the embedding\<close>

text \<open>
  The backend is JavaScript on a document store. A collection is the list of its
  documents in insertion order; a query filters that list. \<open>uuidv4()\<close> and \<open>new Date()\<close>
  are inputs of each operation. Failures of the persistence layer itself (lost
  connections, restrictions of the object mapper on key names) are not modelled; what is
  modelled are the failures the source raises or the schema's unique indexes raise.
\<close>

section \<open>Numbers\<close>

text \<open>
  A JavaScript \<open>Number\<close> is an IEEE 754 double. A finite double is modelled by the rational
  (\<^typ>\<open>rat\<close>) it denotes, and every arithmetic operation is the exact operation followed
  by the rounding of the standard: to the nearest number with a significand of 53 bits, a
  tie to the one whose significand is even, the spacing being \<open>2^-1074\<close> below \<open>2^-1022\<close>.
  The magnitudes computed here stay far below \<open>2^1024\<close> (a part divided by its whole and
  multiplied by 100, sums of weights of at most 2, blends of percentages) and no divisor
  is zero where the source divides, so infinities and \<open>NaN\<close> have no counterpart. A count
  returned by the store and a counter incremented by one are integers below \<open>2^53\<close>,
  which are doubles as they are; they are kept as natural numbers.
\<close>

definition round_from :: "rat \<Rightarrow> int \<Rightarrow> int" where
  "round_from x f =
     (if x - of_int f < 1 / 2 then f
      else if 1 / 2 < x - of_int f then f + 1
      else if even f then f else f + 1)"

definition round_half_even :: "rat \<Rightarrow> int" where
  "round_half_even x = round_from x \<lfloor>x\<rfloor>"

text \<open>The exponent \<open>e\<close> with \<open>2^e \<le> |x| < 2^(e+1)\<close>, for \<open>x\<close> other than 0.\<close>

definition binade_from :: "rat \<Rightarrow> int \<Rightarrow> int" where
  "binade_from a k = (if 2 powi k \<le> a then k else k - 1)"

definition binade :: "rat \<Rightarrow> int" where
  "binade x = (case quotient_of \<bar>x\<bar> of (p, q) \<Rightarrow> binade_from \<bar>x\<bar> (bitlen p - bitlen q))"

text \<open>The multiple of the unit \<open>u\<close> nearest to \<open>x\<close>, and the double nearest to \<open>x\<close>.\<close>

definition scaled :: "rat \<Rightarrow> rat \<Rightarrow> rat" where
  "scaled x u = of_int (round_half_even (x / u)) * u"

definition binary64 :: "rat \<Rightarrow> rat" where
  "binary64 x = (if x = 0 then 0 else scaled x (2 powi max (binade x - 52) (- 1074)))"

definition Number_plus :: "rat \<Rightarrow> rat \<Rightarrow> rat" where
  "Number_plus a b = binary64 (a + b)"

definition Number_minus :: "rat \<Rightarrow> rat \<Rightarrow> rat" where
  "Number_minus a b = binary64 (a - b)"

definition Number_times :: "rat \<Rightarrow> rat \<Rightarrow> rat" where
  "Number_times a b = binary64 (a * b)"

definition Number_divide :: "rat \<Rightarrow> rat \<Rightarrow> rat" where
  "Number_divide a b = binary64 (a / b)"

text \<open>
  \<open>Math.round\<close>: the nearest integer, a half rounded towards plus infinity. The result is
  exact.
\<close>

definition Math_round :: "rat \<Rightarrow> rat" where
  "Math_round x = of_int \<lfloor>x + 1 / 2\<rfloor>"

text \<open>
  The keys of an object are enumerated (\<open>Object.keys\<close>, \<open>Object.entries\<close>) with the array
  indices first, in ascending numeric order, and the other strings after them in the
  order in which they were added. An array index is the decimal numeral, without leading
  zeros, of an integer from 0 to \<open>2^32 - 2\<close>. An object used as a dictionary is an
  association list in the order in which the keys were added.
\<close>

definition numeric_value :: "string \<Rightarrow> nat" where
  "numeric_value s = foldl (\<lambda>n c. 10 * n + (of_char c - 48)) 0 s"

definition is_array_index :: "string \<Rightarrow> bool" where
  "is_array_index s =
     (s \<noteq> [] \<and> list_all (\<lambda>c. c \<in> set ''0123456789'') s
      \<and> (s = ''0'' \<or> hd s \<noteq> CHR ''0'') \<and> numeric_value s < 4294967295)"

definition Object_entries :: "(string \<times> 'v) list \<Rightarrow> (string \<times> 'v) list" where
  "Object_entries obj =
     sort_key (\<lambda>(k, v). numeric_value k) (filter (\<lambda>(k, v). is_array_index k) obj)
     @ filter (\<lambda>(k, v). \<not> is_array_index k) obj"

section \<open>\<open>JSON.stringify\<close> on arrays of strings\<close>

text \<open>
  \<open>Question.correct_answer\<close> is declared \<open>[String]\<close>, and the selected answer is taken
  to be an array of strings too. \<open>JSON.stringify\<close> quotes every string: the seven
  characters with a short escape, the other control characters as \<open>\u00xx\<close>, everything
  else unchanged.
\<close>

definition hex_digit :: "nat \<Rightarrow> char" where
  "hex_digit n = ''0123456789abcdef'' ! n"

definition quote_char :: "char \<Rightarrow> string" where
  "quote_char c =
     (if c = CHR 0x08 then [CHR 0x5C, CHR ''b'']
      else if c = CHR 0x09 then [CHR 0x5C, CHR ''t'']
      else if c = CHR 0x0A then [CHR 0x5C, CHR ''n'']
      else if c = CHR 0x0C then [CHR 0x5C, CHR ''f'']
      else if c = CHR 0x0D then [CHR 0x5C, CHR ''r'']
      else if c = CHR 0x22 then [CHR 0x5C, CHR 0x22]
      else if c = CHR 0x5C then [CHR 0x5C, CHR 0x5C]
      else if (of_char c :: nat) < 32
        then [CHR 0x5C, CHR ''u'', CHR ''0'', CHR ''0'',
              hex_digit (of_char c div 16), hex_digit (of_char c mod 16)]
      else [c])"

definition QuoteJSONString :: "string \<Rightarrow> string" where
  "QuoteJSONString s = CHR 0x22 # concat (map quote_char s) @ [CHR 0x22]"

fun join_elements :: "string list \<Rightarrow> string" where
  "join_elements [] = []"
| "join_elements [x] = QuoteJSONString x"
| "join_elements (x # y # ys) = QuoteJSONString x @ CHR '','' # join_elements (y # ys)"

definition JSON_stringify :: "string list \<Rightarrow> string" where
  "JSON_stringify xs = CHR ''['' # join_elements xs @ [CHR '']'']"

section \<open>Documents and collections\<close>

datatype attempt_status = IN_PROGRESS | COMPLETED | ABANDONED

datatype difficulty = EASY | MEDIUM | HARD

record quiz =
  quiz_id :: string
  quiz_topic :: string
  quiz_difficulty :: difficulty

record question =
  question_id :: string
  question_quiz_id :: string
  correct_answer :: "string list"

record quiz_attempt =
  attempt_id :: string
  attempt_user_id :: string
  attempt_quiz_id :: string
  status :: attempt_status
  score :: "rat option"
  total_questions :: "rat option"
  correct_answers :: "rat option"
  time_taken :: "rat option"
  created_at :: int
  completed_at :: "int option"

record quiz_attempt_answer =
  answer_id :: string
  answer_attempt_id :: string
  answer_question_id :: string
  question_order :: rat
  selected_answer :: "string list"
  is_correct :: bool
  answer_created_at :: int

text \<open>
  An insight document. The schema declares the first five fields; \<open>topic_proficiency\<close>
  and \<open>weak_topics_data\<close> are read by the dashboard and set on the in-memory document by
  the insight generator, and are absent (\<open>None\<close>) from a document unless present in the
  store. A JavaScript object used as a dictionary is an association list in insertion
  order.
\<close>

record ml_insight =
  insight_user_id :: string
  weak_topics :: "string list"
  strong_topics :: "string list"
  confidence_scores :: "(string \<times> rat) list"
  topic_performance :: "(string \<times> rat) list"
  last_updated :: int
  topic_proficiency :: "(string \<times> rat) list option"
  weak_topics_data :: "(string \<times> rat) list option"

record user_badge =
  user_badge_id :: string
  user_badge_user_id :: string
  user_badge_badge_id :: string
  achieved_at :: int

record badge =
  badge_id :: string
  badge_name :: string
  badge_description :: string

record database =
  quizzes :: "quiz list"
  questions :: "question list"
  attempts :: "quiz_attempt list"
  answers :: "quiz_attempt_answer list"
  insights :: "ml_insight list"
  user_badges :: "user_badge list"
  badges :: "badge list"

definition findOne :: "('a \<Rightarrow> bool) \<Rightarrow> 'a list \<Rightarrow> 'a option" where
  "findOne P xs = List.find P xs"

definition countDocuments :: "('a \<Rightarrow> bool) \<Rightarrow> 'a list \<Rightarrow> nat" where
  "countDocuments P xs = length (filter P xs)"

fun updateOne :: "('a \<Rightarrow> bool) \<Rightarrow> ('a \<Rightarrow> 'a) \<Rightarrow> 'a list \<Rightarrow> 'a list" where
  "updateOne P f [] = []"
| "updateOne P f (x # xs) = (if P x then f x # xs else x # updateOne P f xs)"

datatype http_error = HttpError nat string

text \<open>
  What a handler throws: an \<open>Error\<close> with its message, the duplicate-key error of a
  unique index (its message is abridged), or a \<open>TypeError\<close> of the language.
\<close>

datatype js_error = Error string | DuplicateKey | TypeError

fun message :: "js_error \<Rightarrow> string" where
  "message (Error m) = m"
| "message DuplicateKey = ''E11000 duplicate key error''"
| "message TypeError = ''TypeError''"

text \<open>
  The unique indexes of the answer collection: on \<open>id\<close>, and on the pair
  \<open>(attempt_id, question_id)\<close>.
\<close>

definition answer_key :: "quiz_attempt_answer \<Rightarrow> string \<times> string" where
  "answer_key a = (answer_attempt_id a, answer_question_id a)"

definition insertMany :: "quiz_attempt_answer list \<Rightarrow> database \<Rightarrow> js_error + database" where
  "insertMany new db =
     (if distinct (map answer_key new) \<and> distinct (map answer_id new)
         \<and> list_all (\<lambda>a. answer_key a \<notin> set (map answer_key (answers db))
                        \<and> answer_id a \<notin> set (map answer_id (answers db))) new
      then Inr (db\<lparr>answers := answers db @ new\<rparr>)
      else Inl DuplicateKey)"

definition create_answer :: "quiz_attempt_answer \<Rightarrow> database \<Rightarrow> js_error + database" where
  "create_answer a db = insertMany [a] db"

definition create_attempt :: "quiz_attempt \<Rightarrow> database \<Rightarrow> js_error + database" where
  "create_attempt a db =
     (if attempt_id a \<in> set (map attempt_id (attempts db)) then Inl DuplicateKey
      else Inr (db\<lparr>attempts := attempts db @ [a]\<rparr>))"

text \<open>
  \<open>session.withTransaction\<close>: the writes of the body reach the store only when the body
  returns; when it throws, the transaction is aborted and the store is as before.
\<close>

definition withTransaction ::
  "(database \<Rightarrow> (js_error + 'a) \<times> database) \<Rightarrow> database \<Rightarrow> (js_error + 'a) \<times> database" where
  "withTransaction body db =
     (case body db of
        (Inl e, _) \<Rightarrow> (Inl e, db)
      | (Inr r, db') \<Rightarrow> (Inr r, db'))"

section \<open>Attempt controller\<close>

datatype char_class = Hex | Dash | Version | Variant

definition is_hex :: "char \<Rightarrow> bool" where
  "is_hex c = (c \<in> set ''0123456789abcdefABCDEF'')"

fun matches :: "char_class \<Rightarrow> char \<Rightarrow> bool" where
  "matches Hex c = is_hex c"
| "matches Dash c = (c = CHR ''-'')"
| "matches Version c = (c \<in> set ''12345'')"
| "matches Variant c = (c \<in> set ''89abAB'')"

definition uuidRegex :: "char_class list" where
  "uuidRegex = replicate 8 Hex @ [Dash] @ replicate 4 Hex @ [Dash]
     @ Version # replicate 3 Hex @ [Dash] @ Variant # replicate 3 Hex @ [Dash]
     @ replicate 12 Hex"

definition isValidUUID :: "string \<Rightarrow> bool" where
  "isValidUUID uuid = list_all2 matches uuidRegex uuid"

definition is_whitespace :: "char \<Rightarrow> bool" where
  "is_whitespace c = (c \<in> {CHR 0x09, CHR 0x0A, CHR 0x0B, CHR 0x0C, CHR 0x0D, CHR 0x20, CHR 0xA0})"

definition blank :: "string \<Rightarrow> bool" where
  "blank s = list_all is_whitespace s"

record answer_body =
  body_question_id :: string
  body_selected_answer :: "string list"
  body_question_order :: "rat option"

record attempt_body =
  body_quiz_id :: string
  body_score :: "rat option"
  body_total_questions :: "rat option"
  body_correct_answers :: "rat option"
  body_time_taken :: "rat option"
  body_answers :: "answer_body list"

text \<open>
  The callback of \<open>answers.map\<close> in \<open>createQuizAttempt\<close>. Every callback runs up to its
  first \<open>await\<close> at once, so a malformed \<open>question_id\<close> rejects before any lookup
  returns; \<open>Promise.all\<close> rejects with the first rejection. The lookups are taken to
  return in the order of the array.
\<close>

definition invalid_question_id :: "answer_body \<Rightarrow> bool" where
  "invalid_question_id answer = (body_question_id answer = [])"

definition prepare_answer ::
  "database \<Rightarrow> string \<Rightarrow> string \<Rightarrow> int \<Rightarrow> string \<times> answer_body \<Rightarrow> js_error + quiz_attempt_answer" where
  "prepare_answer db qid new_attempt_id now ua =
     (case ua of (uuid, answer) \<Rightarrow>
        (case findOne (\<lambda>q. question_id q = body_question_id answer) (questions db) of
           None \<Rightarrow> Inl (Error (''Question not found for id: '' @ body_question_id answer))
         | Some question \<Rightarrow>
             if question_quiz_id question \<noteq> qid
             then Inl (Error (''Question '' @ body_question_id answer
                               @ '' does not belong to the specified quiz''))
             else Inr \<lparr> answer_id = uuid,
                        answer_attempt_id = new_attempt_id,
                        answer_question_id = body_question_id answer,
                        question_order = 0,
                        selected_answer = body_selected_answer answer,
                        is_correct = (JSON_stringify (body_selected_answer answer)
                                      = JSON_stringify (correct_answer question)),
                        answer_created_at = now \<rparr>))"

fun all_or_first_error :: "(js_error + 'a) list \<Rightarrow> js_error + 'a list" where
  "all_or_first_error [] = Inr []"
| "all_or_first_error (Inl e # rs) = Inl e"
| "all_or_first_error (Inr a # rs) =
     (case all_or_first_error rs of Inl e \<Rightarrow> Inl e | Inr as \<Rightarrow> Inr (a # as))"

definition prepare_answers ::
  "(nat \<Rightarrow> string) \<Rightarrow> database \<Rightarrow> string \<Rightarrow> string \<Rightarrow> int \<Rightarrow> answer_body list
     \<Rightarrow> js_error + quiz_attempt_answer list" where
  "prepare_answers uuidv4 db qid new_attempt_id now as =
     (case findOne invalid_question_id as of
        Some answer \<Rightarrow> Inl (Error (''Invalid question ID format: '' @ body_question_id answer))
      | None \<Rightarrow>
          all_or_first_error
            (map (prepare_answer db qid new_attempt_id now)
                 (zip (map (\<lambda>i. uuidv4 (Suc i)) [0 ..< length as]) as)))"

text \<open>The body of the transaction of \<open>createQuizAttempt\<close>.\<close>

definition create_attempt_transaction ::
  "(nat \<Rightarrow> string) \<Rightarrow> int \<Rightarrow> string \<Rightarrow> attempt_body \<Rightarrow> database
     \<Rightarrow> (js_error + quiz_attempt) \<times> database" where
  "create_attempt_transaction uuidv4 now user body db =
     (let newAttempt = \<lparr> attempt_id = uuidv4 0,
                          attempt_user_id = user,
                          attempt_quiz_id = body_quiz_id body,
                          status = COMPLETED,
                          score = body_score body,
                          total_questions = body_total_questions body,
                          correct_answers = body_correct_answers body,
                          time_taken = body_time_taken body,
                          created_at = now,
                          completed_at = Some now \<rparr>
      in case create_attempt newAttempt db of
           Inl e \<Rightarrow> (Inl e, db)
         | Inr db1 \<Rightarrow>
             (case prepare_answers uuidv4 db1 (body_quiz_id body) (attempt_id newAttempt) now
                     (body_answers body) of
                Inl e \<Rightarrow> (Inl e, db1)
              | Inr attemptAnswers \<Rightarrow>
                  (case insertMany attemptAnswers db1 of
                     Inl e \<Rightarrow> (Inl e, db1)
                   | Inr db2 \<Rightarrow> (Inr newAttempt, db2))))"

text \<open>
  \<open>createQuizAttempt\<close>: the response, the store afterwards, and the users for whom an
  insight run was started (it runs in the background, after the response).
\<close>

definition createQuizAttempt ::
  "(nat \<Rightarrow> string) \<Rightarrow> int \<Rightarrow> database \<Rightarrow> string \<Rightarrow> attempt_body
     \<Rightarrow> (http_error + quiz_attempt) \<times> database \<times> string list" where
  "createQuizAttempt uuidv4 now db user body =
     (if body_quiz_id body = [] \<or> blank (body_quiz_id body)
      then (Inl (HttpError 400 ''Invalid quiz ID format''), db, [])
      else if \<not> isValidUUID (body_quiz_id body)
      then (Inl (HttpError 400 ''Invalid quiz ID format''), db, [])
      else case findOne (\<lambda>q. quiz_id q = body_quiz_id body) (quizzes db) of
             None \<Rightarrow> (Inl (HttpError 404 ''Quiz not found''), db, [])
           | Some quiz \<Rightarrow>
               (case withTransaction (create_attempt_transaction uuidv4 now user body) db of
                  (Inl error, db') \<Rightarrow> (Inl (HttpError 500 (message error)), db', [])
                | (Inr newAttempt, db') \<Rightarrow> (Inr newAttempt, db', [user])))"

record submit_response =
  response_is_correct :: bool
  response_answer :: quiz_attempt_answer

text \<open>The document written by \<open>QuizAttemptAnswer.create\<close> in \<open>submitQuizAnswer\<close>.\<close>

definition new_answer :: "string \<Rightarrow> int \<Rightarrow> string \<Rightarrow> answer_body \<Rightarrow> question \<Rightarrow> quiz_attempt_answer" where
  "new_answer uuid now attemptId body question =
     \<lparr> answer_id = uuid,
       answer_attempt_id = attemptId,
       answer_question_id = body_question_id body,
       question_order = (case body_question_order body of None \<Rightarrow> 0 | Some n \<Rightarrow> n),
       selected_answer = body_selected_answer body,
       is_correct = (JSON_stringify (body_selected_answer body)
                     = JSON_stringify (correct_answer question)),
       answer_created_at = now \<rparr>"

text \<open>The update document of \<open>QuizAttempt.updateOne\<close> in \<open>submitQuizAnswer\<close>.\<close>

definition completion_update :: "int \<Rightarrow> nat \<Rightarrow> nat \<Rightarrow> quiz_attempt \<Rightarrow> quiz_attempt" where
  "completion_update now correctAnswers questionsCount a =
     a\<lparr> status := COMPLETED,
        completed_at := Some now,
        score := Some (Number_times (Number_divide (of_nat correctAnswers) (of_nat questionsCount)) 100),
        total_questions := Some (of_nat questionsCount),
        correct_answers := Some (of_nat correctAnswers) \<rparr>"

definition update_attempt :: "string \<Rightarrow> (quiz_attempt \<Rightarrow> quiz_attempt) \<Rightarrow> database \<Rightarrow> database" where
  "update_attempt attemptId f db =
     db\<lparr>attempts := updateOne (\<lambda>a. attempt_id a = attemptId) f (attempts db)\<rparr>"

text \<open>
  \<open>submitQuizAnswer\<close>, one request running alone from its first lookup to its response:
  the response, the store afterwards, and the users for whom an insight run was started.
\<close>

definition submitQuizAnswer ::
  "string \<Rightarrow> int \<Rightarrow> database \<Rightarrow> string \<Rightarrow> string \<Rightarrow> answer_body
     \<Rightarrow> (http_error + submit_response) \<times> database \<times> string list" where
  "submitQuizAnswer uuid now db attemptId user body =
     (if \<not> isValidUUID attemptId
      then (Inl (HttpError 400 ''Invalid attempt ID format''), db, [])
      else if body_question_id body = []
      then (Inl (HttpError 400 ''Invalid question ID format''), db, [])
      else (case findOne (\<lambda>a. attempt_id a = attemptId) (attempts db) of
        None \<Rightarrow> (Inl (HttpError 404 ''Quiz attempt not found''), db, [])
      | Some attempt \<Rightarrow>
         (if attempt_user_id attempt \<noteq> user
          then (Inl (HttpError 403 ''Unauthorized''), db, [])
          else if status attempt \<noteq> IN_PROGRESS
          then (Inl (HttpError 400 ''This quiz attempt is already completed or abandoned''), db, [])
          else (case findOne (\<lambda>q. question_id q = body_question_id body) (questions db) of
            None \<Rightarrow> (Inl (HttpError 404 ''Question not found''), db, [])
          | Some question \<Rightarrow>
             (if question_quiz_id question \<noteq> attempt_quiz_id attempt
              then (Inl (HttpError 400 ''This question does not belong to the attempted quiz''), db, [])
              else (case findOne (\<lambda>a. answer_attempt_id a = attemptId
                                       \<and> answer_question_id a = body_question_id body) (answers db) of
                Some existingAnswer \<Rightarrow>
                  (Inl (HttpError 400 ''Answer for this question already submitted''), db, [])
              | None \<Rightarrow>
                 (let newAnswer = new_answer uuid now attemptId body question;
                      response = \<lparr> response_is_correct = is_correct newAnswer,
                                   response_answer = newAnswer \<rparr>
                  in (case create_answer newAnswer db of
                    Inl error \<Rightarrow> (Inl (HttpError 500 (message error)), db, [])
                  | Inr db1 \<Rightarrow>
                     (let answersCount = countDocuments (\<lambda>a. answer_attempt_id a = attemptId) (answers db1);
                          questionsCount = countDocuments (\<lambda>q. question_quiz_id q = attempt_quiz_id attempt)
                                             (questions db1)
                      in (if answersCount = questionsCount
                          then
                           (let correctAnswers = countDocuments
                                  (\<lambda>a. answer_attempt_id a = attemptId \<and> is_correct a) (answers db1)
                            in (Inr response,
                                update_attempt attemptId
                                  (completion_update now correctAnswers questionsCount) db1,
                                [user]))
                          else (Inr response, db1, [])))))))))))"

definition response_of :: "quiz_attempt_answer \<Rightarrow> submit_response" where
  "response_of newAnswer =
     \<lparr> response_is_correct = is_correct newAnswer, response_answer = newAnswer \<rparr>"

text \<open>
  The end of \<open>submitQuizAnswer\<close>, from the count of the answers on, when nothing else
  runs in between.
\<close>

definition completion_check ::
  "int \<Rightarrow> string \<Rightarrow> string \<Rightarrow> quiz_attempt \<Rightarrow> database \<Rightarrow> database \<times> string list" where
  "completion_check now attemptId user attempt db1 =
     (let answersCount = countDocuments (\<lambda>a. answer_attempt_id a = attemptId) (answers db1);
          questionsCount = countDocuments (\<lambda>q. question_quiz_id q = attempt_quiz_id attempt)
                             (questions db1)
      in if answersCount = questionsCount
         then (update_attempt attemptId
                 (completion_update now
                    (countDocuments (\<lambda>a. answer_attempt_id a = attemptId \<and> is_correct a)
                       (answers db1))
                    questionsCount) db1,
               [user])
         else (db1, []))"

section \<open>Insight generator\<close>

record attemptDetail =
  detail_is_correct :: bool
  detail_timestamp :: int
  detail_difficulty :: difficulty
  detail_weight :: rat

record topicStat =
  stat_correct :: nat
  stat_total :: nat
  weightedCorrect :: rat
  weightedTotal :: rat

text \<open>
  The three dictionaries filled by the loop over the answers. Identifiers are taken not
  to name members of \<open>Object.prototype\<close>.
\<close>

record analysis =
  topicStats :: "(string \<times> topicStat) list"
  topicAttempts :: "(string \<times> attemptDetail list) list"
  recentAttemptsByTopic :: "(string \<times> attemptDetail list) list"

record insight_result =
  topicProficiency :: "(string \<times> rat) list"
  weakTopics :: "string list"
  strongTopics :: "string list"
  confidenceScores :: "(string \<times> rat) list"

text \<open>
  \<open>find(...).sort({completed_at: -1})\<close>: most recent first, documents without the field
  last. The store leaves the order of equal keys open; the model keeps insertion order.
\<close>

definition more_recent :: "int option \<Rightarrow> int option \<Rightarrow> bool" where
  "more_recent a b =
     (case a of None \<Rightarrow> False
      | Some x \<Rightarrow> (case b of None \<Rightarrow> True | Some y \<Rightarrow> y < x))"

fun insert_recent :: "quiz_attempt \<Rightarrow> quiz_attempt list \<Rightarrow> quiz_attempt list" where
  "insert_recent a [] = [a]"
| "insert_recent a (b # bs) =
     (if more_recent (completed_at b) (completed_at a) then b # insert_recent a bs
      else a # b # bs)"

definition sort_completed_desc :: "quiz_attempt list \<Rightarrow> quiz_attempt list" where
  "sort_completed_desc xs = foldr insert_recent xs []"

definition completed_attempts :: "database \<Rightarrow> string \<Rightarrow> quiz_attempt list" where
  "completed_attempts db userId =
     sort_completed_desc
       (filter (\<lambda>a. attempt_user_id a = userId \<and> status a = COMPLETED) (attempts db))"

definition difficultyWeight :: "difficulty \<Rightarrow> rat" where
  "difficultyWeight d = (if d = MEDIUM then 3 / 2 else if d = HARD then 2 else 1)"

text \<open>
  The dictionaries are plain objects, so a topic that names a member of
  \<open>Object.prototype\<close> finds that member instead of an entry: nothing is initialised, and
  \<open>topicAttempts[topic].push\<close> is a call of \<open>undefined\<close>.
\<close>

definition Object_prototype_keys :: "string list" where
  "Object_prototype_keys =
     [''constructor'', ''__proto__'', ''hasOwnProperty'', ''isPrototypeOf'',
      ''propertyIsEnumerable'', ''toLocaleString'', ''toString'', ''valueOf'',
      ''__defineGetter__'', ''__defineSetter__'', ''__lookupGetter__'', ''__lookupSetter__'']"

definition lookup_or :: "'v \<Rightarrow> (string \<times> 'v) list \<Rightarrow> string \<Rightarrow> 'v" where
  "lookup_or d obj k = (case map_of obj k of None \<Rightarrow> d | Some v \<Rightarrow> v)"

definition answer_timestamp :: "quiz_attempt list \<Rightarrow> int \<Rightarrow> quiz_attempt_answer \<Rightarrow> int" where
  "answer_timestamp userAttempts now answer =
     (case findOne (\<lambda>a. attempt_id a = answer_attempt_id answer) userAttempts of
        None \<Rightarrow> now
      | Some attempt \<Rightarrow>
          (case completed_at attempt of Some t \<Rightarrow> t | None \<Rightarrow> created_at attempt))"

text \<open>The quiz an answer is graded under: its question's quiz, when both are found.\<close>

definition answer_quiz ::
  "(string \<times> question) list \<Rightarrow> (string \<times> quiz) list \<Rightarrow> quiz_attempt_answer \<Rightarrow> quiz option" where
  "answer_quiz questionMap quizMap answer =
     (case map_of questionMap (answer_question_id answer) of
        None \<Rightarrow> None
      | Some question \<Rightarrow>
          (case map_of quizMap (question_quiz_id question) of
             None \<Rightarrow> None
           | Some quiz \<Rightarrow> if quiz_topic quiz = [] then None else Some quiz))"

text \<open>The body of \<open>answers.forEach\<close>.\<close>

definition process_answer ::
  "(string \<times> question) list \<Rightarrow> (string \<times> quiz) list \<Rightarrow> quiz_attempt list \<Rightarrow> int
     \<Rightarrow> quiz_attempt_answer \<Rightarrow> analysis \<Rightarrow> js_error + analysis" where
  "process_answer questionMap quizMap userAttempts now answer acc =
     (case answer_quiz questionMap quizMap answer of
        None \<Rightarrow> Inr acc
      | Some quiz \<Rightarrow>
          (let topic = quiz_topic quiz in
           if topic \<in> set Object_prototype_keys then Inl TypeError
           else
             (let stats = lookup_or \<lparr> stat_correct = 0, stat_total = 0,
                                      weightedCorrect = 0, weightedTotal = 0 \<rparr>
                            (topicStats acc) topic;
                  timestamp = answer_timestamp userAttempts now answer;
                  weight = difficultyWeight (quiz_difficulty quiz);
                  attemptDetail = \<lparr> detail_is_correct = is_correct answer,
                                    detail_timestamp = timestamp,
                                    detail_difficulty = quiz_difficulty quiz,
                                    detail_weight = weight \<rparr>
              in Inr \<lparr> topicStats = AList.update topic
                          \<lparr> stat_correct =
                              (if is_correct answer then stat_correct stats + 1 else stat_correct stats),
                            stat_total = stat_total stats + 1,
                            weightedCorrect =
                              (if is_correct answer then Number_plus (weightedCorrect stats) weight
                               else weightedCorrect stats),
                            weightedTotal = Number_plus (weightedTotal stats) weight \<rparr>
                          (topicStats acc),
                        topicAttempts = AList.update topic
                          (lookup_or [] (topicAttempts acc) topic @ [attemptDetail])
                          (topicAttempts acc),
                        recentAttemptsByTopic = AList.update topic
                          (lookup_or [] (recentAttemptsByTopic acc) topic @ [attemptDetail])
                          (recentAttemptsByTopic acc) \<rparr>)))"

fun process_answers ::
  "(string \<times> question) list \<Rightarrow> (string \<times> quiz) list \<Rightarrow> quiz_attempt list \<Rightarrow> int
     \<Rightarrow> quiz_attempt_answer list \<Rightarrow> analysis \<Rightarrow> js_error + analysis" where
  "process_answers questionMap quizMap userAttempts now [] acc = Inr acc"
| "process_answers questionMap quizMap userAttempts now (answer # rest) acc =
     (case process_answer questionMap quizMap userAttempts now answer acc of
        Inl e \<Rightarrow> Inl e
      | Inr acc' \<Rightarrow> process_answers questionMap quizMap userAttempts now rest acc')"

text \<open>
  \<open>Array.prototype.sort\<close> is stable, as is \<open>sort_key\<close>. Most recent first is ascending
  in the negated timestamp.
\<close>

definition most_recent_10 :: "attemptDetail list \<Rightarrow> attemptDetail list" where
  "most_recent_10 details = take 10 (sort_key (\<lambda>a. - detail_timestamp a) details)"

text \<open>\<open>xs.slice(0, -k)\<close>.\<close>

definition slice_0_neg :: "nat \<Rightarrow> 'a list \<Rightarrow> 'a list" where
  "slice_0_neg k xs = (if k = 0 then [] else take (length xs - k) xs)"

definition weighted_score :: "attemptDetail list \<Rightarrow> rat" where
  "weighted_score as =
     Math_round
       (Number_times
          (Number_divide
             (foldl (\<lambda>sum a. Number_plus sum (detail_weight a)) 0 (filter detail_is_correct as))
             (foldl (\<lambda>sum a. Number_plus sum (detail_weight a)) 0 as))
          100)"

text \<open>
  The literals \<open>0.6\<close>, \<open>0.3\<close> and \<open>0.1\<close> are the doubles nearest to these decimals; the
  sum is evaluated from the left.
\<close>

definition confidence_blend :: "rat \<Rightarrow> attemptDetail list \<Rightarrow> attemptDetail list \<Rightarrow> rat" where
  "confidence_blend topic_score recentAttempts allAttempts =
     (let recentScore = weighted_score recentAttempts;
          olderAttempts = slice_0_neg (length recentAttempts)
                            (sort_key detail_timestamp allAttempts);
          trendFactor = (if 3 \<le> length olderAttempts
                         then Number_minus recentScore (weighted_score olderAttempts) else 0)
      in max 0 (min 100 (Math_round
           (Number_plus
              (Number_plus (Number_times topic_score (binary64 (6 / 10)))
                           (Number_times recentScore (binary64 (3 / 10))))
              (Number_times trendFactor (binary64 (1 / 10)))))))"

text \<open>
  The body of \<open>Object.entries(topicStats).forEach\<close>, and the loop over the entries it is
  given.
\<close>

definition classify :: "string \<Rightarrow> rat \<Rightarrow> rat \<Rightarrow> insight_result \<Rightarrow> insight_result" where
  "classify topic topic_score confidenceScore res =
     \<lparr> topicProficiency = AList.update topic topic_score (topicProficiency res),
       weakTopics = (if topic_score < 60 then weakTopics res @ [topic] else weakTopics res),
       strongTopics = (if topic_score < 60 then strongTopics res
                       else if 80 \<le> topic_score then strongTopics res @ [topic]
                       else strongTopics res),
       confidenceScores = AList.update topic confidenceScore (confidenceScores res) \<rparr>"

fun analyse_topics ::
  "(string \<times> attemptDetail list) list \<Rightarrow> (string \<times> attemptDetail list) list
     \<Rightarrow> (string \<times> topicStat) list \<Rightarrow> insight_result \<Rightarrow> js_error + insight_result" where
  "analyse_topics recent allAttempts [] res = Inr res"
| "analyse_topics recent allAttempts ((topic, stats) # rest) res =
     (if stat_total stats < 3 then analyse_topics recent allAttempts rest res
      else
        (let topic_score = Math_round (Number_times
                             (Number_divide (weightedCorrect stats) (weightedTotal stats)) 100) in
         case map_of recent topic of
           None \<Rightarrow> Inl TypeError
         | Some recentAttempts \<Rightarrow>
             if 3 \<le> length recentAttempts
             then (case map_of allAttempts topic of
                     None \<Rightarrow> Inl TypeError
                   | Some details \<Rightarrow>
                       analyse_topics recent allAttempts rest
                         (classify topic topic_score (confidence_blend topic_score recentAttempts details) res))
             else analyse_topics recent allAttempts rest (classify topic topic_score topic_score res)))"

definition weak_topics_object :: "string list \<Rightarrow> (string \<times> rat) list \<Rightarrow> (string \<times> rat) list" where
  "weak_topics_object weak proficiency =
     fold (\<lambda>topic obj. case map_of proficiency topic of
                          None \<Rightarrow> obj
                        | Some v \<Rightarrow> AList.update topic v obj) weak []"

definition new_MLInsight :: "string \<Rightarrow> int \<Rightarrow> ml_insight" where
  "new_MLInsight userId now =
     \<lparr> insight_user_id = userId, weak_topics = [], strong_topics = [],
       confidence_scores = [], topic_performance = [], last_updated = now,
       topic_proficiency = None, weak_topics_data = None \<rparr>"

text \<open>
  \<open>mlInsight.save()\<close> writes the paths of the schema: a new document is inserted, an
  existing one has these fields replaced.
\<close>

definition schema_fields :: "ml_insight \<Rightarrow> ml_insight \<Rightarrow> ml_insight" where
  "schema_fields doc stored =
     stored\<lparr> weak_topics := weak_topics doc,
             strong_topics := strong_topics doc,
             confidence_scores := confidence_scores doc,
             topic_performance := topic_performance doc,
             last_updated := last_updated doc \<rparr>"

definition save_insight :: "ml_insight \<Rightarrow> database \<Rightarrow> database" where
  "save_insight doc db =
     (case findOne (\<lambda>m. insight_user_id m = insight_user_id doc) (insights db) of
        None \<Rightarrow> db\<lparr>insights := insights db @ [schema_fields doc (new_MLInsight (insight_user_id doc) (last_updated doc))]\<rparr>
      | Some _ \<Rightarrow> db\<lparr>insights := updateOne (\<lambda>m. insight_user_id m = insight_user_id doc)
                                     (schema_fields doc) (insights db)\<rparr>)"

definition object_of :: "('a \<Rightarrow> string) \<Rightarrow> 'a list \<Rightarrow> (string \<times> 'a) list" where
  "object_of key docs = fold (\<lambda>d obj. AList.update (key d) d obj) docs []"

definition empty_analysis :: analysis where
  "empty_analysis = \<lparr> topicStats = [], topicAttempts = [], recentAttemptsByTopic = [] \<rparr>"

definition empty_result :: insight_result where
  "empty_result = \<lparr> topicProficiency = [], weakTopics = [], strongTopics = [],
                     confidenceScores = [] \<rparr>"

text \<open>The answers the run reads, and the lookups it builds, for a list of attempts.\<close>

definition window_answers :: "database \<Rightarrow> quiz_attempt list \<Rightarrow> quiz_attempt_answer list" where
  "window_answers db userAttempts =
     filter (\<lambda>a. answer_attempt_id a \<in> set (map attempt_id userAttempts)) (answers db)"

definition window_quizMap :: "database \<Rightarrow> quiz_attempt list \<Rightarrow> (string \<times> quiz) list" where
  "window_quizMap db userAttempts =
     object_of quiz_id
       (filter (\<lambda>q. quiz_id q \<in> set (remdups (map attempt_quiz_id userAttempts))) (quizzes db))"

definition window_questionMap :: "database \<Rightarrow> quiz_attempt list \<Rightarrow> (string \<times> question) list" where
  "window_questionMap db userAttempts =
     object_of question_id
       (filter (\<lambda>q. question_id q
                      \<in> set (remdups (map answer_question_id (window_answers db userAttempts))))
               (questions db))"

text \<open>
  \<open>generateUserInsights\<close>: what the call resolves to (\<open>null\<close> without attempts, the
  in-memory document otherwise, or the error it rejects with) and the store afterwards.
  The dictionaries of the result are filled in the order in which the entries of
  \<open>topicStats\<close> are enumerated, array indices first, so their own enumeration (for
  \<open>performanceMap\<close> and on saving) keeps their order.
\<close>

definition generateUserInsights ::
  "int \<Rightarrow> database \<Rightarrow> string \<Rightarrow> (js_error + ml_insight option) \<times> database" where
  "generateUserInsights now db userId =
     (let userAttempts = take 20 (completed_attempts db userId) in
      if userAttempts = [] then (Inr None, db)
      else
        (case process_answers (window_questionMap db userAttempts) (window_quizMap db userAttempts)
                userAttempts now (window_answers db userAttempts) empty_analysis of
           Inl error \<Rightarrow> (Inl error, db)
         | Inr acc \<Rightarrow>
             (case analyse_topics
                     (map (\<lambda>(topic, details). (topic, most_recent_10 details))
                          (recentAttemptsByTopic acc))
                     (topicAttempts acc) (Object_entries (topicStats acc)) empty_result of
                Inl error \<Rightarrow> (Inl error, db)
              | Inr res \<Rightarrow>
                  (let found = (case findOne (\<lambda>m. insight_user_id m = userId) (insights db) of
                                  None \<Rightarrow> new_MLInsight userId now
                                | Some m \<Rightarrow> m\<lparr>topic_proficiency := None, weak_topics_data := None\<rparr>);
                       mlInsight = found\<lparr> weak_topics := weakTopics res,
                                          strong_topics := strongTopics res,
                                          confidence_scores := confidenceScores res,
                                          topic_performance := topicProficiency res,
                                          last_updated := now,
                                          topic_proficiency := Some (topicProficiency res),
                                          weak_topics_data :=
                                            Some (weak_topics_object (weakTopics res)
                                                    (topicProficiency res)) \<rparr>
                   in (Inr (Some mlInsight), save_insight mlInsight db)))))"

section \<open>Dashboard controller\<close>

record performance_entry =
  entry_id :: string
  entry_quiz_id :: string
  entry_score :: "rat option"
  entry_correct_answers :: "rat option"
  entry_total_questions :: "rat option"
  entry_date :: int

record badge_achievement =
  achievement_id :: string
  achievement_badge_id :: string
  achievement_name :: string
  achievement_description :: string
  achievement_achieved_at :: int

record dashboardData =
  data_weak_topics_array :: "string list"
  data_strong_topics :: "string list"
  data_confidence_scores :: "(string \<times> rat) list"
  data_topic_proficiency :: "(string \<times> rat) list"
  data_weak_topics :: "(string \<times> rat) list"
  data_performance_history :: "performance_entry list"
  data_badges :: "badge_achievement list"
  data_insight_last_updated :: "int option"

text \<open>\<open>MLInsight.findOne({user_id}).sort({last_updated: -1})\<close>.\<close>

definition latest_insight :: "database \<Rightarrow> string \<Rightarrow> ml_insight option" where
  "latest_insight db userId =
     (case sort_key (\<lambda>m. - last_updated m)
             (filter (\<lambda>m. insight_user_id m = userId) (insights db)) of
        [] \<Rightarrow> None
      | m # _ \<Rightarrow> Some m)"

definition performance_of :: "quiz_attempt \<Rightarrow> performance_entry" where
  "performance_of attempt =
     \<lparr> entry_id = attempt_id attempt,
       entry_quiz_id = attempt_quiz_id attempt,
       entry_score = score attempt,
       entry_correct_answers = correct_answers attempt,
       entry_total_questions = total_questions attempt,
       entry_date = (case completed_at attempt of Some t \<Rightarrow> t | None \<Rightarrow> created_at attempt) \<rparr>"

definition achievement_of :: "badge list \<Rightarrow> user_badge \<Rightarrow> badge_achievement" where
  "achievement_of found userBadge =
     (let badgeDetails = findOne (\<lambda>b. badge_id b = user_badge_badge_id userBadge) found in
      \<lparr> achievement_id = user_badge_id userBadge,
        achievement_badge_id = user_badge_badge_id userBadge,
        achievement_name =
          (case badgeDetails of None \<Rightarrow> ''Unknown Badge''
           | Some b \<Rightarrow> if badge_name b = [] then ''Unknown Badge'' else badge_name b),
        achievement_description =
          (case badgeDetails of None \<Rightarrow> [] | Some b \<Rightarrow> badge_description b),
        achievement_achieved_at = achieved_at userBadge \<rparr>)"

definition badgeAchievements :: "database \<Rightarrow> string \<Rightarrow> badge_achievement list" where
  "badgeAchievements db userId =
     (let userBadges = sort_key (\<lambda>ub. - achieved_at ub)
                         (filter (\<lambda>ub. user_badge_user_id ub = userId) (user_badges db));
          found = filter (\<lambda>b. badge_id b \<in> set (map user_badge_badge_id userBadges)) (badges db)
      in map (achievement_of found) userBadges)"

text \<open>The dictionary shown as topic proficiency, before its scores are checked.\<close>

definition proficiency_source :: "ml_insight \<Rightarrow> (string \<times> rat) list" where
  "proficiency_source mlInsight =
     (case topic_proficiency mlInsight of
        None \<Rightarrow> topic_performance mlInsight
      | Some obj \<Rightarrow> if obj \<noteq> [] then obj else topic_performance mlInsight)"

definition weak_source :: "ml_insight \<Rightarrow> (string \<times> rat) list \<Rightarrow> (string \<times> rat) list" where
  "weak_source mlInsight topicProficiency' =
     (let derived = (if weak_topics mlInsight \<noteq> []
                     then weak_topics_object (weak_topics mlInsight) topicProficiency'
                     else [])
      in case weak_topics_data mlInsight of
           None \<Rightarrow> derived
         | Some obj \<Rightarrow> if obj \<noteq> [] then obj else derived)"

text \<open>Scores outside 0 to 100 are shown as 0.\<close>

definition validate_scores :: "(string \<times> rat) list \<Rightarrow> (string \<times> rat) list" where
  "validate_scores obj =
     map (\<lambda>(topic, s). (topic, if s < 0 \<or> 100 < s then 0 else s)) obj"

definition getDashboardData :: "database \<Rightarrow> string \<Rightarrow> string \<Rightarrow> http_error + dashboardData" where
  "getDashboardData db userId requestingUserId =
     (if userId \<noteq> requestingUserId
      then Inl (HttpError 403 ''Unauthorized. You can only access your own dashboard.'')
      else
        (let mlInsight = latest_insight db userId;
             performanceHistory = map performance_of (take 10 (completed_attempts db userId))
         in Inr
           (case mlInsight of
              None \<Rightarrow>
                \<lparr> data_weak_topics_array = [],
                  data_strong_topics = [],
                  data_confidence_scores = [],
                  data_topic_proficiency = [],
                  data_weak_topics = [],
                  data_performance_history = performanceHistory,
                  data_badges = badgeAchievements db userId,
                  data_insight_last_updated = None \<rparr>
            | Some m \<Rightarrow>
                \<lparr> data_weak_topics_array = weak_topics m,
                  data_strong_topics = strong_topics m,
                  data_confidence_scores = confidence_scores m,
                  data_topic_proficiency = validate_scores (proficiency_source m),
                  data_weak_topics = validate_scores (weak_source m (proficiency_source m)),
                  data_performance_history = performanceHistory,
                  data_badges = badgeAchievements db userId,
                  data_insight_last_updated = Some (last_updated m) \<rparr>)))"

section \<open>Concurrent answer submissions\<close>

text \<open>
  A request handler runs without interruption from one \<open>await\<close> to the next; each awaited
  operation on the store is atomic. \<open>submitQuizAnswer\<close> is therefore a sequence of at
  most eight steps, one for each awaited operation together with the code up to the next
  one, and requests interleave step by step. The state of a request between two steps is
  what its local variables hold.
\<close>

record request =
  request_uuid :: string
  request_now :: int
  request_attemptId :: string
  request_user :: string
  request_body :: answer_body

datatype submit_state =
    Start
  | FoundAttempt quiz_attempt
  | FoundQuestion quiz_attempt question
  | NoExistingAnswer quiz_attempt question
  | Created quiz_attempt quiz_attempt_answer
  | CountedAnswers quiz_attempt quiz_attempt_answer nat
  | CountedQuestions quiz_attempt quiz_attempt_answer nat
  | CountedCorrect quiz_attempt quiz_attempt_answer nat nat
  | Responded "http_error + submit_response"

text \<open>
  One step of one request: its next state, the store, and the users for whom the step
  started an insight run.
\<close>

fun submit_step ::
  "request \<Rightarrow> submit_state \<Rightarrow> database \<Rightarrow> submit_state \<times> database \<times> string list" where
  "submit_step r Start db =
     (if \<not> isValidUUID (request_attemptId r)
      then (Responded (Inl (HttpError 400 ''Invalid attempt ID format'')), db, [])
      else if body_question_id (request_body r) = []
      then (Responded (Inl (HttpError 400 ''Invalid question ID format'')), db, [])
      else (case findOne (\<lambda>a. attempt_id a = request_attemptId r) (attempts db) of
        None \<Rightarrow> (Responded (Inl (HttpError 404 ''Quiz attempt not found'')), db, [])
      | Some attempt \<Rightarrow>
          if attempt_user_id attempt \<noteq> request_user r
          then (Responded (Inl (HttpError 403 ''Unauthorized'')), db, [])
          else if status attempt \<noteq> IN_PROGRESS
          then (Responded (Inl (HttpError 400
                  ''This quiz attempt is already completed or abandoned'')), db, [])
          else (FoundAttempt attempt, db, [])))"
| "submit_step r (FoundAttempt attempt) db =
     (case findOne (\<lambda>q. question_id q = body_question_id (request_body r)) (questions db) of
        None \<Rightarrow> (Responded (Inl (HttpError 404 ''Question not found'')), db, [])
      | Some question \<Rightarrow>
          if question_quiz_id question \<noteq> attempt_quiz_id attempt
          then (Responded (Inl (HttpError 400
                  ''This question does not belong to the attempted quiz'')), db, [])
          else (FoundQuestion attempt question, db, []))"
| "submit_step r (FoundQuestion attempt question) db =
     (case findOne (\<lambda>a. answer_attempt_id a = request_attemptId r
                          \<and> answer_question_id a = body_question_id (request_body r))
             (answers db) of
        Some existingAnswer \<Rightarrow>
          (Responded (Inl (HttpError 400 ''Answer for this question already submitted'')), db, [])
      | None \<Rightarrow> (NoExistingAnswer attempt question, db, []))"
| "submit_step r (NoExistingAnswer attempt question) db =
     (let newAnswer = new_answer (request_uuid r) (request_now r) (request_attemptId r)
                        (request_body r) question
      in case create_answer newAnswer db of
           Inl error \<Rightarrow> (Responded (Inl (HttpError 500 (message error))), db, [])
         | Inr db1 \<Rightarrow> (Created attempt newAnswer, db1, []))"
| "submit_step r (Created attempt newAnswer) db =
     (CountedAnswers attempt newAnswer
        (countDocuments (\<lambda>a. answer_attempt_id a = request_attemptId r) (answers db)), db, [])"
| "submit_step r (CountedAnswers attempt newAnswer answersCount) db =
     (let questionsCount = countDocuments (\<lambda>q. question_quiz_id q = attempt_quiz_id attempt)
                             (questions db)
      in if answersCount = questionsCount
         then (CountedQuestions attempt newAnswer questionsCount, db, [])
         else (Responded (Inr (response_of newAnswer)), db, []))"
| "submit_step r (CountedQuestions attempt newAnswer questionsCount) db =
     (CountedCorrect attempt newAnswer questionsCount
        (countDocuments (\<lambda>a. answer_attempt_id a = request_attemptId r \<and> is_correct a)
           (answers db)), db, [])"
| "submit_step r (CountedCorrect attempt newAnswer questionsCount correctAnswers) db =
     (Responded (Inr (response_of newAnswer)),
      update_attempt (request_attemptId r)
        (completion_update (request_now r) correctAnswers questionsCount) db,
      [request_user r])"
| "submit_step r (Responded response) db = (Responded response, db, [])"

text \<open>
  A schedule names, step by step, the request that runs next. The run keeps the state of
  every request, the store, and the insight runs started so far, one for each completion
  update.
\<close>

fun run_schedule ::
  "request list \<Rightarrow> nat list \<Rightarrow> submit_state list \<times> database \<times> string list
     \<Rightarrow> submit_state list \<times> database \<times> string list" where
  "run_schedule rs [] cfg = cfg"
| "run_schedule rs (i # schedule) (states, db, started) =
     (if i < length rs \<and> i < length states
      then (case submit_step (rs ! i) (states ! i) db of
              (s', db', new) \<Rightarrow> run_schedule rs schedule (states[i := s'], db', started @ new))
      else run_schedule rs schedule (states, db, started))"

text \<open>One request running alone: eight steps from \<open>Start\<close>.\<close>

definition run_alone :: "request \<Rightarrow> database \<Rightarrow> submit_state list \<times> database \<times> string list" where
  "run_alone r db = run_schedule [r] (replicate 8 0) ([Start], db, [])"

section \<open>The analysis as the specification words it\<close>

text \<open>
  The graded answers of a topic in the analysed window: the answers whose question and
  quiz are found and whose quiz has that topic. Each weighs 1, 1.5 or 2 with the
  difficulty of its quiz.
\<close>

definition topic_answers ::
  "(string \<times> question) list \<Rightarrow> (string \<times> quiz) list \<Rightarrow> string
     \<Rightarrow> quiz_attempt_answer list \<Rightarrow> quiz_attempt_answer list" where
  "topic_answers questionMap quizMap topic as =
     filter (\<lambda>a. case answer_quiz questionMap quizMap a of
                    None \<Rightarrow> False
                  | Some quiz \<Rightarrow> quiz_topic quiz = topic) as"

definition answer_weight ::
  "(string \<times> question) list \<Rightarrow> (string \<times> quiz) list \<Rightarrow> quiz_attempt_answer \<Rightarrow> rat" where
  "answer_weight questionMap quizMap a =
     (case answer_quiz questionMap quizMap a of
        None \<Rightarrow> 0
      | Some quiz \<Rightarrow> (case quiz_difficulty quiz of EASY \<Rightarrow> 1 | MEDIUM \<Rightarrow> 3 / 2 | HARD \<Rightarrow> 2))"

definition weighted_total ::
  "(string \<times> question) list \<Rightarrow> (string \<times> quiz) list \<Rightarrow> quiz_attempt_answer list \<Rightarrow> rat" where
  "weighted_total questionMap quizMap as = sum_list (map (answer_weight questionMap quizMap) as)"

definition weighted_correct ::
  "(string \<times> question) list \<Rightarrow> (string \<times> quiz) list \<Rightarrow> quiz_attempt_answer list \<Rightarrow> rat" where
  "weighted_correct questionMap quizMap as =
     sum_list (map (answer_weight questionMap quizMap) (filter is_correct as))"

text \<open>The graded answers of a topic among the 20 most recent completed attempts of a user.\<close>

definition window :: "database \<Rightarrow> string \<Rightarrow> quiz_attempt list" where
  "window db userId = take 20 (completed_attempts db userId)"

definition graded_answers :: "database \<Rightarrow> string \<Rightarrow> string \<Rightarrow> quiz_attempt_answer list" where
  "graded_answers db userId topic =
     topic_answers (window_questionMap db (window db userId)) (window_quizMap db (window db userId))
       topic (window_answers db (window db userId))"

definition claimed_proficiency :: "database \<Rightarrow> string \<Rightarrow> string \<Rightarrow> rat" where
  "claimed_proficiency db userId topic =
     Math_round
       (weighted_correct (window_questionMap db (window db userId))
            (window_quizMap db (window db userId)) (graded_answers db userId topic)
        / weighted_total (window_questionMap db (window db userId))
            (window_quizMap db (window db userId)) (graded_answers db userId topic)
        * 100)"

definition zero_stat :: topicStat where
  "zero_stat = \<lparr> stat_correct = 0, stat_total = 0, weightedCorrect = 0, weightedTotal = 0 \<rparr>"

text \<open>The topics whose statistics count at least three answers.\<close>

definition qualifying :: "(string \<times> topicStat) list \<Rightarrow> string set" where
  "qualifying stats = fst ` set (filter (\<lambda>(topic, s). 3 \<le> stat_total s) stats)"

text \<open>
  The proficiency of the specification, read on the store alone. The Completed attempts
  of a user; a choice of the \<open>n\<close> most recent of them (all of them, if there are fewer):
  no attempt left out was completed later than one taken. The quiz of an answer is the
  quiz of its question; the graded answers of a topic are the answers of the chosen
  attempts whose quiz has that topic; an answer weighs 1, 1.5 or 2 as its quiz is easy,
  medium or hard.
\<close>

definition completed_by :: "database \<Rightarrow> string \<Rightarrow> quiz_attempt list" where
  "completed_by db userId =
     filter (\<lambda>a. attempt_user_id a = userId \<and> status a = COMPLETED) (attempts db)"

definition no_later :: "quiz_attempt \<Rightarrow> quiz_attempt \<Rightarrow> bool" where
  "no_later b a =
     (case completed_at b of
        None \<Rightarrow> True
      | Some t \<Rightarrow> (case completed_at a of None \<Rightarrow> False | Some u \<Rightarrow> t \<le> u))"

definition most_recent :: "nat \<Rightarrow> quiz_attempt list \<Rightarrow> quiz_attempt list \<Rightarrow> bool" where
  "most_recent n candidates chosen =
     (mset chosen \<subseteq># mset candidates
      \<and> length chosen = min n (length candidates)
      \<and> (\<forall>a \<in> set chosen. \<forall>b \<in># mset candidates - mset chosen. no_later b a))"

definition quiz_of :: "database \<Rightarrow> quiz_attempt_answer \<Rightarrow> quiz option" where
  "quiz_of db a =
     (case List.find (\<lambda>q. question_id q = answer_question_id a) (questions db) of
        None \<Rightarrow> None
      | Some q \<Rightarrow> List.find (\<lambda>z. quiz_id z = question_quiz_id q) (quizzes db))"

definition graded_in :: "database \<Rightarrow> quiz_attempt list \<Rightarrow> string \<Rightarrow> quiz_attempt_answer list" where
  "graded_in db chosen topic =
     filter (\<lambda>a. answer_attempt_id a \<in> set (map attempt_id chosen)
                 \<and> (case quiz_of db a of None \<Rightarrow> False | Some z \<Rightarrow> quiz_topic z = topic))
            (answers db)"

definition weight_in :: "database \<Rightarrow> quiz_attempt_answer \<Rightarrow> rat" where
  "weight_in db a =
     (case quiz_of db a of
        None \<Rightarrow> 0
      | Some z \<Rightarrow> (case quiz_difficulty z of EASY \<Rightarrow> 1 | MEDIUM \<Rightarrow> 3 / 2 | HARD \<Rightarrow> 2))"

definition weighted_total_in :: "database \<Rightarrow> quiz_attempt_answer list \<Rightarrow> rat" where
  "weighted_total_in db as = sum_list (map (weight_in db) as)"

definition weighted_correct_in :: "database \<Rightarrow> quiz_attempt_answer list \<Rightarrow> rat" where
  "weighted_correct_in db as = sum_list (map (weight_in db) (filter is_correct as))"

text \<open>
  The store as the two handlers keep it: the question of an answer belongs to the quiz of
  the answer's attempt.
\<close>

definition answers_fit :: "database \<Rightarrow> bool" where
  "answers_fit db =
     (\<forall>a \<in> set (answers db). \<forall>w \<in> set (attempts db). \<forall>q \<in> set (questions db).
        answer_attempt_id a = attempt_id w \<and> answer_question_id a = question_id q
          \<longrightarrow> question_quiz_id q = attempt_quiz_id w)"

text \<open>
  The confidence of a topic as the specification words it: the topic's answers, ordered
  by the time of their attempt, are split into the 10 most recent and the remainder, the
  older ones; the trend is the recent score less the older score when at least three
  older answers remain.
\<close>

definition topic_details :: "database \<Rightarrow> string \<Rightarrow> int \<Rightarrow> string \<Rightarrow> attemptDetail list" where
  "topic_details db userId now topic =
     (case process_answers (window_questionMap db (window db userId))
             (window_quizMap db (window db userId)) (window db userId) now
             (window_answers db (window db userId)) empty_analysis of
        Inl error \<Rightarrow> []
      | Inr acc \<Rightarrow> lookup_or [] (topicAttempts acc) topic)"

definition score_of :: "attemptDetail list \<Rightarrow> rat" where
  "score_of as =
     Math_round (sum_list (map detail_weight (filter detail_is_correct as))
                 / sum_list (map detail_weight as) * 100)"

definition blend :: "rat \<Rightarrow> attemptDetail list \<Rightarrow> attemptDetail list \<Rightarrow> rat" where
  "blend proficiency recent older =
     (let recent_score = score_of recent;
          trend = (if 3 \<le> length older then recent_score - score_of older else 0)
      in max 0 (min 100 (Math_round (proficiency * (6 / 10) + recent_score * (3 / 10)
                                      + trend * (1 / 10)))))"

definition claimed_confidence :: "database \<Rightarrow> string \<Rightarrow> int \<Rightarrow> string \<Rightarrow> rat" where
  "claimed_confidence db userId now topic =
     (let ordered = sort_key (\<lambda>a. - detail_timestamp a) (topic_details db userId now topic)
      in blend (claimed_proficiency db userId topic) (take 10 ordered) (drop 10 ordered))"

text \<open>
  Every way of taking \<open>k\<close> elements of a list as the recent ones, the others being the
  older ones; and those ways for a topic's answers that take 10 (or all, if fewer) and
  leave no answer on the older side that is later than one on the recent side.
\<close>

fun divisions :: "nat \<Rightarrow> 'a list \<Rightarrow> ('a list \<times> 'a list) list" where
  "divisions 0 xs = [([], xs)]"
| "divisions (Suc k) [] = []"
| "divisions (Suc k) (x # xs) =
     map (\<lambda>(recent, older). (x # recent, older)) (divisions k xs)
     @ map (\<lambda>(recent, older). (recent, x # older)) (divisions (Suc k) xs)"

definition recent_first :: "attemptDetail list \<times> attemptDetail list \<Rightarrow> bool" where
  "recent_first d =
     (case d of (recent, older) \<Rightarrow>
        list_all (\<lambda>r. list_all (\<lambda>a. detail_timestamp a \<le> detail_timestamp r) older) recent)"

definition admissible_confidences :: "database \<Rightarrow> string \<Rightarrow> int \<Rightarrow> string \<Rightarrow> rat list" where
  "admissible_confidences db userId now topic =
     (let details = topic_details db userId now topic in
      remdups (map (\<lambda>(recent, older). blend (claimed_proficiency db userId topic) recent older)
                   (filter recent_first (divisions (min 10 (length details)) details))))"

section \<open>Example data\<close>

text \<open>
  A quiz on algebra with three single-choice questions whose correct answers are A, B and
  C, and an attempt of user \<open>u1\<close> in progress.
\<close>

definition quiz_algebra :: string where
  "quiz_algebra = ''11111111-1111-4111-8111-111111111111''"

definition attempt_one :: string where
  "attempt_one = ''22222222-2222-4222-8222-222222222222''"

definition started_attempt :: quiz_attempt where
  "started_attempt =
     \<lparr> attempt_id = attempt_one, attempt_user_id = ''u1'', attempt_quiz_id = quiz_algebra,
       status = IN_PROGRESS, score = None, total_questions = None, correct_answers = None,
       time_taken = None, created_at = 0, completed_at = None \<rparr>"

definition algebra_db :: database where
  "algebra_db =
     \<lparr> quizzes = [\<lparr> quiz_id = quiz_algebra, quiz_topic = ''Algebra'', quiz_difficulty = EASY \<rparr>],
       questions =
         [\<lparr> question_id = ''q1'', question_quiz_id = quiz_algebra, correct_answer = [''A''] \<rparr>,
          \<lparr> question_id = ''q2'', question_quiz_id = quiz_algebra, correct_answer = [''B''] \<rparr>,
          \<lparr> question_id = ''q3'', question_quiz_id = quiz_algebra, correct_answer = [''C''] \<rparr>],
       attempts = [started_attempt],
       answers = [], insights = [], user_badges = [], badges = [] \<rparr>"

definition pick :: "string \<Rightarrow> string list \<Rightarrow> answer_body" where
  "pick q selected =
     \<lparr> body_question_id = q, body_selected_answer = selected, body_question_order = None \<rparr>"

definition recorded :: "string \<Rightarrow> int \<Rightarrow> string \<Rightarrow> string list \<Rightarrow> bool \<Rightarrow> quiz_attempt_answer" where
  "recorded uuid now q selected correct =
     \<lparr> answer_id = uuid, answer_attempt_id = attempt_one, answer_question_id = q,
       question_order = 0, selected_answer = selected, is_correct = correct,
       answer_created_at = now \<rparr>"

text \<open>The store after the answers A and X to the first two questions.\<close>

definition two_answered_db :: database where
  "two_answered_db =
     algebra_db\<lparr>answers := [recorded ''a1'' 1 ''q1'' [''A''] True,
                              recorded ''a2'' 2 ''q2'' [''X''] False]\<rparr>"

text \<open>A multi-select question whose correct answer is the sequence A, B.\<close>

definition multi_select_db :: database where
  "multi_select_db =
     algebra_db\<lparr>questions :=
       [\<lparr> question_id = ''q1'', question_quiz_id = quiz_algebra, correct_answer = [''A'', ''B''] \<rparr>,
        \<lparr> question_id = ''q2'', question_quiz_id = quiz_algebra, correct_answer = [''B''] \<rparr>]\<rparr>"

text \<open>
  A question of another quiz, and bulk submissions by user \<open>u2\<close>: one whose score fields
  fit neither the answers nor the range of a percentage, and one whose second answer is
  to the question of the other quiz.
\<close>

definition quiz_geometry :: string where
  "quiz_geometry = ''33333333-3333-4333-8333-333333333333''"

definition two_quiz_db :: database where
  "two_quiz_db =
     algebra_db\<lparr>questions := questions algebra_db
       @ [\<lparr> question_id = ''g1'', question_quiz_id = quiz_geometry, correct_answer = [''A''] \<rparr>]\<rparr>"

definition example_uuidv4 :: "nat \<Rightarrow> string" where
  "example_uuidv4 n = ''id'' @ replicate n (CHR ''x'')"

definition bulk_body :: "answer_body list \<Rightarrow> attempt_body" where
  "bulk_body as =
     \<lparr> body_quiz_id = quiz_algebra, body_score = Some 250, body_total_questions = Some 7,
       body_correct_answers = Some (- 1), body_time_taken = Some 42, body_answers = as \<rparr>"

definition bulk_attempt :: quiz_attempt where
  "bulk_attempt =
     \<lparr> attempt_id = ''id'', attempt_user_id = ''u2'', attempt_quiz_id = quiz_algebra,
       status = COMPLETED, score = Some 250, total_questions = Some 7,
       correct_answers = Some (- 1), time_taken = Some 42, created_at = 9,
       completed_at = Some 9 \<rparr>"

definition bulk_recorded :: "string \<Rightarrow> string \<Rightarrow> string list \<Rightarrow> bool \<Rightarrow> quiz_attempt_answer" where
  "bulk_recorded uuid q selected correct =
     \<lparr> answer_id = uuid, answer_attempt_id = ''id'', answer_question_id = q,
       question_order = 0, selected_answer = selected, is_correct = correct,
       answer_created_at = 9 \<rparr>"

text \<open>The store after the third answer, C, and the attempt it holds.\<close>

text \<open>The score is the double \<open>66.66666666666667\<close>.\<close>

definition completed_attempt :: quiz_attempt where
  "completed_attempt =
     started_attempt\<lparr> status := COMPLETED, completed_at := Some 3,
                      score := Some (2345624805922133 / 35184372088832),
                      total_questions := Some 3, correct_answers := Some 2 \<rparr>"

definition all_answered_db :: database where
  "all_answered_db =
     algebra_db\<lparr>attempts := [completed_attempt],
                answers := [recorded ''a1'' 1 ''q1'' [''A''] True,
                            recorded ''a2'' 2 ''q2'' [''X''] False,
                            recorded ''a3'' 3 ''q3'' [''C''] True]\<rparr>"





text \<open>
  The history of user \<open>u3\<close>: an older attempt (completed at 100) at an easy algebra quiz
  with two correct answers followed by three wrong ones, a newer attempt (completed at
  200) at a medium algebra quiz with seven correct answers and a wrong one, an attempt at
  a hard geometry quiz with two answers, one at a logic quiz with three correct answers
  and one at a quiz on sets with three wrong answers.
\<close>

definition quiz_equations :: string where
  "quiz_equations = ''44444444-4444-4444-8444-444444444444''"

definition quiz_logic :: string where
  "quiz_logic = ''55555555-5555-4555-8555-555555555555''"

definition quiz_sets :: string where
  "quiz_sets = ''66666666-6666-4666-8666-666666666666''"

definition finished_attempt :: "string \<Rightarrow> string \<Rightarrow> int \<Rightarrow> quiz_attempt" where
  "finished_attempt aid quiz t =
     \<lparr> attempt_id = aid, attempt_user_id = ''u3'', attempt_quiz_id = quiz,
       status = COMPLETED, score = Some 50, total_questions = Some 5, correct_answers = Some 2,
       time_taken = None, created_at = t - 10, completed_at = Some t \<rparr>"

definition graded :: "string \<Rightarrow> string \<Rightarrow> bool \<Rightarrow> quiz_attempt_answer" where
  "graded aid q correct =
     \<lparr> answer_id = aid @ q, answer_attempt_id = aid, answer_question_id = q,
       question_order = 0, selected_answer = [''A''], is_correct = correct,
       answer_created_at = 0 \<rparr>"

definition asked :: "string \<Rightarrow> string \<Rightarrow> question" where
  "asked q quiz = \<lparr> question_id = q, question_quiz_id = quiz, correct_answer = [''A''] \<rparr>"

definition history_db :: database where
  "history_db =
     \<lparr> quizzes =
         [\<lparr> quiz_id = quiz_algebra, quiz_topic = ''Algebra'', quiz_difficulty = EASY \<rparr>,
          \<lparr> quiz_id = quiz_equations, quiz_topic = ''Algebra'', quiz_difficulty = MEDIUM \<rparr>,
          \<lparr> quiz_id = quiz_geometry, quiz_topic = ''Geometry'', quiz_difficulty = HARD \<rparr>,
          \<lparr> quiz_id = quiz_logic, quiz_topic = ''Logic'', quiz_difficulty = HARD \<rparr>,
          \<lparr> quiz_id = quiz_sets, quiz_topic = ''Sets'', quiz_difficulty = EASY \<rparr>],
       questions =
         [asked ''x1'' quiz_algebra, asked ''x2'' quiz_algebra, asked ''x3'' quiz_algebra,
          asked ''x4'' quiz_algebra, asked ''x5'' quiz_algebra,
          asked ''y1'' quiz_equations, asked ''y2'' quiz_equations, asked ''y3'' quiz_equations,
          asked ''y4'' quiz_equations, asked ''y5'' quiz_equations, asked ''y6'' quiz_equations,
          asked ''y7'' quiz_equations, asked ''y8'' quiz_equations,
          asked ''z1'' quiz_geometry, asked ''z2'' quiz_geometry,
          asked ''l1'' quiz_logic, asked ''l2'' quiz_logic, asked ''l3'' quiz_logic,
          asked ''s1'' quiz_sets, asked ''s2'' quiz_sets, asked ''s3'' quiz_sets],
       attempts =
         [finished_attempt ''t1'' quiz_algebra 100,
          finished_attempt ''t2'' quiz_equations 200,
          finished_attempt ''t3'' quiz_geometry 300,
          finished_attempt ''t4'' quiz_logic 400,
          finished_attempt ''t5'' quiz_sets 500],
       answers =
         [graded ''t1'' ''x1'' True, graded ''t1'' ''x2'' True, graded ''t1'' ''x3'' False,
          graded ''t1'' ''x4'' False, graded ''t1'' ''x5'' False,
          graded ''t2'' ''y1'' True, graded ''t2'' ''y2'' True, graded ''t2'' ''y3'' True,
          graded ''t2'' ''y4'' True, graded ''t2'' ''y5'' True, graded ''t2'' ''y6'' True,
          graded ''t2'' ''y7'' True, graded ''t2'' ''y8'' False,
          graded ''t3'' ''z1'' True, graded ''t3'' ''z2'' True,
          graded ''t4'' ''l1'' True, graded ''t4'' ''l2'' True, graded ''t4'' ''l3'' True,
          graded ''t5'' ''s1'' False, graded ''t5'' ''s2'' False, graded ''t5'' ''s3'' False],
       insights = [], user_badges = [], badges = [] \<rparr>"

text \<open>The insight document computed from this history at time 1000, and the store with it.\<close>

definition insight_u3 :: ml_insight where
  "insight_u3 =
     \<lparr> insight_user_id = ''u3'', weak_topics = [''Sets''], strong_topics = [''Logic''],
       confidence_scores = [(''Algebra'', 73), (''Logic'', 90), (''Sets'', 0)],
       topic_performance = [(''Algebra'', 74), (''Logic'', 100), (''Sets'', 0)],
       last_updated = 1000,
       topic_proficiency = Some [(''Algebra'', 74), (''Logic'', 100), (''Sets'', 0)],
       weak_topics_data = Some [(''Sets'', 0)] \<rparr>"

definition analysed_db :: database where
  "analysed_db =
     history_db\<lparr>insights := [insight_u3\<lparr>topic_proficiency := None, weak_topics_data := None\<rparr>]\<rparr>"

text \<open>The algebra answers of this history as the loop over the answers collects them.\<close>

definition detail :: "bool \<Rightarrow> int \<Rightarrow> difficulty \<Rightarrow> rat \<Rightarrow> attemptDetail" where
  "detail correct t d w =
     \<lparr> detail_is_correct = correct, detail_timestamp = t, detail_difficulty = d,
       detail_weight = w \<rparr>"

definition algebra_details :: "attemptDetail list" where
  "algebra_details =
     [detail True 100 EASY 1, detail True 100 EASY 1, detail False 100 EASY 1,
      detail False 100 EASY 1, detail False 100 EASY 1,
      detail True 200 MEDIUM (3 / 2), detail True 200 MEDIUM (3 / 2),
      detail True 200 MEDIUM (3 / 2), detail True 200 MEDIUM (3 / 2),
      detail True 200 MEDIUM (3 / 2), detail True 200 MEDIUM (3 / 2),
      detail True 200 MEDIUM (3 / 2), detail False 200 MEDIUM (3 / 2)]"

text \<open>
  The history of user \<open>u5\<close>: an attempt at a medium quiz on calculus with one correct
  answer of four, and one at a hard quiz on calculus with five correct answers of seven.
  The weights of the correct answers add up to 11.5, those of all answers to 20.
\<close>

definition quiz_limits :: string where
  "quiz_limits = ''77777777-7777-4777-8777-777777777777''"

definition quiz_series :: string where
  "quiz_series = ''88888888-8888-4888-8888-888888888888''"

definition calculus_db :: database where
  "calculus_db =
     \<lparr> quizzes =
         [\<lparr> quiz_id = quiz_limits, quiz_topic = ''Calculus'', quiz_difficulty = MEDIUM \<rparr>,
          \<lparr> quiz_id = quiz_series, quiz_topic = ''Calculus'', quiz_difficulty = HARD \<rparr>],
       questions =
         [asked ''m1'' quiz_limits, asked ''m2'' quiz_limits, asked ''m3'' quiz_limits,
          asked ''m4'' quiz_limits,
          asked ''h1'' quiz_series, asked ''h2'' quiz_series, asked ''h3'' quiz_series,
          asked ''h4'' quiz_series, asked ''h5'' quiz_series, asked ''h6'' quiz_series,
          asked ''h7'' quiz_series],
       attempts =
         [(finished_attempt ''c1'' quiz_limits 100)\<lparr>attempt_user_id := ''u5''\<rparr>,
          (finished_attempt ''c2'' quiz_series 200)\<lparr>attempt_user_id := ''u5''\<rparr>],
       answers =
         [graded ''c1'' ''m1'' True, graded ''c1'' ''m2'' False, graded ''c1'' ''m3'' False,
          graded ''c1'' ''m4'' False,
          graded ''c2'' ''h1'' True, graded ''c2'' ''h2'' True, graded ''c2'' ''h3'' True,
          graded ''c2'' ''h4'' True, graded ''c2'' ''h5'' True, graded ''c2'' ''h6'' False,
          graded ''c2'' ''h7'' False],
       insights = [], user_badges = [], badges = [] \<rparr>"

text \<open>The insight document computed from this history at time 1000.\<close>

definition calculus_insight :: ml_insight where
  "calculus_insight =
     \<lparr> insight_user_id = ''u5'', weak_topics = [''Calculus''], strong_topics = [],
       confidence_scores = [(''Calculus'', 53)], topic_performance = [(''Calculus'', 57)],
       last_updated = 1000,
       topic_proficiency = Some [(''Calculus'', 57)],
       weak_topics_data = Some [(''Calculus'', 57)] \<rparr>"

text \<open>
  The dashboards of user \<open>u3\<close> before and after the insight run, and a user \<open>u4\<close> with
  twelve completed attempts, completed at the times 1 to 12.
\<close>

definition entry :: "string \<Rightarrow> string \<Rightarrow> int \<Rightarrow> performance_entry" where
  "entry aid quiz t =
     \<lparr> entry_id = aid, entry_quiz_id = quiz, entry_score = Some 50,
       entry_correct_answers = Some 2, entry_total_questions = Some 5, entry_date = t \<rparr>"

definition history_entries :: "performance_entry list" where
  "history_entries =
     [entry ''t5'' quiz_sets 500, entry ''t4'' quiz_logic 400, entry ''t3'' quiz_geometry 300,
      entry ''t2'' quiz_equations 200, entry ''t1'' quiz_algebra 100]"

definition dashboard_before :: dashboardData where
  "dashboard_before =
     \<lparr> data_weak_topics_array = [], data_strong_topics = [], data_confidence_scores = [],
       data_topic_proficiency = [], data_weak_topics = [],
       data_performance_history = history_entries, data_badges = [],
       data_insight_last_updated = None \<rparr>"

definition dashboard_after :: dashboardData where
  "dashboard_after =
     \<lparr> data_weak_topics_array = [''Sets''], data_strong_topics = [''Logic''],
       data_confidence_scores = [(''Algebra'', 73), (''Logic'', 90), (''Sets'', 0)],
       data_topic_proficiency = [(''Algebra'', 74), (''Logic'', 100), (''Sets'', 0)],
       data_weak_topics = [(''Sets'', 0)],
       data_performance_history = history_entries, data_badges = [],
       data_insight_last_updated = Some 1000 \<rparr>"

definition busy_db :: database where
  "busy_db =
     algebra_db\<lparr>attempts :=
       map (\<lambda>t. (finished_attempt (replicate (nat t) (CHR ''n'')) quiz_algebra t)
                   \<lparr>attempt_user_id := ''u4''\<rparr>)
           [1, 2, 3, 4, 5, 6, 7, 8, 9, 10, 11, 12]\<rparr>"

section \<open>Serialisation is injective\<close>

lemma hex_digit_inj:
  assumes "m < 16" "n < 16" "hex_digit m = hex_digit n"
  shows "m = n"
proof -
  have d: "distinct ''0123456789abcdef''" by simp
  have l: "length ''0123456789abcdef'' = 16" by simp
  show ?thesis
    using assms nth_eq_iff_index_eq[OF d, of m n] unfolding hex_digit_def l by simp
qed

lemma control_char_eq:
  fixes c d :: char
  assumes "(of_char c :: nat) < 32" "(of_char d :: nat) < 32"
    "hex_digit (of_char c div 16) = hex_digit (of_char d div 16)"
    "hex_digit (of_char c mod 16) = hex_digit (of_char d mod 16)"
  shows "c = d"
proof -
  let ?m = "of_char c :: nat" and ?n = "of_char d :: nat"
  have "?m div 16 = ?n div 16" using assms by (intro hex_digit_inj) auto
  moreover have "?m mod 16 = ?n mod 16" using assms by (intro hex_digit_inj) auto
  ultimately have "?m = ?n" by (metis div_mult_mod_eq)
  then show ?thesis by simp
qed

lemma quote_char_unique:
  "quote_char c @ r = quote_char d @ s \<Longrightarrow> c = d \<and> r = s"
  unfolding quote_char_def
  by (auto split: if_splits dest: control_char_eq)

lemma quote_char_not_quote: "quote_char c @ r \<noteq> CHR 0x22 # s"
  unfolding quote_char_def by (auto split: if_splits)

lemma escape_unique:
  "concat (map quote_char a) @ CHR 0x22 # r = concat (map quote_char b) @ CHR 0x22 # s
   \<Longrightarrow> a = b \<and> r = s"
proof (induction a arbitrary: b)
  case Nil
  then show ?case
    by (cases b) (auto simp: quote_char_not_quote[symmetric])
next
  case (Cons c a)
  show ?case
  proof (cases b)
    case Nil
    with Cons.prems show ?thesis by (auto simp: quote_char_not_quote)
  next
    case (Cons d b')
    with Cons.prems have
      "quote_char c @ (concat (map quote_char a) @ CHR 0x22 # r)
        = quote_char d @ (concat (map quote_char b') @ CHR 0x22 # s)" by simp
    from quote_char_unique[OF this] Cons.IH[of b'] Cons show ?thesis by simp
  qed
qed

lemma QuoteJSONString_unique:
  "QuoteJSONString a @ r = QuoteJSONString b @ s \<Longrightarrow> a = b \<and> r = s"
  unfolding QuoteJSONString_def using escape_unique[of a r b s] by simp

lemma join_elements_unique:
  "join_elements xs @ [CHR '']''] = join_elements ys @ [CHR '']''] \<Longrightarrow> xs = ys"
proof (induction xs arbitrary: ys rule: join_elements.induct)
  case 1
  then show ?case
    by (cases ys rule: join_elements.cases) (auto simp: QuoteJSONString_def)
next
  case (2 x)
  show ?case
  proof (cases ys rule: join_elements.cases)
    case 1
    with 2 show ?thesis by (auto simp: QuoteJSONString_def)
  next
    case (2 y)
    with "2.prems" QuoteJSONString_unique[of x "[CHR '']'']" y "[CHR '']'']"]
    show ?thesis by simp
  next
    case (3 y z zs)
    with "2.prems"
      QuoteJSONString_unique[of x "[CHR '']'']" y "CHR '','' # join_elements (z # zs) @ [CHR '']'']"]
    show ?thesis by simp
  qed
next
  case (3 x y ys')
  show ?case
  proof (cases ys rule: join_elements.cases)
    case 1
    with 3 show ?thesis by (auto simp: QuoteJSONString_def)
  next
    case (2 z)
    with "3.prems"
      QuoteJSONString_unique[of x "CHR '','' # join_elements (y # ys') @ [CHR '']'']" z "[CHR '']'']"]
    show ?thesis by simp
  next
    case (3 a b bs)
    with "3.prems"
      QuoteJSONString_unique[of x "CHR '','' # join_elements (y # ys') @ [CHR '']'']"
                                a "CHR '','' # join_elements (b # bs) @ [CHR '']'']"]
    have "x = a"
      and "join_elements (y # ys') @ [CHR '']''] = join_elements (b # bs) @ [CHR '']'']"
      by simp_all
    with "3.IH"[of "b # bs"] 3 show ?thesis by simp
  qed
qed

lemma JSON_stringify_inj: "JSON_stringify xs = JSON_stringify ys \<longleftrightarrow> xs = ys"
  unfolding JSON_stringify_def using join_elements_unique[of xs ys] by auto

section \<open>Queries\<close>

lemma findOne_SomeD: "findOne P xs = Some x \<Longrightarrow> P x \<and> x \<in> set xs"
  unfolding findOne_def by (auto simp: find_Some_iff)


lemma findOne_append:
  "findOne P (xs @ ys) = (case findOne P xs of Some x \<Rightarrow> Some x | None \<Rightarrow> findOne P ys)"
  unfolding findOne_def by (induction xs) auto

lemma findOne_updateOne_same:
  assumes "\<And>x. P (f x) = P x"
  shows "findOne P (updateOne P f xs) = map_option f (findOne P xs)"
  unfolding findOne_def by (induction xs) (auto simp: assms)

section \<open>The steps of \<open>submitQuizAnswer\<close> and \<open>createQuizAttempt\<close>\<close>

lemma submitQuizAnswer_okD:
  assumes "submitQuizAnswer uuid now db aid user body = (Inr r, db', tr)"
  shows "\<exists>attempt question.
      isValidUUID aid \<and> body_question_id body \<noteq> []
    \<and> findOne (\<lambda>a. attempt_id a = aid) (attempts db) = Some attempt
    \<and> attempt_user_id attempt = user \<and> status attempt = IN_PROGRESS
    \<and> findOne (\<lambda>q. question_id q = body_question_id body) (questions db) = Some question
    \<and> question_quiz_id question = attempt_quiz_id attempt
    \<and> findOne (\<lambda>a. answer_attempt_id a = aid \<and> answer_question_id a = body_question_id body)
          (answers db) = None
    \<and> r = response_of (new_answer uuid now aid body question)
    \<and> (db', tr) = completion_check now aid user attempt
                       (db\<lparr>answers := answers db @ [new_answer uuid now aid body question]\<rparr>)"
  using assms unfolding submitQuizAnswer_def create_answer_def insertMany_def response_of_def
    completion_check_def
  by (auto simp: Let_def split: if_splits option.splits sum.splits)

lemma completion_check_answers: "answers (fst (completion_check now aid user attempt db1)) = answers db1"
  by (simp add: completion_check_def Let_def update_attempt_def)

lemma completion_check_questions:
  "questions (fst (completion_check now aid user attempt db1)) = questions db1"
  by (simp add: completion_check_def Let_def update_attempt_def)

lemma prepare_answer_okE:
  assumes "prepare_answer db qid naid now (u, answer) = Inr a"
  obtains q where
    "findOne (\<lambda>q. question_id q = body_question_id answer) (questions db) = Some q"
    "question_quiz_id q = qid"
    "a = \<lparr> answer_id = u, answer_attempt_id = naid,
            answer_question_id = body_question_id answer, question_order = 0,
            selected_answer = body_selected_answer answer,
            is_correct = (JSON_stringify (body_selected_answer answer)
                          = JSON_stringify (correct_answer q)),
            answer_created_at = now \<rparr>"
  using assms unfolding prepare_answer_def
  by (auto split: option.splits if_splits)

lemma all_or_first_error_InrD:
  "all_or_first_error rs = Inr as \<Longrightarrow> rs = map Inr as"
  by (induction rs arbitrary: as rule: all_or_first_error.induct)
     (auto split: sum.splits)

lemma all_or_first_error_Inl:
  "Inl e \<in> set rs \<Longrightarrow> \<exists>e'. all_or_first_error rs = Inl e'"
  by (induction rs rule: all_or_first_error.induct) (auto split: sum.splits)

lemma prepare_answers_okD:
  assumes "prepare_answers uuidv4 db qid naid now as = Inr new"
  shows "length new = length as"
    and "\<And>i. i < length as \<Longrightarrow>
           prepare_answer db qid naid now (uuidv4 (Suc i), as ! i) = Inr (new ! i)"
proof -
  let ?rs = "map (prepare_answer db qid naid now)
               (zip (map (\<lambda>i. uuidv4 (Suc i)) [0 ..< length as]) as)"
  from assms have "all_or_first_error ?rs = Inr new"
    unfolding prepare_answers_def by (simp split: option.splits)
  then have eq: "?rs = map Inr new" by (rule all_or_first_error_InrD)
  then have "length ?rs = length (map Inr new :: (js_error + quiz_attempt_answer) list)" by simp
  then show len: "length new = length as" by simp
  fix i assume i: "i < length as"
  from eq have "?rs ! i = (map Inr new :: (js_error + quiz_attempt_answer) list) ! i" by simp
  with i len show "prepare_answer db qid naid now (uuidv4 (Suc i), as ! i) = Inr (new ! i)"
    by simp
qed

lemma prepare_answers_bad:
  assumes "b \<in> set as"
    and "\<And>u. \<exists>e. prepare_answer db qid naid now (u, b) = Inl e"
  shows "\<exists>e. prepare_answers uuidv4 db qid naid now as = Inl e"
proof (cases "findOne invalid_question_id as")
  case (Some a)
  then show ?thesis unfolding prepare_answers_def by simp
next
  case None
  let ?rs = "map (prepare_answer db qid naid now)
               (zip (map (\<lambda>i. uuidv4 (Suc i)) [0 ..< length as]) as)"
  from assms(1) obtain i where i: "i < length as" "as ! i = b"
    by (auto simp: in_set_conv_nth)
  from assms(2) obtain e where "prepare_answer db qid naid now (uuidv4 (Suc i), b) = Inl e"
    by blast
  with i have "?rs ! i = Inl e" by simp
  moreover from i have "i < length ?rs" by simp
  ultimately have "Inl e \<in> set ?rs" by (metis nth_mem)
  from all_or_first_error_Inl[OF this] None show ?thesis
    unfolding prepare_answers_def by simp
qed

text \<open>What a successful \<open>createQuizAttempt\<close> has written.\<close>

lemma createQuizAttempt_okE:
  assumes "createQuizAttempt uuidv4 now db user body = (Inr attempt, db', started)"
  obtains new where
    "attempt = \<lparr> attempt_id = uuidv4 0, attempt_user_id = user,
                  attempt_quiz_id = body_quiz_id body, status = COMPLETED,
                  score = body_score body, total_questions = body_total_questions body,
                  correct_answers = body_correct_answers body,
                  time_taken = body_time_taken body, created_at = now,
                  completed_at = Some now \<rparr>"
    "db' = db\<lparr>attempts := attempts db @ [attempt], answers := answers db @ new\<rparr>"
    "prepare_answers uuidv4 (db\<lparr>attempts := attempts db @ [attempt]\<rparr>) (body_quiz_id body)
       (uuidv4 0) now (body_answers body) = Inr new"
    "started = [user]"
  using assms
  unfolding createQuizAttempt_def withTransaction_def create_attempt_transaction_def
    create_attempt_def insertMany_def
  by (auto simp: Let_def split: if_splits option.splits sum.splits prod.splits)

section \<open>Correctness of a recorded answer\<close>

lemma new_answer_is_correct:
  "is_correct (new_answer uuid now aid body question)
     \<longleftrightarrow> body_selected_answer body = correct_answer question"
  by (simp add: new_answer_def JSON_stringify_inj)

lemma submit_records_equality:
  assumes "submitQuizAnswer uuid now db attemptId user body = (Inr r, db', started)"
  shows "\<exists>question.
           findOne (\<lambda>q. question_id q = body_question_id body) (questions db) = Some question
         \<and> response_answer r \<in> set (answers db')
         \<and> response_is_correct r = is_correct (response_answer r)
         \<and> selected_answer (response_answer r) = body_selected_answer body
         \<and> (is_correct (response_answer r) \<longleftrightarrow> body_selected_answer body = correct_answer question)"
proof -
  from submitQuizAnswer_okD[OF assms] obtain attempt question where
    q: "findOne (\<lambda>q. question_id q = body_question_id body) (questions db) = Some question"
    and r: "r = response_of (new_answer uuid now attemptId body question)"
    and d: "(db', started) = completion_check now attemptId user attempt
              (db\<lparr>answers := answers db @ [new_answer uuid now attemptId body question]\<rparr>)"
    by blast
  from d have "db' = fst (completion_check now attemptId user attempt
              (db\<lparr>answers := answers db @ [new_answer uuid now attemptId body question]\<rparr>))"
    by (metis fst_conv)
  then have "answers db' = answers db @ [new_answer uuid now attemptId body question]"
    by (simp add: completion_check_answers)
  with q r show ?thesis
    by (simp add: response_of_def new_answer_is_correct) (simp add: new_answer_def)
qed

lemma bulk_records_equality:
  assumes "createQuizAttempt uuidv4 now db user body = (Inr attempt, db', started)"
  shows "\<exists>new. answers db' = answers db @ new
          \<and> list_all2 (\<lambda>a b. \<exists>question.
                findOne (\<lambda>q. question_id q = body_question_id b) (questions db) = Some question
              \<and> selected_answer a = body_selected_answer b
              \<and> (is_correct a \<longleftrightarrow> body_selected_answer b = correct_answer question))
              new (body_answers body)"
proof -
  from assms obtain new where
    db': "db' = db\<lparr>attempts := attempts db @ [attempt], answers := answers db @ new\<rparr>"
    and p: "prepare_answers uuidv4 (db\<lparr>attempts := attempts db @ [attempt]\<rparr>) (body_quiz_id body)
              (uuidv4 0) now (body_answers body) = Inr new"
    by (rule createQuizAttempt_okE) blast
  have "list_all2 (\<lambda>a b. \<exists>question.
                findOne (\<lambda>q. question_id q = body_question_id b) (questions db) = Some question
              \<and> selected_answer a = body_selected_answer b
              \<and> (is_correct a \<longleftrightarrow> body_selected_answer b = correct_answer question))
              new (body_answers body)"
    unfolding list_all2_conv_all_nth
  proof (intro conjI allI impI)
    show "length new = length (body_answers body)" by (rule prepare_answers_okD(1)[OF p])
  next
    fix i assume "i < length new"
    then have i: "i < length (body_answers body)" by (simp add: prepare_answers_okD(1)[OF p])
    from prepare_answers_okD(2)[OF p i]
    show "\<exists>question.
            findOne (\<lambda>q. question_id q = body_question_id (body_answers body ! i)) (questions db)
              = Some question
          \<and> selected_answer (new ! i) = body_selected_answer (body_answers body ! i)
          \<and> (is_correct (new ! i)
               \<longleftrightarrow> body_selected_answer (body_answers body ! i) = correct_answer question)"
      by (rule prepare_answer_okE) (simp add: JSON_stringify_inj)
  qed
  with db' show ?thesis by simp
qed

text \<open>
  Claim C8. In both \<open>submitQuizAnswer\<close> and \<open>createQuizAttempt\<close>, the recorded
  \<open>is_correct\<close> is true exactly when the selected answer is the same sequence of strings
  as the question's correct answer, in the same order; a selected answer that holds the
  correct strings in another order is recorded as incorrect.
\<close>

theorem is_correct_iff_same_sequence:
  "(submitQuizAnswer uuid now db attemptId user body = (Inr r, db', started) \<longrightarrow>
      (\<exists>question.
           findOne (\<lambda>q. question_id q = body_question_id body) (questions db) = Some question
         \<and> response_answer r \<in> set (answers db')
         \<and> response_is_correct r = is_correct (response_answer r)
         \<and> selected_answer (response_answer r) = body_selected_answer body
         \<and> (is_correct (response_answer r) \<longleftrightarrow> body_selected_answer body = correct_answer question)
         \<and> (mset (body_selected_answer body) = mset (correct_answer question)
              \<and> body_selected_answer body \<noteq> correct_answer question
              \<longrightarrow> \<not> is_correct (response_answer r))))
   \<and> (createQuizAttempt uuidv4 now' db user' bulk = (Inr attempt, db'', started') \<longrightarrow>
      (\<exists>new. answers db'' = answers db @ new
          \<and> list_all2 (\<lambda>a b. \<exists>question.
                findOne (\<lambda>q. question_id q = body_question_id b) (questions db) = Some question
              \<and> selected_answer a = body_selected_answer b
              \<and> (is_correct a \<longleftrightarrow> body_selected_answer b = correct_answer question))
              new (body_answers bulk)))"
  using submit_records_equality[of uuid now db attemptId user body r db' started]
    bulk_records_equality[of uuidv4 now' db user' bulk attempt db'' started']
  by blast

theorem is_correct_iff_same_sequence_witness:
  "submitQuizAnswer ''a1'' 1 multi_select_db attempt_one ''u1'' (pick ''q1'' [''B'', ''A''])
     = (Inr (response_of (recorded ''a1'' 1 ''q1'' [''B'', ''A''] False)),
        multi_select_db\<lparr>answers := [recorded ''a1'' 1 ''q1'' [''B'', ''A''] False]\<rparr>, [])
   \<and> mset [''B'', ''A''] = mset [''A'', ''B'']
   \<and> \<not> is_correct (recorded ''a1'' 1 ''q1'' [''B'', ''A''] False)
   \<and> \<not> response_is_correct (response_of (recorded ''a1'' 1 ''q1'' [''B'', ''A''] False))
   \<and> createQuizAttempt example_uuidv4 9 algebra_db ''u2''
        (bulk_body [pick ''q1'' [''A''], pick ''q2'' [''X''], pick ''q3'' [''C'']])
     = (Inr bulk_attempt,
        algebra_db\<lparr>attempts := [started_attempt, bulk_attempt],
                   answers := [bulk_recorded ''idx'' ''q1'' [''A''] True,
                               bulk_recorded ''idxx'' ''q2'' [''X''] False,
                               bulk_recorded ''idxxx'' ''q3'' [''C''] True]\<rparr>,
        [''u2''])
   \<and> is_correct (bulk_recorded ''idx'' ''q1'' [''A''] True)
   \<and> \<not> is_correct (bulk_recorded ''idxx'' ''q2'' [''X''] False)"
proof -
  have run: "submitQuizAnswer ''a1'' 1 multi_select_db attempt_one ''u1'' (pick ''q1'' [''B'', ''A''])
     = (Inr (response_of (recorded ''a1'' 1 ''q1'' [''B'', ''A''] False)),
        multi_select_db\<lparr>answers := [recorded ''a1'' 1 ''q1'' [''B'', ''A''] False]\<rparr>, [])"
    by code_simp
  have q: "findOne (\<lambda>q. question_id q = body_question_id (pick ''q1'' [''B'', ''A'']))
             (questions multi_select_db)
           = Some \<lparr> question_id = ''q1'', question_quiz_id = quiz_algebra,
                    correct_answer = [''A'', ''B''] \<rparr>"
    by code_simp
  have p: "mset [''B'', ''A''] = mset [''A'', ''B'']" by (simp add: add.commute)
  from is_correct_iff_same_sequence[THEN conjunct1, rule_format, OF run] q
  have single: "\<not> is_correct (response_answer (response_of (recorded ''a1'' 1 ''q1'' [''B'', ''A''] False)))"
    by (auto simp: pick_def)
  have bulk: "createQuizAttempt example_uuidv4 9 algebra_db ''u2''
        (bulk_body [pick ''q1'' [''A''], pick ''q2'' [''X''], pick ''q3'' [''C'']])
     = (Inr bulk_attempt,
        algebra_db\<lparr>attempts := [started_attempt, bulk_attempt],
                   answers := [bulk_recorded ''idx'' ''q1'' [''A''] True,
                               bulk_recorded ''idxx'' ''q2'' [''X''] False,
                               bulk_recorded ''idxxx'' ''q3'' [''C''] True]\<rparr>,
        [''u2''])"
    by code_simp
  have q1: "findOne (\<lambda>q. question_id q = ''q1'') (questions algebra_db)
              = Some \<lparr> question_id = ''q1'', question_quiz_id = quiz_algebra,
                       correct_answer = [''A''] \<rparr>"
    and q2: "findOne (\<lambda>q. question_id q = ''q2'') (questions algebra_db)
              = Some \<lparr> question_id = ''q2'', question_quiz_id = quiz_algebra,
                       correct_answer = [''B''] \<rparr>"
    by (simp_all add: findOne_def algebra_db_def)
  from is_correct_iff_same_sequence[THEN conjunct2, rule_format, OF bulk] q1 q2
  have many: "is_correct (bulk_recorded ''idx'' ''q1'' [''A''] True)"
    "\<not> is_correct (bulk_recorded ''idxx'' ''q2'' [''X''] False)"
    by (auto simp: algebra_db_def bulk_body_def pick_def bulk_recorded_def)
  from run p single bulk many show ?thesis by (simp add: response_of_def)
qed

section \<open>Bulk submission\<close>

lemma create_attempt_questions:
  "create_attempt a db = Inr db1 \<Longrightarrow> questions db1 = questions db"
  by (auto simp: create_attempt_def split: if_splits)

lemma prepare_answer_foreign:
  assumes "findOne (\<lambda>q. question_id q = body_question_id b) (questions db) = None
           \<or> (\<exists>q. findOne (\<lambda>q. question_id q = body_question_id b) (questions db) = Some q
                  \<and> question_quiz_id q \<noteq> qid)"
  shows "\<exists>e. prepare_answer db qid naid now (u, b) = Inl e"
  using assms unfolding prepare_answer_def by (auto split: option.splits)

lemma transaction_fails:
  assumes "b \<in> set (body_answers body)"
    and "findOne (\<lambda>q. question_id q = body_question_id b) (questions db) = None
         \<or> (\<exists>q. findOne (\<lambda>q. question_id q = body_question_id b) (questions db) = Some q
                \<and> question_quiz_id q \<noteq> body_quiz_id body)"
  shows "\<exists>e d. create_attempt_transaction uuidv4 now user body db = (Inl e, d)"
proof -
  let ?new = "\<lparr> attempt_id = uuidv4 0, attempt_user_id = user,
                 attempt_quiz_id = body_quiz_id body, status = COMPLETED,
                 score = body_score body, total_questions = body_total_questions body,
                 correct_answers = body_correct_answers body,
                 time_taken = body_time_taken body, created_at = now,
                 completed_at = Some now \<rparr>"
  show ?thesis
  proof (cases "create_attempt ?new db")
    case (Inl e)
    then show ?thesis by (simp add: create_attempt_transaction_def)
  next
    case (Inr db1)
    then have "questions db1 = questions db" by (rule create_attempt_questions)
    with assms(2) have "\<And>u. \<exists>e. prepare_answer db1 (body_quiz_id body) (uuidv4 0) now (u, b) = Inl e"
      by (intro prepare_answer_foreign) simp
    from prepare_answers_bad[OF assms(1) this]
    obtain e where "prepare_answers uuidv4 db1 (body_quiz_id body) (uuidv4 0) now
                      (body_answers body) = Inl e"
      by blast
    with Inr show ?thesis by (simp add: create_attempt_transaction_def)
  qed
qed

text \<open>
  Claim C3. When an answer of a bulk submission names a question that does not exist or
  that belongs to another quiz, \<open>createQuizAttempt\<close> answers with an error and the store
  is what it was before the call: neither the attempt nor any answer is kept, and no
  insight run is started.
\<close>

theorem bulk_submission_rolls_back:
  assumes "b \<in> set (body_answers body)"
    and "findOne (\<lambda>q. question_id q = body_question_id b) (questions db) = None
         \<or> (\<exists>q. findOne (\<lambda>q. question_id q = body_question_id b) (questions db) = Some q
                \<and> question_quiz_id q \<noteq> body_quiz_id body)"
  shows "\<exists>e. createQuizAttempt uuidv4 now db user body = (Inl e, db, [])"
proof -
  from transaction_fails[OF assms] obtain e d where
    "create_attempt_transaction uuidv4 now user body db = (Inl e, d)" by blast
  then have "withTransaction (create_attempt_transaction uuidv4 now user body) db = (Inl e, db)"
    by (simp add: withTransaction_def)
  then show ?thesis
    unfolding createQuizAttempt_def by (simp split: option.splits)
qed

theorem bulk_submission_rolls_back_witness:
  "createQuizAttempt example_uuidv4 9 two_quiz_db ''u2''
     (bulk_body [pick ''q1'' [''A''], pick ''g1'' [''A''], pick ''q3'' [''C'']])
   = (Inl (HttpError 500 ''Question g1 does not belong to the specified quiz''), two_quiz_db, [])
   \<and> attempts (snd (create_attempt_transaction example_uuidv4 9 ''u2''
         (bulk_body [pick ''q1'' [''A''], pick ''g1'' [''A''], pick ''q3'' [''C'']]) two_quiz_db))
     = [started_attempt, bulk_attempt]"
proof -
  let ?body = "bulk_body [pick ''q1'' [''A''], pick ''g1'' [''A''], pick ''q3'' [''C'']]"
  have b: "pick ''g1'' [''A''] \<in> set (body_answers ?body)"
    by (simp add: bulk_body_def)
  have q: "findOne (\<lambda>q. question_id q = body_question_id (pick ''g1'' [''A'']))
             (questions two_quiz_db) = None
         \<or> (\<exists>q. findOne (\<lambda>q. question_id q = body_question_id (pick ''g1'' [''A'']))
                   (questions two_quiz_db) = Some q
                \<and> question_quiz_id q \<noteq> body_quiz_id ?body)"
    by (simp add: findOne_def pick_def two_quiz_db_def algebra_db_def bulk_body_def
          quiz_geometry_def quiz_algebra_def)
  from bulk_submission_rolls_back[OF b q, of example_uuidv4 9 "''u2''"]
  obtain e where e: "createQuizAttempt example_uuidv4 9 two_quiz_db ''u2'' ?body
                       = (Inl e, two_quiz_db, [])"
    by blast
  have "fst (createQuizAttempt example_uuidv4 9 two_quiz_db ''u2'' ?body)
          = Inl (HttpError 500 ''Question g1 does not belong to the specified quiz'')"
    by code_simp
  with e have "e = HttpError 500 ''Question g1 does not belong to the specified quiz''"
    by simp
  moreover have "attempts (snd (create_attempt_transaction example_uuidv4 9 ''u2'' ?body two_quiz_db))
     = [started_attempt, bulk_attempt]"
    by code_simp
  ultimately show ?thesis using e by simp
qed

lemma prepare_answers_attempts_update:
  "prepare_answers uuidv4 (db\<lparr>attempts := x\<rparr>) qid naid now as
     = prepare_answers uuidv4 db qid naid now as"
proof -
  have h: "prepare_answer (db\<lparr>attempts := x\<rparr>) qid naid now = prepare_answer db qid naid now"
    by (rule ext) (simp add: prepare_answer_def)
  show ?thesis unfolding prepare_answers_def h by (rule refl)
qed

text \<open>
  Claim C10. The attempt that \<open>createQuizAttempt\<close> stores carries the request's score,
  total_questions, correct_answers and time_taken unchanged, with status COMPLETED;
  whether the call succeeds does not depend on these four values, so none of them is
  validated or recomputed.
\<close>

theorem bulk_fields_stored_verbatim:
  "(createQuizAttempt uuidv4 now db user body = (Inr attempt, db', started) \<longrightarrow>
      attempts db' = attempts db @ [attempt]
    \<and> status attempt = COMPLETED
    \<and> score attempt = body_score body
    \<and> total_questions attempt = body_total_questions body
    \<and> correct_answers attempt = body_correct_answers body
    \<and> time_taken attempt = body_time_taken body)
   \<and> isl (fst (createQuizAttempt uuidv4 now db user
                 (body\<lparr> body_score := s, body_total_questions := t,
                        body_correct_answers := c, body_time_taken := tt \<rparr>)))
     = isl (fst (createQuizAttempt uuidv4 now db user body))"
proof (intro conjI impI)
  assume ok: "createQuizAttempt uuidv4 now db user body = (Inr attempt, db', started)"
  then obtain new where
    a: "attempt = \<lparr> attempt_id = uuidv4 0, attempt_user_id = user,
                  attempt_quiz_id = body_quiz_id body, status = COMPLETED,
                  score = body_score body, total_questions = body_total_questions body,
                  correct_answers = body_correct_answers body,
                  time_taken = body_time_taken body, created_at = now,
                  completed_at = Some now \<rparr>"
    and d: "db' = db\<lparr>attempts := attempts db @ [attempt], answers := answers db @ new\<rparr>"
    by (rule createQuizAttempt_okE) blast
  from d show "attempts db' = attempts db @ [attempt]" by simp
  from a show "status attempt = COMPLETED" "score attempt = body_score body"
    "total_questions attempt = body_total_questions body"
    "correct_answers attempt = body_correct_answers body"
    "time_taken attempt = body_time_taken body"
    by simp_all
next
  show "isl (fst (createQuizAttempt uuidv4 now db user
                 (body\<lparr> body_score := s, body_total_questions := t,
                        body_correct_answers := c, body_time_taken := tt \<rparr>)))
     = isl (fst (createQuizAttempt uuidv4 now db user body))"
    unfolding createQuizAttempt_def withTransaction_def create_attempt_transaction_def
      create_attempt_def insertMany_def
    by (simp add: Let_def prepare_answers_attempts_update
          split: option.splits sum.splits prod.splits)
qed

theorem bulk_fields_stored_verbatim_witness:
  "createQuizAttempt example_uuidv4 9 algebra_db ''u2''
     (bulk_body [pick ''q1'' [''A''], pick ''q2'' [''X''], pick ''q3'' [''C'']])
   = (Inr bulk_attempt,
      algebra_db\<lparr>attempts := [started_attempt, bulk_attempt],
                 answers := [bulk_recorded ''idx'' ''q1'' [''A''] True,
                             bulk_recorded ''idxx'' ''q2'' [''X''] False,
                             bulk_recorded ''idxxx'' ''q3'' [''C''] True]\<rparr>,
      [''u2''])
   \<and> score bulk_attempt = Some 250 \<and> total_questions bulk_attempt = Some 7
   \<and> correct_answers bulk_attempt = Some (- 1) \<and> time_taken bulk_attempt = Some 42"
proof -
  let ?body = "bulk_body [pick ''q1'' [''A''], pick ''q2'' [''X''], pick ''q3'' [''C'']]"
  have run: "createQuizAttempt example_uuidv4 9 algebra_db ''u2'' ?body
   = (Inr bulk_attempt,
      algebra_db\<lparr>attempts := [started_attempt, bulk_attempt],
                 answers := [bulk_recorded ''idx'' ''q1'' [''A''] True,
                             bulk_recorded ''idxx'' ''q2'' [''X''] False,
                             bulk_recorded ''idxxx'' ''q3'' [''C''] True]\<rparr>,
      [''u2''])"
    by code_simp
  from bulk_fields_stored_verbatim[THEN conjunct1, rule_format, OF run]
  have "score bulk_attempt = body_score ?body"
    "total_questions bulk_attempt = body_total_questions ?body"
    "correct_answers bulk_attempt = body_correct_answers ?body"
    "time_taken bulk_attempt = body_time_taken ?body"
    by simp_all
  with run show ?thesis by (simp add: bulk_body_def)
qed

section \<open>Rounding to a double\<close>

lemma quotient_of_abs_pos:
  assumes "x \<noteq> 0" and "quotient_of \<bar>x\<bar> = (p, q)"
  shows "0 < p" "0 < q" "\<bar>x\<bar> = of_int p / of_int q"
proof -
  from assms(2) show q: "0 < q" by (rule quotient_of_denom_pos)
  from assms(2) show eq: "\<bar>x\<bar> = of_int p / of_int q" by (rule quotient_of_div)
  from assms(1) have "0 < \<bar>x\<bar>" by simp
  with eq q show "0 < p" by (simp add: zero_less_divide_iff)
qed

lemma bitlen_powi:
  assumes "0 < p"
  shows "(2::rat) powi (bitlen p - 1) \<le> of_int p" and "(of_int p :: rat) < 2 powi bitlen p"
proof -
  from bitlen_bounds[OF assms] have p1: "2 ^ nat (bitlen p - 1) \<le> p" and p2: "p < 2 ^ nat (bitlen p)"
    by simp_all
  have bp: "1 \<le> bitlen p" using assms by (simp add: bitlen_alt_def)
  from p1 have "(of_int (2 ^ nat (bitlen p - 1)) :: rat) \<le> of_int p" by (simp only: of_int_le_iff)
  with bp show "(2::rat) powi (bitlen p - 1) \<le> of_int p" by (simp add: power_int_def)
  from p2 have "(of_int p :: rat) < of_int (2 ^ nat (bitlen p))" by (simp only: of_int_less_iff)
  with bp show "(of_int p :: rat) < 2 powi bitlen p" by (simp add: power_int_def)
qed

text \<open>The exponent computed by \<open>binade\<close> is the one of the binade that holds the number.\<close>

lemma binade_bounds:
  assumes "x \<noteq> 0"
  shows "2 powi binade x \<le> \<bar>x\<bar>" and "\<bar>x\<bar> < 2 powi (binade x + 1)"
proof -
  obtain p q where pq: "quotient_of \<bar>x\<bar> = (p, q)" by (cases "quotient_of \<bar>x\<bar>")
  note pos = quotient_of_abs_pos[OF assms pq]
  define k where "k = bitlen p - bitlen q"
  note P = bitlen_powi[OF pos(1)] and Q = bitlen_powi[OF pos(2)]
  have qpos: "(0::rat) < of_int q" using pos(2) by simp
  have lower: "(2::rat) powi (k - 1) < \<bar>x\<bar>"
  proof -
    have "(2::rat) powi (k - 1) * of_int q < 2 powi (k - 1) * 2 powi bitlen q"
      using Q(2) by (intro mult_strict_left_mono) simp_all
    also have "\<dots> = 2 powi (bitlen p - 1)"
      by (simp add: k_def flip: power_int_add)
    also have "\<dots> \<le> of_int p" by (rule P(1))
    finally show ?thesis using qpos by (simp add: pos(3) pos_less_divide_eq)
  qed
  have upper: "\<bar>x\<bar> < 2 powi (k + 1)"
  proof -
    have "(of_int p :: rat) < 2 powi bitlen p" by (rule P(2))
    also have "\<dots> = 2 powi (k + 1) * 2 powi (bitlen q - 1)"
      by (simp add: k_def flip: power_int_add)
    also have "\<dots> \<le> 2 powi (k + 1) * of_int q"
      using Q(1) by (intro mult_left_mono) simp_all
    finally show ?thesis using qpos by (simp add: pos(3) pos_divide_less_eq)
  qed
  have b: "binade x = (if 2 powi k \<le> \<bar>x\<bar> then k else k - 1)"
    by (simp add: binade_def binade_from_def pq k_def)
  show "2 powi binade x \<le> \<bar>x\<bar>"
    using lower by (simp add: b)
  show "\<bar>x\<bar> < 2 powi (binade x + 1)"
    using upper by (auto simp: b)
qed

lemma round_half_even_of_int: "round_half_even (of_int m) = m"
  by (simp add: round_half_even_def round_from_def)

text \<open>A number with a significand of 53 bits and an exponent in range is its own rounding.\<close>

lemma binary64_representable:
  assumes "\<bar>m\<bar> < 2 ^ 53" and "- 1074 \<le> j"
  shows "binary64 (of_int m * 2 powi j) = of_int m * 2 powi j"
proof (cases "m = 0")
  case True
  then show ?thesis by (simp add: binary64_def)
next
  case False
  let ?x = "of_int m * 2 powi j :: rat"
  have nz: "?x \<noteq> 0" using False by simp
  define e where "e = max (binade ?x - 52) (- 1074)"
  have "2 powi binade ?x \<le> \<bar>?x\<bar>" by (rule binade_bounds(1)[OF nz])
  also have "\<bar>?x\<bar> = of_int \<bar>m\<bar> * 2 powi j" by (simp add: abs_mult)
  also have "\<dots> < 2 ^ 53 * 2 powi j"
  proof -
    from assms(1) have "(of_int \<bar>m\<bar> :: rat) < of_int (2 ^ 53)" by (simp only: of_int_less_iff)
    then show ?thesis by (intro mult_strict_right_mono) simp_all
  qed
  also have "\<dots> = 2 powi (53 + j)" by (simp add: power_int_add)
  finally have lt: "(2::rat) powi binade ?x < 2 powi (53 + j)" .
  have "binade ?x < 53 + j"
  proof (rule ccontr)
    assume "\<not> binade ?x < 53 + j"
    then have "53 + j \<le> binade ?x" by simp
    then have "(2::rat) powi (53 + j) \<le> 2 powi binade ?x"
      by (rule power_int_increasing) simp
    with lt show False by simp
  qed
  with assms(2) have le: "e \<le> j" by (simp add: e_def)
  have "?x / 2 powi e = of_int m * 2 powi (j - e)"
    by (simp add: power_int_diff)
  also have "\<dots> = of_int (m * 2 ^ nat (j - e))"
    using le by (simp add: power_int_def)
  finally have "round_half_even (?x / 2 powi e) = m * 2 ^ nat (j - e)"
    by (simp only: round_half_even_of_int)
  then have "of_int (round_half_even (?x / 2 powi e)) * 2 powi e
               = (of_int (m * 2 ^ nat (j - e)) :: rat) * 2 powi e"
    by (simp only:)
  also have "\<dots> = of_int m * (2 powi (j - e) * 2 powi e)"
    using le by (simp add: power_int_def)
  also have "\<dots> = ?x" by (simp flip: power_int_add)
  finally show ?thesis using nz by (simp add: binary64_def scaled_def e_def)
qed

lemma binary64_half:
  assumes "\<bar>m\<bar> < 2 ^ 53"
  shows "binary64 (of_int m / 2) = of_int m / 2"
  using binary64_representable[OF assms, of "- 1"] by (simp add: power_int_minus field_simps)

text \<open>Adding halves is exact as long as the sum stays below \<open>2^52\<close>.\<close>

lemma Number_plus_half:
  assumes "0 \<le> k" "0 \<le> j" "k + j < 2 ^ 53"
  shows "Number_plus (of_int k / 2) (of_int j / 2) = of_int (k + j) / 2"
proof -
  have "(of_int k / 2 + of_int j / 2 :: rat) = of_int (k + j) / 2" by (simp add: add_divide_distrib)
  moreover from assms have "\<bar>k + j\<bar> < 2 ^ 53" by simp
  ultimately show ?thesis by (simp only: Number_plus_def binary64_half)
qed

section \<open>Answer by answer\<close>

lemma completion_update_fields [simp]:
  "attempt_id (completion_update now c n a) = attempt_id a"
  "attempt_user_id (completion_update now c n a) = attempt_user_id a"
  "attempt_quiz_id (completion_update now c n a) = attempt_quiz_id a"
  "status (completion_update now c n a) = COMPLETED"
  "total_questions (completion_update now c n a) = Some (of_nat n)"
  "correct_answers (completion_update now c n a) = Some (of_nat c)"
  "completed_at (completion_update now c n a) = Some now"
  by (simp_all add: completion_update_def)

lemma findOne_update_attempt:
  "findOne (\<lambda>a. attempt_id a = aid) (attempts (update_attempt aid (completion_update now c n) db))
     = map_option (completion_update now c n) (findOne (\<lambda>a. attempt_id a = aid) (attempts db))"
  by (simp add: update_attempt_def findOne_updateOne_same)

text \<open>The store that the last answer leaves: the branch of \<open>completion_check\<close> taken.\<close>

lemma completion_check_cases:
  assumes "(db', started) = completion_check now aid user attempt db1"
  shows "(db' = db1 \<and> started = []
          \<and> countDocuments (\<lambda>a. answer_attempt_id a = aid) (answers db1)
              \<noteq> countDocuments (\<lambda>q. question_quiz_id q = attempt_quiz_id attempt) (questions db1))
       \<or> (db' = update_attempt aid (completion_update now
                   (countDocuments (\<lambda>a. answer_attempt_id a = aid \<and> is_correct a) (answers db1))
                   (countDocuments (\<lambda>q. question_quiz_id q = attempt_quiz_id attempt) (questions db1)))
                 db1
          \<and> started = [user]
          \<and> countDocuments (\<lambda>a. answer_attempt_id a = aid) (answers db1)
              = countDocuments (\<lambda>q. question_quiz_id q = attempt_quiz_id attempt) (questions db1))"
  using assms by (auto simp: completion_check_def Let_def split: if_splits)

lemma update_attempt_other_fields [simp]:
  "answers (update_attempt aid f db) = answers db"
  "questions (update_attempt aid f db) = questions db"
  by (simp_all add: update_attempt_def)

lemma length_filter_conj_le: "length (filter (\<lambda>x. P x \<and> Q x) xs) \<le> length (filter P xs)"
  by (induction xs) auto

text \<open>What \<open>submitQuizAnswer\<close> has stored in an attempt that it leaves COMPLETED.\<close>

lemma last_answer_counts:
  assumes "submitQuizAnswer uuid now db attemptId user body = (Inr r, db', started)"
    and "findOne (\<lambda>a. attempt_id a = attemptId) (attempts db') = Some attempt'"
    and "status attempt' = COMPLETED"
  shows "\<exists>c n.
           c = countDocuments (\<lambda>a. answer_attempt_id a = attemptId \<and> is_correct a) (answers db')
         \<and> n = countDocuments (\<lambda>q. question_quiz_id q = attempt_quiz_id attempt') (questions db')
         \<and> n = countDocuments (\<lambda>a. answer_attempt_id a = attemptId) (answers db')
         \<and> 0 < n \<and> c \<le> n
         \<and> correct_answers attempt' = Some (of_nat c)
         \<and> total_questions attempt' = Some (of_nat n)
         \<and> completed_at attempt' = Some now
         \<and> started = [user]"
proof -
  from submitQuizAnswer_okD[OF assms(1)] obtain attempt question where
    a: "findOne (\<lambda>a. attempt_id a = attemptId) (attempts db) = Some attempt"
    and st: "status attempt = IN_PROGRESS"
    and q: "findOne (\<lambda>q. question_id q = body_question_id body) (questions db) = Some question"
    and qq: "question_quiz_id question = attempt_quiz_id attempt"
    and d: "(db', started) = completion_check now attemptId user attempt
              (db\<lparr>answers := answers db @ [new_answer uuid now attemptId body question]\<rparr>)"
    by blast
  let ?db1 = "db\<lparr>answers := answers db @ [new_answer uuid now attemptId body question]\<rparr>"
  let ?c = "countDocuments (\<lambda>a. answer_attempt_id a = attemptId \<and> is_correct a) (answers ?db1)"
  let ?n = "countDocuments (\<lambda>q. question_quiz_id q = attempt_quiz_id attempt) (questions ?db1)"
  let ?k = "countDocuments (\<lambda>a. answer_attempt_id a = attemptId) (answers ?db1)"
  from completion_check_cases[OF d] have
    upd: "db' = update_attempt attemptId (completion_update now ?c ?n) ?db1
          \<and> started = [user] \<and> ?k = ?n"
  proof
    assume "db' = ?db1 \<and> started = []
          \<and> countDocuments (\<lambda>a. answer_attempt_id a = attemptId) (answers ?db1)
              \<noteq> countDocuments (\<lambda>q. question_quiz_id q = attempt_quiz_id attempt) (questions ?db1)"
    then have "attempts db' = attempts db" by simp
    with a assms(2) have "attempt' = attempt" by simp
    with st assms(3) show ?thesis by simp
  qed simp
  have "findOne (\<lambda>a. attempt_id a = attemptId) (attempts ?db1) = Some attempt"
    using a by simp
  with upd assms(2) have att: "attempt' = completion_update now ?c ?n attempt"
    by (simp add: findOne_update_attempt)
  from q qq have "question \<in> set (filter (\<lambda>q. question_quiz_id q = attempt_quiz_id attempt) (questions db))"
    by (auto dest: findOne_SomeD)
  then have pos: "0 < ?n"
    by (auto simp: countDocuments_def filter_empty_conv)
  have "?c \<le> ?k"
    unfolding countDocuments_def by (rule length_filter_conj_le)
  with upd have le: "?c \<le> ?n" by simp
  from upd have "answers db' = answers ?db1" "questions db' = questions ?db1" by simp_all
  with att pos le upd show ?thesis by simp
qed

text \<open>
  Claim C1, as amended. An attempt that \<open>submitQuizAnswer\<close> leaves COMPLETED carries as
  correct_answers the number of correct answers recorded for it and as total_questions
  the number of questions of the quiz, which is the number of its answers; an attempt
  that \<open>createQuizAttempt\<close> stores is COMPLETED and carries the score, total_questions and
  correct_answers of the request, whatever they are.
\<close>

theorem last_answer_score:
  "(submitQuizAnswer uuid now db attemptId user body = (Inr r, db', started)
      \<and> findOne (\<lambda>a. attempt_id a = attemptId) (attempts db') = Some attempt'
      \<and> status attempt' = COMPLETED \<longrightarrow>
      (\<exists>c n.
           c = countDocuments (\<lambda>a. answer_attempt_id a = attemptId \<and> is_correct a) (answers db')
         \<and> n = countDocuments (\<lambda>q. question_quiz_id q = attempt_quiz_id attempt') (questions db')
         \<and> n = countDocuments (\<lambda>a. answer_attempt_id a = attemptId) (answers db')
         \<and> 0 < n \<and> c \<le> n
         \<and> correct_answers attempt' = Some (of_nat c)
         \<and> total_questions attempt' = Some (of_nat n)
         \<and> completed_at attempt' = Some now
         \<and> started = [user]))
   \<and> (createQuizAttempt uuidv4 later db other_user bulk = (Inr attempt, db'', started') \<longrightarrow>
        attempts db'' = attempts db @ [attempt]
      \<and> status attempt = COMPLETED
      \<and> score attempt = body_score bulk
      \<and> total_questions attempt = body_total_questions bulk
      \<and> correct_answers attempt = body_correct_answers bulk)"
proof (intro conjI impI)
  assume "submitQuizAnswer uuid now db attemptId user body = (Inr r, db', started)
      \<and> findOne (\<lambda>a. attempt_id a = attemptId) (attempts db') = Some attempt'
      \<and> status attempt' = COMPLETED"
  then show "\<exists>c n.
           c = countDocuments (\<lambda>a. answer_attempt_id a = attemptId \<and> is_correct a) (answers db')
         \<and> n = countDocuments (\<lambda>q. question_quiz_id q = attempt_quiz_id attempt') (questions db')
         \<and> n = countDocuments (\<lambda>a. answer_attempt_id a = attemptId) (answers db')
         \<and> 0 < n \<and> c \<le> n
         \<and> correct_answers attempt' = Some (of_nat c)
         \<and> total_questions attempt' = Some (of_nat n)
         \<and> completed_at attempt' = Some now
         \<and> started = [user]"
    using last_answer_counts[of uuid now db attemptId user body r db' started attempt'] by blast
next
  assume ok: "createQuizAttempt uuidv4 later db other_user bulk = (Inr attempt, db'', started')"
  then obtain new where
    a: "attempt = \<lparr> attempt_id = uuidv4 0, attempt_user_id = other_user,
                  attempt_quiz_id = body_quiz_id bulk, status = COMPLETED,
                  score = body_score bulk, total_questions = body_total_questions bulk,
                  correct_answers = body_correct_answers bulk,
                  time_taken = body_time_taken bulk, created_at = later,
                  completed_at = Some later \<rparr>"
    and d: "db'' = db\<lparr>attempts := attempts db @ [attempt], answers := answers db @ new\<rparr>"
    by (rule createQuizAttempt_okE) blast
  from d show "attempts db'' = attempts db @ [attempt]" by simp
  from a show "status attempt = COMPLETED" "score attempt = body_score bulk"
    "total_questions attempt = body_total_questions bulk"
    "correct_answers attempt = body_correct_answers bulk"
    by simp_all
qed

theorem last_answer_score_witness:
  "submitQuizAnswer ''a3'' 3 two_answered_db attempt_one ''u1'' (pick ''q3'' [''C''])
     = (Inr (response_of (recorded ''a3'' 3 ''q3'' [''C''] True)), all_answered_db, [''u1''])
   \<and> findOne (\<lambda>a. attempt_id a = attempt_one) (attempts all_answered_db) = Some completed_attempt
   \<and> status completed_attempt = COMPLETED
   \<and> countDocuments (\<lambda>a. answer_attempt_id a = attempt_one \<and> is_correct a)
         (answers all_answered_db) = 2
   \<and> countDocuments (\<lambda>q. question_quiz_id q = attempt_quiz_id completed_attempt)
         (questions all_answered_db) = 3
   \<and> correct_answers completed_attempt = Some 2
   \<and> total_questions completed_attempt = Some 3
   \<and> createQuizAttempt example_uuidv4 9 algebra_db ''u2''
        (bulk_body [pick ''q1'' [''A''], pick ''q2'' [''X''], pick ''q3'' [''C'']])
     = (Inr bulk_attempt,
        algebra_db\<lparr>attempts := [started_attempt, bulk_attempt],
                   answers := [bulk_recorded ''idx'' ''q1'' [''A''] True,
                               bulk_recorded ''idxx'' ''q2'' [''X''] False,
                               bulk_recorded ''idxxx'' ''q3'' [''C''] True]\<rparr>,
        [''u2''])
   \<and> score bulk_attempt = Some 250
   \<and> total_questions bulk_attempt = Some 7
   \<and> correct_answers bulk_attempt = Some (- 1)"
proof -
  let ?bulk = "bulk_body [pick ''q1'' [''A''], pick ''q2'' [''X''], pick ''q3'' [''C'']]"
  have run: "submitQuizAnswer ''a3'' 3 two_answered_db attempt_one ''u1'' (pick ''q3'' [''C''])
     = (Inr (response_of (recorded ''a3'' 3 ''q3'' [''C''] True)), all_answered_db, [''u1''])"
    by code_simp
  have found: "findOne (\<lambda>a. attempt_id a = attempt_one) (attempts all_answered_db)
                 = Some completed_attempt"
    by (simp add: all_answered_db_def findOne_def completed_attempt_def started_attempt_def)
  have completed: "status completed_attempt = COMPLETED"
    by (simp add: completed_attempt_def)
  have c: "countDocuments (\<lambda>a. answer_attempt_id a = attempt_one \<and> is_correct a)
         (answers all_answered_db) = 2"
    by code_simp
  have n: "countDocuments (\<lambda>q. question_quiz_id q = attempt_quiz_id completed_attempt)
         (questions all_answered_db) = 3"
    by code_simp
  have bulk: "createQuizAttempt example_uuidv4 9 algebra_db ''u2'' ?bulk
     = (Inr bulk_attempt,
        algebra_db\<lparr>attempts := [started_attempt, bulk_attempt],
                   answers := [bulk_recorded ''idx'' ''q1'' [''A''] True,
                               bulk_recorded ''idxx'' ''q2'' [''X''] False,
                               bulk_recorded ''idxxx'' ''q3'' [''C''] True]\<rparr>,
        [''u2''])"
    by code_simp
  from last_answer_score[THEN conjunct1, rule_format, OF conjI[OF run conjI[OF found completed]]]
    c n
  have counts: "correct_answers completed_attempt = Some 2"
    "total_questions completed_attempt = Some 3"
    by auto
  from last_answer_score[THEN conjunct2, rule_format, OF bulk]
  have sent: "score bulk_attempt = body_score ?bulk"
    "total_questions bulk_attempt = body_total_questions ?bulk"
    "correct_answers bulk_attempt = body_correct_answers ?bulk"
    by simp_all
  from run found completed c n counts bulk sent show ?thesis
    by (simp add: bulk_body_def)
qed

text \<open>
  Claim C1 fails as stated. In the specification's own scenario (answers A, X and C to
  questions whose correct answers are A, B and C) \<open>submitQuizAnswer\<close> stores as score the
  double \<open>66.66666666666667\<close>, not 67; and \<open>createQuizAttempt\<close> stores the score of the
  request, here 250 beside -1 correct answers of 7.
\<close>

theorem score_formula_counterexample:
  "fst (snd (submitQuizAnswer ''a1'' 1 algebra_db attempt_one ''u1'' (pick ''q1'' [''A''])))
     = algebra_db\<lparr>answers := [recorded ''a1'' 1 ''q1'' [''A''] True]\<rparr>
   \<and> fst (snd (submitQuizAnswer ''a2'' 2 (algebra_db\<lparr>answers := [recorded ''a1'' 1 ''q1'' [''A''] True]\<rparr>)
                 attempt_one ''u1'' (pick ''q2'' [''X''])))
     = two_answered_db
   \<and> fst (snd (submitQuizAnswer ''a3'' 3 two_answered_db attempt_one ''u1'' (pick ''q3'' [''C''])))
     = all_answered_db
   \<and> attempts all_answered_db = [completed_attempt]
   \<and> status completed_attempt = COMPLETED
   \<and> correct_answers completed_attempt = Some 2
   \<and> total_questions completed_attempt = Some 3
   \<and> score completed_attempt = Some (2345624805922133 / 35184372088832)
   \<and> Math_round (2 / 3 * 100) = 67
   \<and> score completed_attempt \<noteq> Some (Math_round (2 / 3 * 100))
   \<and> fst (createQuizAttempt example_uuidv4 9 algebra_db ''u2''
            (bulk_body [pick ''q1'' [''A''], pick ''q2'' [''X''], pick ''q3'' [''C'']]))
     = Inr bulk_attempt
   \<and> status bulk_attempt = COMPLETED
   \<and> correct_answers bulk_attempt = Some (- 1)
   \<and> total_questions bulk_attempt = Some 7
   \<and> score bulk_attempt = Some 250
   \<and> score bulk_attempt \<noteq> Some (Math_round (- 1 / 7 * 100))"
  by code_simp

section \<open>A second answer to the same question\<close>

lemma new_answer_fields [simp]:
  "answer_attempt_id (new_answer uuid now aid body question) = aid"
  "answer_question_id (new_answer uuid now aid body question) = body_question_id body"
  "selected_answer (new_answer uuid now aid body question) = body_selected_answer body"
  by (simp_all add: new_answer_def)






section \<open>Submissions one after another, and interleaved\<close>

lemma run_alone_submitQuizAnswer:
  "run_alone r db =
     (case submitQuizAnswer (request_uuid r) (request_now r) db (request_attemptId r)
             (request_user r) (request_body r) of
        (response, db', started) \<Rightarrow> ([Responded response], db', started))"
  unfolding run_alone_def submitQuizAnswer_def
  by (simp add: numeral_eq_Suc Let_def response_of_def
        split: option.splits sum.splits)

lemma submit_error_unchanged:
  assumes "submitQuizAnswer uuid now db attemptId user body = (Inl e, db', started)"
  shows "db' = db \<and> started = []"
  using assms unfolding submitQuizAnswer_def
  by (auto simp: Let_def split: if_splits option.splits sum.splits)





section \<open>The statistics of a topic\<close>

lemma lookup_or_update:
  "lookup_or d (AList.update k v obj) k' = (if k' = k then v else lookup_or d obj k')"
  by (simp add: lookup_or_def update_conv')

lemma keys_update: "fst ` set (AList.update k v obj) = insert k (fst ` set obj)"
  by (simp add: dom_update)

lemma process_answer_skipped:
  assumes "answer_quiz qm zm a = None"
  shows "process_answer qm zm atts now a acc = Inr acc"
  using assms by (simp add: process_answer_def)

lemma process_answer_graded:
  assumes "answer_quiz qm zm a = Some quiz"
    and "process_answer qm zm atts now a acc = Inr acc'"
  shows "topicStats acc' =
           AList.update (quiz_topic quiz)
             \<lparr> stat_correct = stat_correct (lookup_or zero_stat (topicStats acc) (quiz_topic quiz))
                                + (if is_correct a then 1 else 0),
               stat_total = stat_total (lookup_or zero_stat (topicStats acc) (quiz_topic quiz)) + 1,
               weightedCorrect =
                 (if is_correct a
                  then Number_plus (weightedCorrect (lookup_or zero_stat (topicStats acc) (quiz_topic quiz)))
                         (answer_weight qm zm a)
                  else weightedCorrect (lookup_or zero_stat (topicStats acc) (quiz_topic quiz))),
               weightedTotal =
                 Number_plus (weightedTotal (lookup_or zero_stat (topicStats acc) (quiz_topic quiz)))
                   (answer_weight qm zm a) \<rparr>
             (topicStats acc)"
  using assms
  by (cases "quiz_difficulty quiz")
     (auto simp: process_answer_def Let_def zero_stat_def answer_weight_def difficultyWeight_def
           split: if_splits)

lemma topic_answers_Cons:
  "topic_answers qm zm t (a # as) =
     (case answer_quiz qm zm a of
        None \<Rightarrow> topic_answers qm zm t as
      | Some quiz \<Rightarrow> if quiz_topic quiz = t then a # topic_answers qm zm t as
                     else topic_answers qm zm t as)"
  by (simp add: topic_answers_def split: option.splits)

text \<open>
  After the loop over the answers, the counters of a topic are those before it plus the
  numbers of the topic's graded answers, all and correct.
\<close>

lemma process_answers_stats:
  assumes "process_answers qm zm atts now as acc = Inr acc'"
  shows "stat_total (lookup_or zero_stat (topicStats acc') t)
           = stat_total (lookup_or zero_stat (topicStats acc) t) + length (topic_answers qm zm t as)"
    and "stat_correct (lookup_or zero_stat (topicStats acc') t)
           = stat_correct (lookup_or zero_stat (topicStats acc) t)
             + length (filter is_correct (topic_answers qm zm t as))"
  using assms
proof (induction as arbitrary: acc)
  case Nil
  {
    case 1 then show ?case by (simp add: topic_answers_def)
  next
    case 2 then show ?case by (simp add: topic_answers_def)
  }
next
  case (Cons a as)
  {
    case 1
    show ?case
    proof (cases "answer_quiz qm zm a")
      case None
      with 1 have "process_answers qm zm atts now as acc = Inr acc'"
        by (simp add: process_answer_skipped)
      from Cons.IH(1)[OF this] None show ?thesis by (simp add: topic_answers_Cons)
    next
      case (Some quiz)
      from 1 obtain acc1 where
        step: "process_answer qm zm atts now a acc = Inr acc1"
        and rest: "process_answers qm zm atts now as acc1 = Inr acc'"
        by (auto split: sum.splits)
      note stats1 = process_answer_graded[OF Some step]
      from Cons.IH(1)[OF rest] stats1 Some show ?thesis
        by (simp add: topic_answers_Cons lookup_or_update)
    qed
  next
    case 2
    show ?case
    proof (cases "answer_quiz qm zm a")
      case None
      with 2 have "process_answers qm zm atts now as acc = Inr acc'"
        by (simp add: process_answer_skipped)
      from Cons.IH(2)[OF this] None show ?thesis by (simp add: topic_answers_Cons)
    next
      case (Some quiz)
      from 2 obtain acc1 where
        step: "process_answer qm zm atts now a acc = Inr acc1"
        and rest: "process_answers qm zm atts now as acc1 = Inr acc'"
        by (auto split: sum.splits)
      note stats1 = process_answer_graded[OF Some step]
      from Cons.IH(2)[OF rest] stats1 Some show ?thesis
        by (simp add: topic_answers_Cons lookup_or_update)
    qed
  }
qed

text \<open>The weight of a graded answer is two, three or four halves.\<close>

lemma answer_weight_halves:
  assumes "answer_quiz qm zm a = Some quiz"
  shows "\<exists>j. 2 \<le> j \<and> j \<le> 4 \<and> answer_weight qm zm a = of_int j / 2"
proof (cases "quiz_difficulty quiz")
  case EASY
  with assms have "answer_weight qm zm a = of_int 2 / 2" by (simp add: answer_weight_def)
  then show ?thesis by (intro exI[of _ 2]) simp
next
  case MEDIUM
  with assms have "answer_weight qm zm a = of_int 3 / 2" by (simp add: answer_weight_def)
  then show ?thesis by (intro exI[of _ 3]) simp
next
  case HARD
  with assms have "answer_weight qm zm a = of_int 4 / 2" by (simp add: answer_weight_def)
  then show ?thesis by (intro exI[of _ 4]) simp
qed

text \<open>
  The sums of the weights are exact as long as they stay below \<open>2^52\<close>: after the loop
  over the answers, the weighted total of a topic is the one before it plus the weights
  of the topic's graded answers, and the weighted number of correct answers the one
  before it plus the weights of the correct ones.
\<close>

lemma process_answers_weighted_total:
  assumes "process_answers qm zm atts now as acc = Inr acc'"
    and "0 \<le> k" and "weightedTotal (lookup_or zero_stat (topicStats acc) t) = of_int k / 2"
    and "k + 4 * int (length (topic_answers qm zm t as)) < 2 ^ 53"
  shows "weightedTotal (lookup_or zero_stat (topicStats acc') t)
           = of_int k / 2 + weighted_total qm zm (topic_answers qm zm t as)"
  using assms
proof (induction as arbitrary: acc k)
  case Nil
  then show ?case by (simp add: topic_answers_def weighted_total_def)
next
  case (Cons a as)
  show ?case
  proof (cases "answer_quiz qm zm a")
    case None
    with Cons.prems(1) have "process_answers qm zm atts now as acc = Inr acc'"
      by (simp add: process_answer_skipped)
    from Cons.IH[OF this Cons.prems(2,3)] Cons.prems(4) None show ?thesis
      by (simp add: topic_answers_Cons)
  next
    case (Some quiz)
    from Cons.prems(1) obtain acc1 where
      step: "process_answer qm zm atts now a acc = Inr acc1"
      and rest: "process_answers qm zm atts now as acc1 = Inr acc'"
      by (auto split: sum.splits)
    note stats1 = process_answer_graded[OF Some step]
    show ?thesis
    proof (cases "quiz_topic quiz = t")
      case True
      from answer_weight_halves[OF Some] obtain j where
        j: "2 \<le> j" "j \<le> 4" "answer_weight qm zm a = of_int j / 2" by blast
      from Cons.prems(4) Some True
      have bound: "k + 4 + 4 * int (length (topic_answers qm zm t as)) < 2 ^ 53"
        by (simp add: topic_answers_Cons)
      with j Cons.prems(2) have "Number_plus (of_int k / 2) (of_int j / 2) = of_int (k + j) / 2"
        by (intro Number_plus_half) simp_all
      with stats1 True j Cons.prems(3)
      have now1: "weightedTotal (lookup_or zero_stat (topicStats acc1) t) = of_int (k + j) / 2"
        by (simp add: lookup_or_update)
      from j Cons.prems(2) bound have "0 \<le> k + j"
        and "k + j + 4 * int (length (topic_answers qm zm t as)) < 2 ^ 53"
        by simp_all
      from Cons.IH[OF rest this(1) now1 this(2)] Some True j show ?thesis
        by (simp add: topic_answers_Cons weighted_total_def add_divide_distrib)
    next
      case False
      with stats1 Cons.prems(3)
      have now1: "weightedTotal (lookup_or zero_stat (topicStats acc1) t) = of_int k / 2"
        by (simp add: lookup_or_update)
      from Cons.prems(4) Some False
      have "k + 4 * int (length (topic_answers qm zm t as)) < 2 ^ 53"
        by (simp add: topic_answers_Cons)
      from Cons.IH[OF rest Cons.prems(2) now1 this] Some False show ?thesis
        by (simp add: topic_answers_Cons)
    qed
  qed
qed

lemma process_answers_weighted_correct:
  assumes "process_answers qm zm atts now as acc = Inr acc'"
    and "0 \<le> k" and "weightedCorrect (lookup_or zero_stat (topicStats acc) t) = of_int k / 2"
    and "k + 4 * int (length (topic_answers qm zm t as)) < 2 ^ 53"
  shows "weightedCorrect (lookup_or zero_stat (topicStats acc') t)
           = of_int k / 2 + weighted_correct qm zm (topic_answers qm zm t as)"
  using assms
proof (induction as arbitrary: acc k)
  case Nil
  then show ?case by (simp add: topic_answers_def weighted_correct_def)
next
  case (Cons a as)
  show ?case
  proof (cases "answer_quiz qm zm a")
    case None
    with Cons.prems(1) have "process_answers qm zm atts now as acc = Inr acc'"
      by (simp add: process_answer_skipped)
    from Cons.IH[OF this Cons.prems(2,3)] Cons.prems(4) None show ?thesis
      by (simp add: topic_answers_Cons)
  next
    case (Some quiz)
    from Cons.prems(1) obtain acc1 where
      step: "process_answer qm zm atts now a acc = Inr acc1"
      and rest: "process_answers qm zm atts now as acc1 = Inr acc'"
      by (auto split: sum.splits)
    note stats1 = process_answer_graded[OF Some step]
    show ?thesis
    proof (cases "quiz_topic quiz = t \<and> is_correct a")
      case True
      from answer_weight_halves[OF Some] obtain j where
        j: "2 \<le> j" "j \<le> 4" "answer_weight qm zm a = of_int j / 2" by blast
      from Cons.prems(4) Some True
      have bound: "k + 4 + 4 * int (length (topic_answers qm zm t as)) < 2 ^ 53"
        by (simp add: topic_answers_Cons)
      with j Cons.prems(2) have "Number_plus (of_int k / 2) (of_int j / 2) = of_int (k + j) / 2"
        by (intro Number_plus_half) simp_all
      with stats1 True j Cons.prems(3)
      have now1: "weightedCorrect (lookup_or zero_stat (topicStats acc1) t) = of_int (k + j) / 2"
        by (simp add: lookup_or_update)
      from j Cons.prems(2) bound have "0 \<le> k + j"
        and "k + j + 4 * int (length (topic_answers qm zm t as)) < 2 ^ 53"
        by simp_all
      from Cons.IH[OF rest this(1) now1 this(2)] Some True j show ?thesis
        by (simp add: topic_answers_Cons weighted_correct_def add_divide_distrib)
    next
      case False
      with stats1 Cons.prems(3)
      have now1: "weightedCorrect (lookup_or zero_stat (topicStats acc1) t) = of_int k / 2"
        by (auto simp: lookup_or_update)
      from Cons.prems(4) Some
      have "k + 4 * int (length (topic_answers qm zm t as)) < 2 ^ 53"
        by (simp add: topic_answers_Cons split: if_splits)
      from Cons.IH[OF rest Cons.prems(2) now1 this] Some False show ?thesis
        by (auto simp: topic_answers_Cons weighted_correct_def)
    qed
  qed
qed

lemma process_answers_keys:
  assumes "process_answers qm zm atts now as acc = Inr acc'"
  shows "fst ` set (topicStats acc')
           = fst ` set (topicStats acc) \<union> {t. topic_answers qm zm t as \<noteq> []}"
  using assms
proof (induction as arbitrary: acc)
  case Nil
  then show ?case by (simp add: topic_answers_def)
next
  case (Cons a as)
  show ?case
  proof (cases "answer_quiz qm zm a")
    case None
    with Cons.prems have "process_answers qm zm atts now as acc = Inr acc'"
      by (simp add: process_answer_skipped)
    from Cons.IH[OF this] None show ?thesis by (simp add: topic_answers_Cons)
  next
    case (Some quiz)
    from Cons.prems obtain acc1 where
      step: "process_answer qm zm atts now a acc = Inr acc1"
      and rest: "process_answers qm zm atts now as acc1 = Inr acc'"
      by (auto split: sum.splits)
    from process_answer_graded[OF Some step]
    have "fst ` set (topicStats acc1) = insert (quiz_topic quiz) (fst ` set (topicStats acc))"
      by (simp add: keys_update)
    with Cons.IH[OF rest] Some show ?thesis
      by (auto simp: topic_answers_Cons)
  qed
qed

lemma process_answers_distinct:
  assumes "process_answers qm zm atts now as acc = Inr acc'"
    and "distinct (map fst (topicStats acc))"
  shows "distinct (map fst (topicStats acc'))"
  using assms
proof (induction as arbitrary: acc)
  case Nil
  then show ?case by simp
next
  case (Cons a as)
  show ?case
  proof (cases "answer_quiz qm zm a")
    case None
    with Cons.prems have "process_answers qm zm atts now as acc = Inr acc'"
      by (simp add: process_answer_skipped)
    from Cons.IH[OF this Cons.prems(2)] show ?thesis .
  next
    case (Some quiz)
    from Cons.prems obtain acc1 where
      step: "process_answer qm zm atts now a acc = Inr acc1"
      and rest: "process_answers qm zm atts now as acc1 = Inr acc'"
      by (auto split: sum.splits)
    from process_answer_graded[OF Some step] Cons.prems(2)
    have "distinct (map fst (topicStats acc1))" by (simp add: distinct_update)
    from Cons.IH[OF rest this] show ?thesis .
  qed
qed

lemma more_recent_trans:
  "\<not> more_recent b a \<Longrightarrow> \<not> more_recent c b \<Longrightarrow> \<not> more_recent c a"
  by (auto simp: more_recent_def split: option.splits)

lemma more_recent_asym: "more_recent b a \<Longrightarrow> \<not> more_recent a b"
  by (auto simp: more_recent_def split: option.splits)

lemma set_insert_recent: "set (insert_recent a xs) = insert a (set xs)"
  by (induction xs) auto

lemma mset_insert_recent: "mset (insert_recent a xs) = add_mset a (mset xs)"
  by (induction xs) auto

lemma sorted_insert_recent:
  assumes "sorted_wrt (\<lambda>a b. \<not> more_recent (completed_at b) (completed_at a)) xs"
  shows "sorted_wrt (\<lambda>a b. \<not> more_recent (completed_at b) (completed_at a)) (insert_recent a xs)"
  using assms
proof (induction xs)
  case Nil
  then show ?case by simp
next
  case (Cons b bs)
  show ?case
  proof (cases "more_recent (completed_at b) (completed_at a)")
    case True
    with Cons show ?thesis
      by (auto simp: set_insert_recent dest: more_recent_asym)
  next
    case False
    with Cons.prems show ?thesis
      by (auto dest: more_recent_trans[of "completed_at b" "completed_at a"])
  qed
qed

lemma mset_sort_completed_desc: "mset (sort_completed_desc xs) = mset xs"
  unfolding sort_completed_desc_def by (induction xs) (simp_all add: mset_insert_recent)

lemma sorted_sort_completed_desc:
  "sorted_wrt (\<lambda>a b. \<not> more_recent (completed_at b) (completed_at a)) (sort_completed_desc xs)"
  unfolding sort_completed_desc_def by (induction xs) (simp_all add: sorted_insert_recent)

section \<open>The topics of a snapshot\<close>

lemma classify_fields:
  "map_of (topicProficiency (classify topic sc conf res)) t
     = (if t = topic then Some sc else map_of (topicProficiency res) t)"
  "fst ` set (topicProficiency (classify topic sc conf res))
     = insert topic (fst ` set (topicProficiency res))"
  "fst ` set (confidenceScores (classify topic sc conf res))
     = insert topic (fst ` set (confidenceScores res))"
  "set (weakTopics (classify topic sc conf res)) \<subseteq> insert topic (set (weakTopics res))"
  "set (strongTopics (classify topic sc conf res)) \<subseteq> insert topic (set (strongTopics res))"
  by (auto simp: classify_def update_conv' keys_update simp del: dom_update)

lemma analyse_topics_step:
  assumes "analyse_topics recent details ((topic, stats) # rest) res = Inr res'"
  shows "(stat_total stats < 3 \<and> analyse_topics recent details rest res = Inr res')
       \<or> (3 \<le> stat_total stats
          \<and> (\<exists>conf. analyse_topics recent details rest
                  (classify topic (Math_round (Number_times (Number_divide (weightedCorrect stats) (weightedTotal stats)) 100))
                     conf res) = Inr res'))"
  using assms by (auto simp: Let_def split: option.splits if_splits)

lemma analyse_topics_untouched:
  assumes "analyse_topics recent details stats res = Inr res'"
    and "t \<notin> fst ` set stats"
  shows "map_of (topicProficiency res') t = map_of (topicProficiency res) t"
  using assms
proof (induction stats arbitrary: res)
  case Nil
  then show ?case by simp
next
  case (Cons p rest)
  obtain topic stats where p: "p = (topic, stats)" by (cases p)
  from Cons.prems(2) p have ne: "t \<noteq> topic" and nin: "t \<notin> fst ` set rest" by auto
  from analyse_topics_step[OF Cons.prems(1)[unfolded p]] show ?case
  proof (elim disjE conjE exE)
    assume "analyse_topics recent details rest res = Inr res'"
    from Cons.IH[OF this nin] show ?thesis .
  next
    fix conf
    assume "analyse_topics recent details rest
              (classify topic (Math_round (Number_times (Number_divide (weightedCorrect stats) (weightedTotal stats)) 100))
                 conf res) = Inr res'"
    from Cons.IH[OF this nin] ne show ?thesis by (simp add: classify_fields)
  qed
qed

lemma analyse_topics_proficiency:
  assumes "analyse_topics recent details stats res = Inr res'"
    and "distinct (map fst stats)" and "(t, s) \<in> set stats" and "3 \<le> stat_total s"
  shows "map_of (topicProficiency res') t
           = Some (Math_round (Number_times (Number_divide (weightedCorrect s) (weightedTotal s)) 100))"
  using assms
proof (induction stats arbitrary: res)
  case Nil
  then show ?case by simp
next
  case (Cons p rest)
  obtain topic stats where p: "p = (topic, stats)" by (cases p)
  from Cons.prems(2) p have d: "distinct (map fst rest)" and nin: "topic \<notin> fst ` set rest"
    by auto
  show ?case
  proof (cases "(t, s) \<in> set rest")
    case True
    from analyse_topics_step[OF Cons.prems(1)[unfolded p]] show ?thesis
    proof (elim disjE conjE exE)
      assume "analyse_topics recent details rest res = Inr res'"
      from Cons.IH[OF this d True Cons.prems(4)] show ?thesis .
    next
      fix conf
      assume "analyse_topics recent details rest
                (classify topic (Math_round (Number_times (Number_divide (weightedCorrect stats) (weightedTotal stats)) 100))
                   conf res) = Inr res'"
      from Cons.IH[OF this d True Cons.prems(4)] show ?thesis .
    qed
  next
    case False
    with Cons.prems(3) p have here: "t = topic" "s = stats" by auto
    from analyse_topics_step[OF Cons.prems(1)[unfolded p]] Cons.prems(4) here
    obtain conf where
      "analyse_topics recent details rest
         (classify topic (Math_round (Number_times (Number_divide (weightedCorrect stats) (weightedTotal stats)) 100))
            conf res) = Inr res'"
      by auto
    from analyse_topics_untouched[OF this nin] here show ?thesis
      by (simp add: classify_fields)
  qed
qed

lemma qualifying_Cons:
  "qualifying ((topic, s) # rest)
     = (if 3 \<le> stat_total s then insert topic (qualifying rest) else qualifying rest)"
  by (simp add: qualifying_def)

lemma qualifying_iff: "t \<in> qualifying stats \<longleftrightarrow> (\<exists>s. (t, s) \<in> set stats \<and> 3 \<le> stat_total s)"
  by (force simp: qualifying_def)

lemma subset_step: "A' \<subseteq> B \<union> Qr \<Longrightarrow> B \<subseteq> insert t A \<Longrightarrow> A' \<subseteq> A \<union> insert t Qr"
  by blast

text \<open>Every topic that the loop adds to a field of the result has at least three answers.\<close>

lemma analyse_topics_keys:
  assumes "analyse_topics recent details stats res = Inr res'"
  shows "fst ` set (topicProficiency res') \<subseteq> fst ` set (topicProficiency res) \<union> qualifying stats"
    and "fst ` set (confidenceScores res') \<subseteq> fst ` set (confidenceScores res) \<union> qualifying stats"
    and "set (weakTopics res') \<subseteq> set (weakTopics res) \<union> qualifying stats"
    and "set (strongTopics res') \<subseteq> set (strongTopics res) \<union> qualifying stats"
  using assms
proof (induction stats arbitrary: res)
  case Nil
  {
    case 1 then show ?case by simp
  next
    case 2 then show ?case by simp
  next
    case 3 then show ?case by simp
  next
    case 4 then show ?case by simp
  }
next
  case (Cons p rest)
  obtain topic stats where p: "p = (topic, stats)" by (cases p)
  let ?score = "Math_round (Number_times (Number_divide (weightedCorrect stats) (weightedTotal stats)) 100)"
  {
    case 1
    from analyse_topics_step[OF 1[unfolded p]] show ?case
    proof (elim disjE conjE exE)
      assume small: "stat_total stats < 3"
        and run: "analyse_topics recent details rest res = Inr res'"
      from Cons.IH(1)[OF run] small show ?thesis by (simp add: p qualifying_Cons)
    next
      fix conf
      assume three: "3 \<le> stat_total stats"
        and run: "analyse_topics recent details rest (classify topic ?score conf res) = Inr res'"
      have "fst ` set (topicProficiency (classify topic ?score conf res))
              \<subseteq> insert topic (fst ` set (topicProficiency res))"
        using classify_fields(2)[of topic ?score conf res] by simp
      from subset_step[OF Cons.IH(1)[OF run] this] three
      show ?thesis by (simp add: p qualifying_Cons)
    qed
  next
    case 2
    from analyse_topics_step[OF 2[unfolded p]] show ?case
    proof (elim disjE conjE exE)
      assume small: "stat_total stats < 3"
        and run: "analyse_topics recent details rest res = Inr res'"
      from Cons.IH(2)[OF run] small show ?thesis by (simp add: p qualifying_Cons)
    next
      fix conf
      assume three: "3 \<le> stat_total stats"
        and run: "analyse_topics recent details rest (classify topic ?score conf res) = Inr res'"
      have "fst ` set (confidenceScores (classify topic ?score conf res))
              \<subseteq> insert topic (fst ` set (confidenceScores res))"
        using classify_fields(3)[of topic ?score conf res] by simp
      from subset_step[OF Cons.IH(2)[OF run] this] three
      show ?thesis by (simp add: p qualifying_Cons)
    qed
  next
    case 3
    from analyse_topics_step[OF 3[unfolded p]] show ?case
    proof (elim disjE conjE exE)
      assume small: "stat_total stats < 3"
        and run: "analyse_topics recent details rest res = Inr res'"
      from Cons.IH(3)[OF run] small show ?thesis by (simp add: p qualifying_Cons)
    next
      fix conf
      assume three: "3 \<le> stat_total stats"
        and run: "analyse_topics recent details rest (classify topic ?score conf res) = Inr res'"
      have "set (weakTopics (classify topic ?score conf res))
              \<subseteq> insert topic (set (weakTopics res))"
        using classify_fields(4)[of topic ?score conf res] by simp
      from subset_step[OF Cons.IH(3)[OF run] this] three
      show ?thesis by (simp add: p qualifying_Cons)
    qed
  next
    case 4
    from analyse_topics_step[OF 4[unfolded p]] show ?case
    proof (elim disjE conjE exE)
      assume small: "stat_total stats < 3"
        and run: "analyse_topics recent details rest res = Inr res'"
      from Cons.IH(4)[OF run] small show ?thesis by (simp add: p qualifying_Cons)
    next
      fix conf
      assume three: "3 \<le> stat_total stats"
        and run: "analyse_topics recent details rest (classify topic ?score conf res) = Inr res'"
      have "set (strongTopics (classify topic ?score conf res))
              \<subseteq> insert topic (set (strongTopics res))"
        using classify_fields(5)[of topic ?score conf res] by simp
      from subset_step[OF Cons.IH(4)[OF run] this] three
      show ?thesis by (simp add: p qualifying_Cons)
    qed
  }
qed

lemma weak_topics_object_keys:
  "fst ` set (fold (\<lambda>topic obj. case map_of proficiency topic of
                                  None \<Rightarrow> obj
                                | Some v \<Rightarrow> AList.update topic v obj) weak obj0)
     \<subseteq> fst ` set obj0 \<union> set weak"
proof (induction weak arbitrary: obj0)
  case Nil
  then show ?case by simp
next
  case (Cons w weak)
  show ?case
  proof (cases "map_of proficiency w")
    case None
    with Cons.IH[of obj0] show ?thesis by auto
  next
    case (Some v)
    with Cons.IH[of "AList.update w v obj0"] show ?thesis
      by (auto simp: keys_update simp del: dom_update)
  qed
qed

text \<open>The enumeration of an object permutes its entries.\<close>

lemma mset_Object_entries: "mset (Object_entries obj) = mset obj"
proof -
  have "mset (filter (\<lambda>(k, v). is_array_index k) obj) + mset (filter (\<lambda>(k, v). \<not> is_array_index k) obj)
          = mset obj"
    by (induction obj) auto
  then show ?thesis by (simp add: Object_entries_def)
qed

lemma set_Object_entries: "set (Object_entries obj) = set obj"
  by (metis mset_Object_entries set_mset_mset)

lemma distinct_Object_entries:
  "distinct (map fst (Object_entries obj)) \<longleftrightarrow> distinct (map fst obj)"
proof -
  have "mset (map fst (Object_entries obj)) = mset (map fst obj)"
    by (metis mset_Object_entries mset_map)
  then show ?thesis by (rule mset_eq_imp_distinct_iff)
qed

lemma qualifying_Object_entries: "qualifying (Object_entries stats) = qualifying stats"
  by (simp add: qualifying_def set_Object_entries)

text \<open>What a successful run has computed and written.\<close>

lemma generateUserInsights_okD:
  assumes "generateUserInsights now db userId = (Inr (Some m), db')"
  shows "\<exists>acc res.
      process_answers (window_questionMap db (window db userId))
        (window_quizMap db (window db userId)) (window db userId) now
        (window_answers db (window db userId)) empty_analysis = Inr acc
    \<and> analyse_topics (map (\<lambda>(topic, details). (topic, most_recent_10 details))
                         (recentAttemptsByTopic acc))
        (topicAttempts acc) (Object_entries (topicStats acc)) empty_result = Inr res
    \<and> weak_topics m = weakTopics res \<and> strong_topics m = strongTopics res
    \<and> confidence_scores m = confidenceScores res \<and> topic_performance m = topicProficiency res
    \<and> topic_proficiency m = Some (topicProficiency res)
    \<and> weak_topics_data m = Some (weak_topics_object (weakTopics res) (topicProficiency res))
    \<and> insight_user_id m = userId \<and> last_updated m = now
    \<and> db' = save_insight m db"
  using assms unfolding generateUserInsights_def window_def
  by (auto simp: Let_def new_MLInsight_def split: if_splits sum.splits option.splits
           dest: findOne_SomeD)

lemma save_insight_stored:
  "\<exists>stored. findOne (\<lambda>x. insight_user_id x = insight_user_id m) (insights (save_insight m db))
               = Some stored
     \<and> weak_topics stored = weak_topics m \<and> strong_topics stored = strong_topics m
     \<and> confidence_scores stored = confidence_scores m
     \<and> topic_performance stored = topic_performance m
     \<and> last_updated stored = last_updated m"
proof (cases "findOne (\<lambda>x. insight_user_id x = insight_user_id m) (insights db)")
  case None
  then show ?thesis
    by (simp add: save_insight_def findOne_append)
       (simp add: findOne_def schema_fields_def new_MLInsight_def)
next
  case (Some old)
  have "\<And>x. insight_user_id (schema_fields m x) = insight_user_id x"
    by (simp add: schema_fields_def)
  with Some show ?thesis
    by (simp add: save_insight_def findOne_updateOne_same) (simp add: schema_fields_def)
qed

text \<open>The statistics of a run count the graded answers of each topic.\<close>

lemma run_stats:
  assumes "process_answers (window_questionMap db (window db userId))
        (window_quizMap db (window db userId)) (window db userId) now
        (window_answers db (window db userId)) empty_analysis = Inr acc"
    and "(t, s) \<in> set (topicStats acc)"
  shows "stat_total s = length (graded_answers db userId t)"
proof -
  have "distinct (map fst (topicStats acc))"
    by (rule process_answers_distinct[OF assms(1)]) (simp add: empty_analysis_def)
  with assms(2) have "map_of (topicStats acc) t = Some s" by simp
  then have "lookup_or zero_stat (topicStats acc) t = s" by (simp add: lookup_or_def)
  with process_answers_stats(1)[OF assms(1), of t] show ?thesis
    by (simp add: empty_analysis_def lookup_or_def zero_stat_def graded_answers_def)
qed

text \<open>With fewer than \<open>2^51\<close> answers of the topic, its sums of weights are exact.\<close>

lemma run_weights:
  assumes "process_answers (window_questionMap db (window db userId))
        (window_quizMap db (window db userId)) (window db userId) now
        (window_answers db (window db userId)) empty_analysis = Inr acc"
    and "(t, s) \<in> set (topicStats acc)"
    and "4 * int (length (graded_answers db userId t)) < 2 ^ 53"
  shows "weightedCorrect s = weighted_correct (window_questionMap db (window db userId))
            (window_quizMap db (window db userId)) (graded_answers db userId t)"
    and "weightedTotal s = weighted_total (window_questionMap db (window db userId))
            (window_quizMap db (window db userId)) (graded_answers db userId t)"
proof -
  have "distinct (map fst (topicStats acc))"
    by (rule process_answers_distinct[OF assms(1)]) (simp add: empty_analysis_def)
  with assms(2) have "map_of (topicStats acc) t = Some s" by simp
  then have s: "lookup_or zero_stat (topicStats acc) t = s" by (simp add: lookup_or_def)
  have zero: "weightedCorrect (lookup_or zero_stat (topicStats empty_analysis) t) = of_int 0 / 2"
    "weightedTotal (lookup_or zero_stat (topicStats empty_analysis) t) = of_int 0 / 2"
    by (simp_all add: empty_analysis_def lookup_or_def zero_stat_def)
  from assms(3) have small: "0 + 4 * int (length (topic_answers (window_questionMap db (window db userId))
            (window_quizMap db (window db userId)) t (window_answers db (window db userId)))) < 2 ^ 53"
    by (simp add: graded_answers_def)
  from process_answers_weighted_correct[OF assms(1) _ zero(1) small] s
  show "weightedCorrect s = weighted_correct (window_questionMap db (window db userId))
            (window_quizMap db (window db userId)) (graded_answers db userId t)"
    by (simp add: graded_answers_def)
  from process_answers_weighted_total[OF assms(1) _ zero(2) small] s
  show "weightedTotal s = weighted_total (window_questionMap db (window db userId))
            (window_quizMap db (window db userId)) (graded_answers db userId t)"
    by (simp add: graded_answers_def)
qed

section \<open>The example histories\<close>

lemma history_run:
  "generateUserInsights 1000 history_db ''u3'' = (Inr (Some insight_u3), analysed_db)"
  by code_simp

lemma calculus_run:
  "fst (generateUserInsights 1000 calculus_db ''u5'') = Inr (Some calculus_insight)"
  by code_simp

lemma calculus_graded:
  "completed_by calculus_db ''u5'' = attempts calculus_db"
  "length (graded_in calculus_db (attempts calculus_db) ''Calculus'') = 11"
  "weighted_correct_in calculus_db (graded_in calculus_db (attempts calculus_db) ''Calculus'') = 23 / 2"
  "weighted_total_in calculus_db (graded_in calculus_db (attempts calculus_db) ''Calculus'') = 20"
  by code_simp+

lemma calculus_proficiency: "Math_round (Number_times (Number_divide (23 / 2) 20) 100) = 57"
  by code_simp

section \<open>The analysed attempts and their answers, read on the store\<close>

text \<open>The attempts that the run analyses are 20 most recent completed attempts of the user.\<close>

lemma not_more_recent_no_later:
  "\<not> more_recent (completed_at b) (completed_at a) \<Longrightarrow> no_later b a"
  by (auto simp: more_recent_def no_later_def split: option.splits)

lemma window_most_recent: "most_recent 20 (completed_by db userId) (window db userId)"
proof -
  let ?C = "completed_by db userId"
  let ?S = "sort_completed_desc ?C"
  have w: "window db userId = take 20 ?S"
    by (simp add: window_def completed_attempts_def completed_by_def)
  have ms: "mset ?S = mset ?C" by (rule mset_sort_completed_desc)
  then have len: "length ?S = length ?C" by (metis size_mset)
  have "mset (take 20 ?S) + mset (drop 20 ?S) = mset ?S"
    by (metis append_take_drop_id mset_append)
  with ms have split: "mset ?C = mset (take 20 ?S) + mset (drop 20 ?S)" by simp
  then have sub: "mset (take 20 ?S) \<subseteq># mset ?C" by simp
  from split have rest: "mset ?C - mset (take 20 ?S) = mset (drop 20 ?S)" by simp
  have "sorted_wrt (\<lambda>a b. \<not> more_recent (completed_at b) (completed_at a)) (take 20 ?S @ drop 20 ?S)"
    using sorted_sort_completed_desc[of ?C] by simp
  then have "\<forall>a \<in> set (take 20 ?S). \<forall>b \<in> set (drop 20 ?S).
               \<not> more_recent (completed_at b) (completed_at a)"
    by (simp only: sorted_wrt_append) blast
  then have order: "\<forall>a \<in> set (take 20 ?S). \<forall>b \<in># mset (drop 20 ?S). no_later b a"
    by (auto intro: not_more_recent_no_later)
  from sub len rest order show ?thesis
    by (simp add: most_recent_def w)
qed

lemma most_recent_subset: "most_recent n candidates chosen \<Longrightarrow> set chosen \<subseteq> set candidates"
  by (metis most_recent_def set_mset_mono set_mset_mset)

text \<open>When there are at most \<open>n\<close> candidates, all of them are chosen.\<close>

lemma most_recent_all:
  assumes "most_recent n candidates chosen" and "length candidates \<le> n"
  shows "mset chosen = mset candidates"
proof -
  from assms have sub: "mset chosen \<subseteq># mset candidates"
    and "size (mset chosen) = size (mset candidates)"
    by (simp_all add: most_recent_def)
  then show ?thesis
    by (metis mset_subset_size nat_less_le subset_mset.less_le)
qed

text \<open>A dictionary built from documents with distinct keys finds the document of a key.\<close>

lemma map_of_fold_update:
  assumes "distinct (map key docs)"
  shows "map_of (fold (\<lambda>d obj. AList.update (key d) d obj) docs obj0) k
           = (case List.find (\<lambda>d. key d = k) docs of
                Some d \<Rightarrow> Some d
              | None \<Rightarrow> map_of obj0 k)"
  using assms
proof (induction docs arbitrary: obj0)
  case Nil
  then show ?case by simp
next
  case (Cons d docs)
  show ?case
  proof (cases "key d = k")
    case True
    with Cons.prems have "\<forall>x \<in> set docs. key x \<noteq> k" by (force simp: image_iff)
    then have "List.find (\<lambda>d. key d = k) docs = None" by (simp add: find_None_iff)
    with Cons True show ?thesis by (simp add: update_conv')
  next
    case False
    with Cons show ?thesis by (auto simp: update_conv' split: option.splits)
  qed
qed

lemma map_of_object_of:
  assumes "distinct (map key docs)"
  shows "map_of (object_of key docs) k = List.find (\<lambda>d. key d = k) docs"
  using map_of_fold_update[OF assms, of "[]" k]
  by (simp add: object_of_def split: option.splits)

lemma find_filter: "List.find Q (filter P xs) = List.find (\<lambda>x. P x \<and> Q x) xs"
  by (induction xs) auto

lemma map_of_object_of_filter:
  assumes "distinct (map key docs)" and "k \<in> K"
  shows "map_of (object_of key (filter (\<lambda>d. key d \<in> K) docs)) k = List.find (\<lambda>d. key d = k) docs"
proof -
  from assms(1) have "distinct (map key (filter (\<lambda>d. key d \<in> K) docs))"
    by (rule distinct_map_filter)
  then have "map_of (object_of key (filter (\<lambda>d. key d \<in> K) docs)) k
               = List.find (\<lambda>d. key d \<in> K \<and> key d = k) docs"
    by (simp add: map_of_object_of find_filter)
  also from assms(2) have "(\<lambda>d. key d \<in> K \<and> key d = k) = (\<lambda>d. key d = k)" by auto
  finally show ?thesis .
qed

text \<open>
  In a store whose questions and quizzes have distinct identifiers and whose answers fit
  their attempts, the quiz that the run finds for an answer of an analysed attempt is the
  quiz of the answer's question, unless that quiz has no topic.
\<close>

lemma window_answer_quiz:
  assumes dq: "distinct (map question_id (questions db))"
    and dz: "distinct (map quiz_id (quizzes db))"
    and fit: "answers_fit db"
    and sub: "set chosen \<subseteq> set (attempts db)"
    and a: "a \<in> set (answers db)" "answer_attempt_id a \<in> set (map attempt_id chosen)"
  shows "answer_quiz (window_questionMap db chosen) (window_quizMap db chosen) a
           = (case quiz_of db a of
                None \<Rightarrow> None
              | Some z \<Rightarrow> if quiz_topic z = [] then None else Some z)"
proof -
  from a have "a \<in> set (window_answers db chosen)" by (simp add: window_answers_def)
  then have "answer_question_id a \<in> set (remdups (map answer_question_id (window_answers db chosen)))"
    by simp
  from map_of_object_of_filter[OF dq this]
  have qm: "map_of (window_questionMap db chosen) (answer_question_id a)
              = List.find (\<lambda>q. question_id q = answer_question_id a) (questions db)"
    by (simp add: window_questionMap_def)
  show ?thesis
  proof (cases "List.find (\<lambda>q. question_id q = answer_question_id a) (questions db)")
    case None
    with qm show ?thesis by (simp add: answer_quiz_def quiz_of_def)
  next
    case (Some q)
    then have q: "q \<in> set (questions db)" "question_id q = answer_question_id a"
      by (auto simp: find_Some_iff)
    from a(2) obtain w where w: "w \<in> set chosen" "attempt_id w = answer_attempt_id a" by auto
    with sub have "w \<in> set (attempts db)" by auto
    with fit a(1) q w(2) have "question_quiz_id q = attempt_quiz_id w"
      unfolding answers_fit_def by metis
    with w(1) have "question_quiz_id q \<in> set (remdups (map attempt_quiz_id chosen))" by auto
    from map_of_object_of_filter[OF dz this]
    have zm: "map_of (window_quizMap db chosen) (question_quiz_id q)
                = List.find (\<lambda>z. quiz_id z = question_quiz_id q) (quizzes db)"
      by (simp add: window_quizMap_def)
    from qm Some zm show ?thesis
      by (simp add: answer_quiz_def quiz_of_def split: option.splits)
  qed
qed

lemma window_graded:
  assumes "distinct (map question_id (questions db))"
    and "distinct (map quiz_id (quizzes db))"
    and "answers_fit db"
    and "set chosen \<subseteq> set (attempts db)"
    and "topic \<noteq> []"
  shows "topic_answers (window_questionMap db chosen) (window_quizMap db chosen) topic
           (window_answers db chosen) = graded_in db chosen topic"
proof -
  have "filter (\<lambda>a. answer_attempt_id a \<in> set (map attempt_id chosen)
                 \<and> (case answer_quiz (window_questionMap db chosen) (window_quizMap db chosen) a of
                       None \<Rightarrow> False | Some quiz \<Rightarrow> quiz_topic quiz = topic)) (answers db)
        = filter (\<lambda>a. answer_attempt_id a \<in> set (map attempt_id chosen)
                 \<and> (case quiz_of db a of None \<Rightarrow> False | Some z \<Rightarrow> quiz_topic z = topic))
            (answers db)"
  proof (rule filter_cong[OF refl])
    fix a assume a: "a \<in> set (answers db)"
    show "(answer_attempt_id a \<in> set (map attempt_id chosen)
            \<and> (case answer_quiz (window_questionMap db chosen) (window_quizMap db chosen) a of
                  None \<Rightarrow> False | Some quiz \<Rightarrow> quiz_topic quiz = topic))
        = (answer_attempt_id a \<in> set (map attempt_id chosen)
            \<and> (case quiz_of db a of None \<Rightarrow> False | Some z \<Rightarrow> quiz_topic z = topic))"
    proof (cases "answer_attempt_id a \<in> set (map attempt_id chosen)")
      case True
      from window_answer_quiz[OF assms(1-4) a True] assms(5) True show ?thesis
        by (auto split: option.splits)
    next
      case False
      then show ?thesis by simp
    qed
  qed
  then show ?thesis
    by (simp add: topic_answers_def window_answers_def graded_in_def conj_commute)
qed

lemma window_weight:
  assumes "distinct (map question_id (questions db))"
    and "distinct (map quiz_id (quizzes db))"
    and "answers_fit db"
    and "set chosen \<subseteq> set (attempts db)"
    and "topic \<noteq> []"
    and "a \<in> set (graded_in db chosen topic)"
  shows "answer_weight (window_questionMap db chosen) (window_quizMap db chosen) a = weight_in db a"
proof -
  from assms(6) have a: "a \<in> set (answers db)" "answer_attempt_id a \<in> set (map attempt_id chosen)"
    and t: "case quiz_of db a of None \<Rightarrow> False | Some z \<Rightarrow> quiz_topic z = topic"
    by (simp_all add: graded_in_def)
  from window_answer_quiz[OF assms(1-4) a] t assms(5) show ?thesis
    by (auto simp: answer_weight_def weight_in_def split: option.splits)
qed

lemma window_weighted:
  assumes "distinct (map question_id (questions db))"
    and "distinct (map quiz_id (quizzes db))"
    and "answers_fit db"
    and "set chosen \<subseteq> set (attempts db)"
    and "topic \<noteq> []"
  shows "weighted_total (window_questionMap db chosen) (window_quizMap db chosen)
           (graded_in db chosen topic) = weighted_total_in db (graded_in db chosen topic)"
    and "weighted_correct (window_questionMap db chosen) (window_quizMap db chosen)
           (graded_in db chosen topic) = weighted_correct_in db (graded_in db chosen topic)"
proof -
  note w = window_weight[OF assms]
  have "map (answer_weight (window_questionMap db chosen) (window_quizMap db chosen))
          (graded_in db chosen topic) = map (weight_in db) (graded_in db chosen topic)"
    by (rule map_cong[OF refl]) (rule w)
  then show "weighted_total (window_questionMap db chosen) (window_quizMap db chosen)
           (graded_in db chosen topic) = weighted_total_in db (graded_in db chosen topic)"
    unfolding weighted_total_def weighted_total_in_def by (rule arg_cong)
  have "map (answer_weight (window_questionMap db chosen) (window_quizMap db chosen))
          (filter is_correct (graded_in db chosen topic))
        = map (weight_in db) (filter is_correct (graded_in db chosen topic))"
    by (rule map_cong[OF refl]) (simp add: w)
  then show "weighted_correct (window_questionMap db chosen) (window_quizMap db chosen)
           (graded_in db chosen topic) = weighted_correct_in db (graded_in db chosen topic)"
    unfolding weighted_correct_def weighted_correct_in_def by (rule arg_cong)
qed

lemma graded_in_length: "length (graded_in db chosen topic) \<le> length (answers db)"
  by (simp add: graded_in_def)

text \<open>
  The proficiency that a run stores for a topic with at least three graded answers, in a
  store with fewer than \<open>2^50\<close> answers.
\<close>

lemma stored_proficiency:
  assumes run: "generateUserInsights now db userId = (Inr (Some m), db')"
    and dq: "distinct (map question_id (questions db))"
    and dz: "distinct (map quiz_id (quizzes db))"
    and fit: "answers_fit db"
    and small: "length (answers db) < 2 ^ 50"
    and topic: "topic \<noteq> []"
    and three: "3 \<le> length (graded_in db (window db userId) topic)"
  shows "map_of (topic_performance m) topic
           = Some (Math_round (Number_times
               (Number_divide (weighted_correct_in db (graded_in db (window db userId) topic))
                              (weighted_total_in db (graded_in db (window db userId) topic)))
               100))"
proof -
  let ?W = "window db userId"
  from generateUserInsights_okD[OF run] obtain acc res where
    loop: "process_answers (window_questionMap db ?W) (window_quizMap db ?W) ?W now
        (window_answers db ?W) empty_analysis = Inr acc"
    and topics: "analyse_topics (map (\<lambda>(topic, details). (topic, most_recent_10 details))
                         (recentAttemptsByTopic acc))
        (topicAttempts acc) (Object_entries (topicStats acc)) empty_result = Inr res"
    and perf: "topic_performance m = topicProficiency res"
    by blast
  have "set ?W \<subseteq> set (completed_by db userId)"
    by (rule most_recent_subset[OF window_most_recent])
  then have sub: "set ?W \<subseteq> set (attempts db)" by (auto simp: completed_by_def)
  have g: "graded_answers db userId topic = graded_in db ?W topic"
    unfolding graded_answers_def by (rule window_graded[OF dq dz fit sub topic])
  with three have "graded_answers db userId topic \<noteq> []" by auto
  with process_answers_keys[OF loop] have "topic \<in> fst ` set (topicStats acc)"
    by (simp add: graded_answers_def)
  then obtain s where s: "(topic, s) \<in> set (topicStats acc)" by auto
  have d: "distinct (map fst (topicStats acc))"
    by (rule process_answers_distinct[OF loop]) (simp add: empty_analysis_def)
  from run_stats[OF loop s] three g have total: "3 \<le> stat_total s" by simp
  from graded_in_length[of db ?W topic] small
  have "int (length (graded_in db ?W topic)) < 2 ^ 50" by simp
  then have "4 * int (length (graded_answers db userId topic)) < 2 ^ 53" by (simp add: g)
  from run_weights[OF loop s this] window_weighted[OF dq dz fit sub topic]
  have w: "weightedCorrect s = weighted_correct_in db (graded_in db ?W topic)"
    "weightedTotal s = weighted_total_in db (graded_in db ?W topic)"
    by (simp_all add: g)
  from d have d': "distinct (map fst (Object_entries (topicStats acc)))"
    by (simp add: distinct_Object_entries)
  from s have s': "(topic, s) \<in> set (Object_entries (topicStats acc))"
    by (simp add: set_Object_entries)
  from analyse_topics_proficiency[OF topics d' s' total] perf w show ?thesis by simp
qed

text \<open>
  Claim C5, as amended. In a store with fewer than \<open>2^50\<close> answers, whose questions and
  quizzes have distinct identifiers and whose answers fit their attempts, the snapshot
  that \<open>generateUserInsights\<close> computes and stores gives every topic with at least three
  graded answers among 20 most recent completed attempts of the user the proficiency
  \<open>Math.round((weighted_correct / weighted_total) * 100)\<close> as doubles evaluate it: the
  quotient is rounded to a double, and so is its product with 100, before
  \<open>Math.round\<close>. An answer weighs 1, 1.5 or 2 as its quiz is easy, medium or hard, and only
  correct answers count towards weighted_correct.
\<close>

theorem proficiency_is_weighted_percentage:
  assumes "generateUserInsights now db userId = (Inr (Some m), db')"
    and "distinct (map question_id (questions db))"
    and "distinct (map quiz_id (quizzes db))"
    and "answers_fit db"
    and "length (answers db) < 2 ^ 50"
  shows "\<exists>chosen.
           most_recent 20 (completed_by db userId) chosen
         \<and> (\<forall>topic. topic \<noteq> [] \<and> 3 \<le> length (graded_in db chosen topic) \<longrightarrow>
              map_of (topic_performance m) topic
                = Some (Math_round (Number_times
                    (Number_divide (weighted_correct_in db (graded_in db chosen topic))
                                   (weighted_total_in db (graded_in db chosen topic)))
                    100)))
         \<and> topic_proficiency m = Some (topic_performance m)
         \<and> (\<exists>stored. findOne (\<lambda>x. insight_user_id x = userId) (insights db') = Some stored
                \<and> topic_performance stored = topic_performance m)"
proof -
  from generateUserInsights_okD[OF assms(1)] obtain acc res where
    "process_answers (window_questionMap db (window db userId))
        (window_quizMap db (window db userId)) (window db userId) now
        (window_answers db (window db userId)) empty_analysis = Inr acc"
    and "analyse_topics (map (\<lambda>(topic, details). (topic, most_recent_10 details))
                         (recentAttemptsByTopic acc))
        (topicAttempts acc) (Object_entries (topicStats acc)) empty_result = Inr res"
    and perf: "topic_performance m = topicProficiency res"
    and prof: "topic_proficiency m = Some (topicProficiency res)"
    and user: "insight_user_id m = userId"
    and db': "db' = save_insight m db"
    by blast
  from save_insight_stored[of m db] user db'
  have stored: "\<exists>stored. findOne (\<lambda>x. insight_user_id x = userId) (insights db') = Some stored
              \<and> topic_performance stored = topic_performance m"
    by auto
  show ?thesis
  proof (intro exI[of _ "window db userId"] conjI allI impI)
    show "most_recent 20 (completed_by db userId) (window db userId)"
      by (rule window_most_recent)
  next
    fix topic
    assume "topic \<noteq> [] \<and> 3 \<le> length (graded_in db (window db userId) topic)"
    then show "map_of (topic_performance m) topic
                = Some (Math_round (Number_times
                    (Number_divide (weighted_correct_in db (graded_in db (window db userId) topic))
                                   (weighted_total_in db (graded_in db (window db userId) topic)))
                    100))"
      using stored_proficiency[OF assms] by blast
  next
    from perf prof show "topic_proficiency m = Some (topic_performance m)" by simp
  next
    from stored show "\<exists>stored. findOne (\<lambda>x. insight_user_id x = userId) (insights db') = Some stored
              \<and> topic_performance stored = topic_performance m" .
  qed
qed

theorem proficiency_is_weighted_percentage_witness:
  "fst (generateUserInsights 1000 calculus_db ''u5'') = Inr (Some calculus_insight)
   \<and> length (graded_in calculus_db (completed_by calculus_db ''u5'') ''Calculus'') = 11
   \<and> weighted_correct_in calculus_db
        (graded_in calculus_db (completed_by calculus_db ''u5'') ''Calculus'') = 23 / 2
   \<and> weighted_total_in calculus_db
        (graded_in calculus_db (completed_by calculus_db ''u5'') ''Calculus'') = 20
   \<and> map_of (topic_performance calculus_insight) ''Calculus''
       = Some (Math_round (Number_times (Number_divide (23 / 2) 20) 100))
   \<and> Math_round (Number_times (Number_divide (23 / 2) 20) 100) = 57"
proof -
  obtain db' where run: "generateUserInsights 1000 calculus_db ''u5'' = (Inr (Some calculus_insight), db')"
    using calculus_run by (cases "generateUserInsights 1000 calculus_db ''u5''") simp
  have dq: "distinct (map question_id (questions calculus_db))" by code_simp
  have dz: "distinct (map quiz_id (quizzes calculus_db))" by code_simp
  have fit: "answers_fit calculus_db" by code_simp
  have small: "length (answers calculus_db) < 2 ^ 50" by (simp add: calculus_db_def)
  from proficiency_is_weighted_percentage[OF run dq dz fit small] obtain chosen where
    recent: "most_recent 20 (completed_by calculus_db ''u5'') chosen"
    and stored: "\<forall>topic. topic \<noteq> [] \<and> 3 \<le> length (graded_in calculus_db chosen topic) \<longrightarrow>
              map_of (topic_performance calculus_insight) topic
                = Some (Math_round (Number_times
                    (Number_divide (weighted_correct_in calculus_db (graded_in calculus_db chosen topic))
                                   (weighted_total_in calculus_db (graded_in calculus_db chosen topic)))
                    100))"
    by blast
  have "length (completed_by calculus_db ''u5'') \<le> 20"
    by (simp add: calculus_graded(1)) (simp add: calculus_db_def)
  from most_recent_all[OF recent this]
  have "set chosen = set (completed_by calculus_db ''u5'')" by (metis set_mset_mset)
  then have g: "graded_in calculus_db chosen ''Calculus''
                  = graded_in calculus_db (attempts calculus_db) ''Calculus''"
    by (simp add: graded_in_def calculus_graded(1))
  from stored[rule_format, of "''Calculus''"] g calculus_graded
  have "map_of (topic_performance calculus_insight) ''Calculus''
          = Some (Math_round (Number_times (Number_divide (23 / 2) 20) 100))"
    by simp
  with calculus_run calculus_graded calculus_proficiency show ?thesis by simp
qed

text \<open>
  Claim C5 fails as stated. User \<open>u5\<close> has 11 graded answers on calculus whose weights add
  up to 20, those of the correct ones to 11.5. The percentage is 57.5, which rounds to
  58; the double nearest to 11.5/20 lies below 0.575, its product with 100 is the double
  \<open>57.49999999999999\<close>, and the stored proficiency is 57.
\<close>

theorem proficiency_rounding_counterexample:
  "fst (generateUserInsights 1000 calculus_db ''u5'') = Inr (Some calculus_insight)
   \<and> map_of (topic_performance calculus_insight) ''Calculus'' = Some 57
   \<and> completed_by calculus_db ''u5'' = attempts calculus_db
   \<and> length (attempts calculus_db) = 2
   \<and> length (graded_in calculus_db (attempts calculus_db) ''Calculus'') = 11
   \<and> weighted_correct_in calculus_db (graded_in calculus_db (attempts calculus_db) ''Calculus'')
       = 23 / 2
   \<and> weighted_total_in calculus_db (graded_in calculus_db (attempts calculus_db) ''Calculus'') = 20
   \<and> Math_round (23 / 2 / 20 * 100) = 58
   \<and> Number_times (Number_divide (23 / 2) 20) 100 = 8092405580431359 / 140737488355328
   \<and> Math_round (8092405580431359 / 140737488355328) = 57"
proof -
  have "map_of (topic_performance calculus_insight) ''Calculus'' = Some 57"
    by (simp add: calculus_insight_def)
  moreover have "length (attempts calculus_db) = 2" by (simp add: calculus_db_def)
  moreover have "Math_round (23 / 2 / 20 * 100) = 58" by code_simp
  moreover have "Number_times (Number_divide (23 / 2) 20) 100 = 8092405580431359 / 140737488355328"
    by code_simp
  moreover have "Math_round (8092405580431359 / 140737488355328) = 57" by code_simp
  ultimately show ?thesis using calculus_run calculus_graded by simp
qed

text \<open>
  Claim C7. In the snapshot that \<open>generateUserInsights\<close> computes and stores, every topic
  of the proficiency dictionary, of the confidence dictionary, of the weak topics and of
  the strong topics has at least three graded answers in the analysed attempts.
\<close>

theorem emitted_topics_have_three_answers:
  assumes "generateUserInsights now db userId = (Inr (Some m), db')"
  shows "(\<forall>t \<in> fst ` set (topic_performance m) \<union> fst ` set (confidence_scores m)
                \<union> set (weak_topics m) \<union> set (strong_topics m).
            3 \<le> length (graded_answers db userId t))
       \<and> topic_proficiency m = Some (topic_performance m)
       \<and> (\<exists>obj. weak_topics_data m = Some obj \<and> fst ` set obj \<subseteq> set (weak_topics m))
       \<and> (\<exists>stored. findOne (\<lambda>x. insight_user_id x = userId) (insights db') = Some stored
              \<and> topic_performance stored = topic_performance m
              \<and> confidence_scores stored = confidence_scores m
              \<and> weak_topics stored = weak_topics m
              \<and> strong_topics stored = strong_topics m)"
proof -
  from generateUserInsights_okD[OF assms(1)] obtain acc res where
    loop: "process_answers (window_questionMap db (window db userId))
        (window_quizMap db (window db userId)) (window db userId) now
        (window_answers db (window db userId)) empty_analysis = Inr acc"
    and topics: "analyse_topics (map (\<lambda>(topic, details). (topic, most_recent_10 details))
                         (recentAttemptsByTopic acc))
        (topicAttempts acc) (Object_entries (topicStats acc)) empty_result = Inr res"
    and fields: "weak_topics m = weakTopics res" "strong_topics m = strongTopics res"
      "confidence_scores m = confidenceScores res" "topic_performance m = topicProficiency res"
    and prof: "topic_proficiency m = Some (topicProficiency res)"
    and weak: "weak_topics_data m = Some (weak_topics_object (weakTopics res) (topicProficiency res))"
    and user: "insight_user_id m = userId"
    and db': "db' = save_insight m db"
    by blast
  have q: "3 \<le> length (graded_answers db userId t)" if "t \<in> qualifying (topicStats acc)" for t
  proof -
    from that obtain s where s: "(t, s) \<in> set (topicStats acc)" "3 \<le> stat_total s"
      by (auto simp: qualifying_iff)
    from run_stats[OF loop s(1)] s(2) show ?thesis by simp
  qed
  from analyse_topics_keys[OF topics] fields
  have "fst ` set (topic_performance m) \<subseteq> qualifying (topicStats acc)"
    "fst ` set (confidence_scores m) \<subseteq> qualifying (topicStats acc)"
    "set (weak_topics m) \<subseteq> qualifying (topicStats acc)"
    "set (strong_topics m) \<subseteq> qualifying (topicStats acc)"
    by (simp_all add: empty_result_def qualifying_Object_entries)
  with q have all: "\<forall>t \<in> fst ` set (topic_performance m) \<union> fst ` set (confidence_scores m)
                \<union> set (weak_topics m) \<union> set (strong_topics m).
            3 \<le> length (graded_answers db userId t)"
    by blast
  from weak_topics_object_keys[of "topicProficiency res" "weakTopics res" "[]"] weak fields
  have w: "\<exists>obj. weak_topics_data m = Some obj \<and> fst ` set obj \<subseteq> set (weak_topics m)"
    by (simp add: weak_topics_object_def)
  from save_insight_stored[of m db] user db'
  have "\<exists>stored. findOne (\<lambda>x. insight_user_id x = userId) (insights db') = Some stored
              \<and> topic_performance stored = topic_performance m
              \<and> confidence_scores stored = confidence_scores m
              \<and> weak_topics stored = weak_topics m
              \<and> strong_topics stored = strong_topics m"
    by auto
  with all w prof fields show ?thesis by simp
qed

theorem emitted_topics_have_three_answers_witness:
  "generateUserInsights 1000 history_db ''u3'' = (Inr (Some insight_u3), analysed_db)
   \<and> fst ` set (topic_performance insight_u3) = {''Algebra'', ''Logic'', ''Sets''}
   \<and> fst ` set (confidence_scores insight_u3) = {''Algebra'', ''Logic'', ''Sets''}
   \<and> weak_topics insight_u3 = [''Sets''] \<and> strong_topics insight_u3 = [''Logic'']
   \<and> 3 \<le> length (graded_answers history_db ''u3'' ''Algebra'')
   \<and> 3 \<le> length (graded_answers history_db ''u3'' ''Logic'')
   \<and> 3 \<le> length (graded_answers history_db ''u3'' ''Sets'')
   \<and> length (graded_answers history_db ''u3'' ''Geometry'') = 2"
proof -
  have run: "generateUserInsights 1000 history_db ''u3'' = (Inr (Some insight_u3), analysed_db)"
    by (rule history_run)
  have g: "length (graded_answers history_db ''u3'' ''Geometry'') = 2"
    by code_simp
  from emitted_topics_have_three_answers[OF run]
  have "3 \<le> length (graded_answers history_db ''u3'' ''Algebra'')"
    "3 \<le> length (graded_answers history_db ''u3'' ''Logic'')"
    "3 \<le> length (graded_answers history_db ''u3'' ''Sets'')"
    by (simp_all add: insight_u3_def)
  with run g show ?thesis by (simp add: insight_u3_def)
qed

section \<open>Where the two sorts agree\<close>

text \<open>In a sorted list the elements below a bound are a prefix.\<close>

lemma sorted_filter_less_take:
  fixes f :: "'a \<Rightarrow> int"
  assumes "sorted (map f ys)"
  shows "filter (\<lambda>x. f x < c) ys = take (length (filter (\<lambda>x. f x < c) ys)) ys"
  using assms
proof (induction ys)
  case Nil
  then show ?case by simp
next
  case (Cons y ys)
  show ?case
  proof (cases "f y < c")
    case True
    with Cons show ?thesis by simp
  next
    case False
    with Cons.prems have "\<forall>x \<in> set ys. \<not> f x < c" by auto
    then have "filter (\<lambda>x. f x < c) ys = []" by (simp add: filter_empty_conv)
    with False show ?thesis by simp
  qed
qed

lemma sorted_le_last:
  fixes g :: "'a \<Rightarrow> int"
  assumes "sorted (map g xs)" and "x \<in> set xs"
  shows "g x \<le> g (last xs)"
  using assms by (induction xs) auto

text \<open>
  When every answer after the 10 most recent ones is strictly earlier than each of them,
  the older answers of the code are, up to their order, the answers after the 10 most
  recent ones.
\<close>

lemma older_is_remainder:
  fixes details :: "attemptDetail list"
  defines "ordered \<equiv> sort_key (\<lambda>a. - detail_timestamp a) details"
  assumes strict: "\<forall>r \<in> set (take 10 ordered). \<forall>a \<in> set (drop 10 ordered).
                     detail_timestamp a < detail_timestamp r"
  shows "mset (slice_0_neg (length (most_recent_10 details)) (sort_key detail_timestamp details))
           = mset (drop 10 ordered)"
proof (cases "length details \<le> 10")
  case True
  then have "drop 10 ordered = []" by (simp add: ordered_def)
  moreover from True have "length (most_recent_10 details) = length details"
    by (simp add: most_recent_10_def)
  ultimately show ?thesis by (simp add: slice_0_neg_def)
next
  case False
  then have n: "10 < length details" by simp
  then have k: "length (most_recent_10 details) = 10" by (simp add: most_recent_10_def)
  have "length ordered = length details" by (simp add: ordered_def)
  with n have ne: "take 10 ordered \<noteq> []" by auto
  define c where "c = detail_timestamp (last (take 10 ordered))"
  have desc: "sorted (map (\<lambda>a. - detail_timestamp a) ordered)"
    by (simp add: ordered_def)
  have recent_ge: "\<forall>r \<in> set (take 10 ordered). \<not> detail_timestamp r < c"
  proof
    fix r assume r: "r \<in> set (take 10 ordered)"
    from desc have "sorted (map (\<lambda>a. - detail_timestamp a) (take 10 ordered))"
      by (simp add: sorted_wrt_take sorted_map)
    from sorted_le_last[OF this r]
    have "- detail_timestamp r \<le> - detail_timestamp (last (take 10 ordered))" .
    then show "\<not> detail_timestamp r < c" by (simp add: c_def)
  qed
  from strict ne have older_lt: "\<forall>a \<in> set (drop 10 ordered). detail_timestamp a < c"
    by (auto simp: c_def)
  have "filter (\<lambda>a. detail_timestamp a < c) ordered
          = filter (\<lambda>a. detail_timestamp a < c) (take 10 ordered @ drop 10 ordered)"
    by simp
  also have "\<dots> = drop 10 ordered"
    using recent_ge older_lt by (simp only: filter_append) (simp add: filter_empty_conv filter_id_conv)
  finally have below: "filter (\<lambda>a. detail_timestamp a < c) ordered = drop 10 ordered" .
  then have "mset (drop 10 ordered) = mset (filter (\<lambda>a. detail_timestamp a < c) details)"
    by (metis mset_filter mset_sort ordered_def)
  moreover
  let ?asc = "sort_key detail_timestamp details"
  have "length (filter (\<lambda>a. detail_timestamp a < c) ?asc)
          = length (filter (\<lambda>a. detail_timestamp a < c) ordered)"
    by (metis mset_filter mset_sort ordered_def size_mset)
  with below have len: "length (filter (\<lambda>a. detail_timestamp a < c) ?asc) = length details - 10"
    by (simp add: ordered_def)
  have "filter (\<lambda>a. detail_timestamp a < c) ?asc
          = take (length (filter (\<lambda>a. detail_timestamp a < c) ?asc)) ?asc"
    by (rule sorted_filter_less_take) simp
  with len have "take (length details - 10) ?asc = filter (\<lambda>a. detail_timestamp a < c) ?asc"
    by simp
  then have "mset (take (length details - 10) ?asc)
               = mset (filter (\<lambda>a. detail_timestamp a < c) details)"
    by (metis mset_filter mset_sort)
  ultimately show ?thesis using k by (simp add: slice_0_neg_def)
qed

lemma process_answer_graded_details:
  assumes "answer_quiz qm zm a = Some quiz"
    and "process_answer qm zm atts now a acc = Inr acc'"
  shows "\<exists>d. topicAttempts acc' = AList.update (quiz_topic quiz)
                 (lookup_or [] (topicAttempts acc) (quiz_topic quiz) @ [d]) (topicAttempts acc)
            \<and> recentAttemptsByTopic acc' = AList.update (quiz_topic quiz)
                 (lookup_or [] (recentAttemptsByTopic acc) (quiz_topic quiz) @ [d])
                 (recentAttemptsByTopic acc)"
  using assms by (auto simp: process_answer_def Let_def split: if_splits)

text \<open>
  The loop over the answers keeps the two dictionaries of details equal, on the keys of
  the statistics, and each list as long as the total of its topic.
\<close>

lemma process_answers_details:
  assumes "process_answers qm zm atts now as acc = Inr acc'"
    and "recentAttemptsByTopic acc = topicAttempts acc"
    and "map fst (topicAttempts acc) = map fst (topicStats acc)"
    and "\<forall>t. length (lookup_or [] (topicAttempts acc) t)
               = stat_total (lookup_or zero_stat (topicStats acc) t)"
  shows "recentAttemptsByTopic acc' = topicAttempts acc'
       \<and> map fst (topicAttempts acc') = map fst (topicStats acc')
       \<and> (\<forall>t. length (lookup_or [] (topicAttempts acc') t)
               = stat_total (lookup_or zero_stat (topicStats acc') t))"
  using assms
proof (induction as arbitrary: acc)
  case Nil
  then show ?case by simp
next
  case (Cons a as)
  show ?case
  proof (cases "answer_quiz qm zm a")
    case None
    with Cons.prems(1) have "process_answers qm zm atts now as acc = Inr acc'"
      by (simp add: process_answer_skipped)
    from Cons.IH[OF this Cons.prems(2,3,4)] show ?thesis .
  next
    case (Some quiz)
    from Cons.prems(1) obtain acc1 where
      step: "process_answer qm zm atts now a acc = Inr acc1"
      and rest: "process_answers qm zm atts now as acc1 = Inr acc'"
      by (auto split: sum.splits)
    note stats1 = process_answer_graded[OF Some step]
    from process_answer_graded_details[OF Some step] obtain d where
      all1: "topicAttempts acc1 = AList.update (quiz_topic quiz)
                 (lookup_or [] (topicAttempts acc) (quiz_topic quiz) @ [d]) (topicAttempts acc)"
      and recent1: "recentAttemptsByTopic acc1 = AList.update (quiz_topic quiz)
                 (lookup_or [] (recentAttemptsByTopic acc) (quiz_topic quiz) @ [d])
                 (recentAttemptsByTopic acc)"
      by blast
    from all1 recent1 Cons.prems(2) have same: "recentAttemptsByTopic acc1 = topicAttempts acc1"
      by simp
    from all1 stats1 Cons.prems(3) have keys: "map fst (topicAttempts acc1) = map fst (topicStats acc1)"
      by (simp add: update_keys)
    have count: "\<forall>t. length (lookup_or [] (topicAttempts acc1) t)
               = stat_total (lookup_or zero_stat (topicStats acc1) t)"
      using Cons.prems(4) by (simp add: all1 stats1 lookup_or_update)
    from Cons.IH[OF rest same keys count] show ?thesis .
  qed
qed

lemma classify_confidence:
  "map_of (confidenceScores (classify topic sc conf res)) t
     = (if t = topic then Some conf else map_of (confidenceScores res) t)"
  by (simp add: classify_def update_conv')

lemma analyse_topics_step_confidence:
  assumes "analyse_topics recent details ((topic, stats) # rest) res = Inr res'"
    and "3 \<le> stat_total stats" and "map_of recent topic = Some r" and "3 \<le> length r"
    and "map_of details topic = Some d"
  shows "analyse_topics recent details rest
           (classify topic (Math_round (Number_times (Number_divide (weightedCorrect stats) (weightedTotal stats)) 100))
              (confidence_blend (Math_round (Number_times (Number_divide (weightedCorrect stats) (weightedTotal stats)) 100)) r d)
              res) = Inr res'"
  using assms by (auto simp: Let_def)

lemma analyse_topics_confidence_untouched:
  assumes "analyse_topics recent details stats res = Inr res'"
    and "t \<notin> fst ` set stats"
  shows "map_of (confidenceScores res') t = map_of (confidenceScores res) t"
  using assms
proof (induction stats arbitrary: res)
  case Nil
  then show ?case by simp
next
  case (Cons p rest)
  obtain topic stats where p: "p = (topic, stats)" by (cases p)
  from Cons.prems(2) p have ne: "t \<noteq> topic" and nin: "t \<notin> fst ` set rest" by auto
  from analyse_topics_step[OF Cons.prems(1)[unfolded p]] show ?case
  proof (elim disjE conjE exE)
    assume "analyse_topics recent details rest res = Inr res'"
    from Cons.IH[OF this nin] show ?thesis .
  next
    fix conf
    assume "analyse_topics recent details rest
              (classify topic (Math_round (Number_times (Number_divide (weightedCorrect stats) (weightedTotal stats)) 100))
                 conf res) = Inr res'"
    from Cons.IH[OF this nin] ne show ?thesis by (simp add: classify_confidence)
  qed
qed

lemma analyse_topics_confidence:
  assumes "analyse_topics recent details stats res = Inr res'"
    and "distinct (map fst stats)" and "(t, s) \<in> set stats" and "3 \<le> stat_total s"
    and "map_of recent t = Some r" and "3 \<le> length r" and "map_of details t = Some d"
  shows "map_of (confidenceScores res') t
           = Some (confidence_blend (Math_round (Number_times (Number_divide (weightedCorrect s) (weightedTotal s)) 100)) r d)"
  using assms
proof (induction stats arbitrary: res)
  case Nil
  then show ?case by simp
next
  case (Cons p rest)
  obtain topic stats where p: "p = (topic, stats)" by (cases p)
  from Cons.prems(2) p have dr: "distinct (map fst rest)" and nin: "topic \<notin> fst ` set rest"
    by auto
  show ?case
  proof (cases "(t, s) \<in> set rest")
    case True
    from analyse_topics_step[OF Cons.prems(1)[unfolded p]] show ?thesis
    proof (elim disjE conjE exE)
      assume "analyse_topics recent details rest res = Inr res'"
      from Cons.IH[OF this dr True Cons.prems(4,5,6,7)] show ?thesis .
    next
      fix conf
      assume "analyse_topics recent details rest
                (classify topic (Math_round (Number_times (Number_divide (weightedCorrect stats) (weightedTotal stats)) 100))
                   conf res) = Inr res'"
      from Cons.IH[OF this dr True Cons.prems(4,5,6,7)] show ?thesis .
    qed
  next
    case False
    with Cons.prems(3) p have here: "t = topic" "s = stats" by auto
    from analyse_topics_step_confidence[OF Cons.prems(1)[unfolded p]] Cons.prems(4,5,6,7) here
    have "analyse_topics recent details rest
           (classify topic (Math_round (Number_times (Number_divide (weightedCorrect stats) (weightedTotal stats)) 100))
              (confidence_blend (Math_round (Number_times (Number_divide (weightedCorrect stats) (weightedTotal stats)) 100)) r d)
              res) = Inr res'"
      by simp
    from analyse_topics_confidence_untouched[OF this nin] here show ?thesis
      by (simp add: classify_confidence)
  qed
qed

text \<open>
  Where the answers of no attempt lie on both sides of the boundary (every answer after
  the 10 most recent ones is strictly earlier than each of them), the stored confidence
  of a topic with at least three graded answers is computed from the stored proficiency,
  the 10 most recent answers and, as the older ones, the remainder.
\<close>

lemma confidence_without_straddling:
  fixes db userId now topic
  defines "details \<equiv> topic_details db userId now topic"
  defines "ordered \<equiv> sort_key (\<lambda>a. - detail_timestamp a) details"
  assumes run: "generateUserInsights now db userId = (Inr (Some m), db')"
    and three: "3 \<le> length (graded_answers db userId topic)"
    and strict: "\<forall>r \<in> set (take 10 ordered). \<forall>a \<in> set (drop 10 ordered).
                   detail_timestamp a < detail_timestamp r"
  shows "\<exists>p. map_of (topic_performance m) topic = Some p
           \<and> map_of (confidence_scores m) topic
               = Some (confidence_blend p (take 10 ordered) details)
           \<and> mset (slice_0_neg (length (take 10 ordered)) (sort_key detail_timestamp details))
               = mset (drop 10 ordered)"
proof -
  from generateUserInsights_okD[OF run] obtain acc res where
    loop: "process_answers (window_questionMap db (window db userId))
        (window_quizMap db (window db userId)) (window db userId) now
        (window_answers db (window db userId)) empty_analysis = Inr acc"
    and topics: "analyse_topics (map (\<lambda>(topic, details). (topic, most_recent_10 details))
                         (recentAttemptsByTopic acc))
        (topicAttempts acc) (Object_entries (topicStats acc)) empty_result = Inr res"
    and conf: "confidence_scores m = confidenceScores res"
    and perf: "topic_performance m = topicProficiency res"
    by blast
  from three have "graded_answers db userId topic \<noteq> []" by auto
  with process_answers_keys[OF loop] have key: "topic \<in> fst ` set (topicStats acc)"
    by (simp add: graded_answers_def)
  then obtain s where s: "(topic, s) \<in> set (topicStats acc)" by auto
  have d: "distinct (map fst (topicStats acc))"
    by (rule process_answers_distinct[OF loop]) (simp add: empty_analysis_def)
  with s have ms: "map_of (topicStats acc) topic = Some s" by simp
  from run_stats[OF loop s] three have total: "3 \<le> stat_total s" by simp
  from process_answers_details[OF loop] have
    same: "recentAttemptsByTopic acc = topicAttempts acc"
    and keys: "map fst (topicAttempts acc) = map fst (topicStats acc)"
    and count: "\<forall>t. length (lookup_or [] (topicAttempts acc) t)
               = stat_total (lookup_or zero_stat (topicStats acc) t)"
    by (simp_all add: empty_analysis_def lookup_or_def zero_stat_def)
  from key keys have "topic \<in> fst ` set (topicAttempts acc)"
    by (metis set_map)
  then obtain found where det: "map_of (topicAttempts acc) topic = Some found"
    by (metis map_of_eq_None_iff not_None_eq)
  with count ms have len: "length found = stat_total s"
    by (metis lookup_or_def option.simps(5))
  from det loop have td: "details = found"
    by (simp add: details_def topic_details_def lookup_or_def)
  from det same
  have rec: "map_of (map (\<lambda>(topic, details). (topic, most_recent_10 details))
                       (recentAttemptsByTopic acc)) topic = Some (most_recent_10 found)"
    by (simp add: map_of_map)
  from total len have rl: "3 \<le> length (most_recent_10 found)"
    by (simp add: most_recent_10_def)
  from d have d': "distinct (map fst (Object_entries (topicStats acc)))"
    by (simp add: distinct_Object_entries)
  from s have s': "(topic, s) \<in> set (Object_entries (topicStats acc))"
    by (simp add: set_Object_entries)
  let ?p = "Math_round (Number_times (Number_divide (weightedCorrect s) (weightedTotal s)) 100)"
  from analyse_topics_proficiency[OF topics d' s' total] perf
  have p: "map_of (topic_performance m) topic = Some ?p" by simp
  have recent: "most_recent_10 found = take 10 ordered"
    by (simp add: most_recent_10_def ordered_def td)
  from analyse_topics_confidence[OF topics d' s' total rec rl det] conf
  have c: "map_of (confidence_scores m) topic = Some (confidence_blend ?p (take 10 ordered) details)"
    by (simp add: recent td)
  from older_is_remainder[of details] strict
  have "mset (slice_0_neg (length (take 10 ordered)) (sort_key detail_timestamp details))
          = mset (drop 10 ordered)"
    by (simp add: ordered_def most_recent_10_def)
  with p c show ?thesis by blast
qed

section \<open>Confidence\<close>

lemma history_details: "topic_details history_db ''u3'' 1000 ''Algebra'' = algebra_details"
  by code_simp

lemma history_proficiency: "claimed_proficiency history_db ''u3'' ''Algebra'' = 74"
  by code_simp

lemma history_admissible:
  "remdups (map (\<lambda>(recent, older). blend 74 recent older)
                (filter recent_first (divisions 10 algebra_details))) = [80, 74, 68]"
  by code_simp

text \<open>
  Claim C6 at an input where the code departs from it. User \<open>u3\<close> has 13 graded algebra
  answers: five from the attempt completed at 100 (correct, correct, wrong, wrong, wrong)
  and eight from the attempt completed at 200. The two sorts of \<open>generateUserInsights\<close>
  break the tie at time 100 differently: the 10 most recent answers take the first two
  answers of the older attempt, and the older answers are its first three, so two answers
  count on both sides and two on neither. The stored confidence is 73. Split into the 10
  most recent answers and the remainder, the claim's formula gives 80; whichever two
  answers of the older attempt count as recent, it gives 80, 74 or 68.
\<close>

theorem confidence_at_straddled_attempt:
  "generateUserInsights 1000 history_db ''u3'' = (Inr (Some insight_u3), analysed_db)
   \<and> length (graded_answers history_db ''u3'' ''Algebra'') = 13
   \<and> topic_details history_db ''u3'' 1000 ''Algebra'' = algebra_details
   \<and> most_recent_10 algebra_details
       = drop 5 algebra_details @ [detail True 100 EASY 1, detail True 100 EASY 1]
   \<and> slice_0_neg (length (most_recent_10 algebra_details))
         (sort_key detail_timestamp algebra_details)
       = [detail True 100 EASY 1, detail True 100 EASY 1, detail False 100 EASY 1]
   \<and> map_of (topic_performance insight_u3) ''Algebra'' = Some 74
   \<and> map_of (confidence_scores insight_u3) ''Algebra'' = Some 73
   \<and> confidence_blend 74 (most_recent_10 algebra_details) algebra_details = 73
   \<and> claimed_confidence history_db ''u3'' 1000 ''Algebra'' = 80
   \<and> admissible_confidences history_db ''u3'' 1000 ''Algebra'' = [80, 74, 68]"
proof -
  have run: "generateUserInsights 1000 history_db ''u3'' = (Inr (Some insight_u3), analysed_db)"
    by (rule history_run)
  have n: "length (graded_answers history_db ''u3'' ''Algebra'') = 13"
    by code_simp
  have recent: "most_recent_10 algebra_details
       = drop 5 algebra_details @ [detail True 100 EASY 1, detail True 100 EASY 1]"
    by code_simp
  have older: "slice_0_neg (length (most_recent_10 algebra_details))
         (sort_key detail_timestamp algebra_details)
       = [detail True 100 EASY 1, detail True 100 EASY 1, detail False 100 EASY 1]"
    by code_simp
  have stored: "map_of (topic_performance insight_u3) ''Algebra'' = Some 74"
    "map_of (confidence_scores insight_u3) ''Algebra'' = Some 73"
    by (simp_all add: insight_u3_def)
  have code: "confidence_blend 74 (most_recent_10 algebra_details) algebra_details = 73"
    by code_simp
  have "sort_key (\<lambda>a. - detail_timestamp a) algebra_details
          = drop 5 algebra_details @ take 5 algebra_details"
    by code_simp
  moreover have "blend 74 (take 10 (drop 5 algebra_details @ take 5 algebra_details))
                   (drop 10 (drop 5 algebra_details @ take 5 algebra_details)) = 80"
    by code_simp
  ultimately have claimed: "claimed_confidence history_db ''u3'' 1000 ''Algebra'' = 80"
    by (simp add: claimed_confidence_def history_details history_proficiency)
  have "length algebra_details = 13" by (simp add: algebra_details_def)
  then have admissible: "admissible_confidences history_db ''u3'' 1000 ''Algebra'' = [80, 74, 68]"
    by (simp add: admissible_confidences_def history_details history_proficiency
          history_admissible)
  from run n history_details recent older stored code claimed admissible show ?thesis
    by simp
qed

section \<open>Dashboard\<close>

lemma latest_insight_None:
  "latest_insight db userId = None \<longleftrightarrow> (\<forall>m \<in> set (insights db). insight_user_id m \<noteq> userId)"
proof -
  let ?found = "filter (\<lambda>m. insight_user_id m = userId) (insights db)"
  have "latest_insight db userId = None \<longleftrightarrow> sort_key (\<lambda>m. - last_updated m) ?found = []"
    by (simp add: latest_insight_def split: list.splits)
  also have "\<dots> \<longleftrightarrow> ?found = []"
    by (metis length_0_conv length_sort)
  finally show ?thesis by (auto simp: filter_empty_conv)
qed

lemma latest_insight_Some:
  assumes "latest_insight db userId = Some m"
  shows "m \<in> set (insights db) \<and> insight_user_id m = userId
       \<and> (\<forall>m' \<in> set (insights db). insight_user_id m' = userId \<longrightarrow> last_updated m' \<le> last_updated m)"
proof -
  let ?found = "filter (\<lambda>m. insight_user_id m = userId) (insights db)"
  from assms obtain rest where s: "sort_key (\<lambda>m. - last_updated m) ?found = m # rest"
    by (auto simp: latest_insight_def split: list.splits)
  then have "set (m # rest) = set ?found" by (metis set_sort)
  then have mem: "m \<in> set ?found" and all: "set ?found \<subseteq> set (m # rest)" by auto
  have "sorted (map (\<lambda>m. - last_updated m) (m # rest))"
    by (metis s sorted_sort_key)
  then have "\<forall>m' \<in> set (m # rest). last_updated m' \<le> last_updated m" by auto
  with mem all show ?thesis by auto
qed

lemma validate_scores_in_range:
  assumes "list_all (\<lambda>(topic, s). 0 \<le> s \<and> s \<le> 100) obj"
  shows "validate_scores obj = obj"
  using assms by (induction obj) (auto simp: validate_scores_def)

text \<open>
  Claim C9. A user asking for their own dashboard is answered without error. The
  performance history is made of the first 10 of the user's completed attempts, most
  recent first, so it has at most 10 entries. Without an insight document for the user,
  the lists and dictionaries of the answer are empty and the time of the last update is
  null; with one, the answer carries the weak and strong topics, the confidence scores
  and the time of the last update of the latest document, and its proficiency
  dictionary, which is unchanged when all its scores lie between 0 and 100.
\<close>

theorem own_dashboard:
  "\<exists>dashboard.
       getDashboardData db userId userId = Inr dashboard
     \<and> data_performance_history dashboard
         = map performance_of (take 10 (completed_attempts db userId))
     \<and> length (data_performance_history dashboard) \<le> 10
     \<and> mset (completed_attempts db userId)
         = mset (filter (\<lambda>a. attempt_user_id a = userId \<and> status a = COMPLETED) (attempts db))
     \<and> sorted_wrt (\<lambda>a b. \<not> more_recent (completed_at b) (completed_at a))
          (completed_attempts db userId)
     \<and> ((\<forall>m \<in> set (insights db). insight_user_id m \<noteq> userId) \<longrightarrow>
           data_weak_topics_array dashboard = [] \<and> data_strong_topics dashboard = []
         \<and> data_confidence_scores dashboard = [] \<and> data_topic_proficiency dashboard = []
         \<and> data_weak_topics dashboard = [] \<and> data_insight_last_updated dashboard = None)
     \<and> ((\<exists>m \<in> set (insights db). insight_user_id m = userId) \<longrightarrow>
           (\<exists>m \<in> set (insights db). insight_user_id m = userId
              \<and> (\<forall>m' \<in> set (insights db). insight_user_id m' = userId
                     \<longrightarrow> last_updated m' \<le> last_updated m)
              \<and> data_weak_topics_array dashboard = weak_topics m
              \<and> data_strong_topics dashboard = strong_topics m
              \<and> data_confidence_scores dashboard = confidence_scores m
              \<and> data_insight_last_updated dashboard = Some (last_updated m)
              \<and> data_topic_proficiency dashboard = validate_scores (proficiency_source m)
              \<and> (list_all (\<lambda>(topic, s). 0 \<le> s \<and> s \<le> 100) (proficiency_source m)
                    \<longrightarrow> data_topic_proficiency dashboard = proficiency_source m)))"
proof (cases "latest_insight db userId")
  case None
  then have none: "\<forall>m \<in> set (insights db). insight_user_id m \<noteq> userId"
    by (simp add: latest_insight_None)
  let ?d = "\<lparr> data_weak_topics_array = [], data_strong_topics = [],
               data_confidence_scores = [], data_topic_proficiency = [],
               data_weak_topics = [],
               data_performance_history = map performance_of (take 10 (completed_attempts db userId)),
               data_badges = badgeAchievements db userId,
               data_insight_last_updated = None \<rparr>"
  from None have "getDashboardData db userId userId = Inr ?d"
    by (simp add: getDashboardData_def)
  moreover have "mset (completed_attempts db userId)
         = mset (filter (\<lambda>a. attempt_user_id a = userId \<and> status a = COMPLETED) (attempts db))"
    by (simp add: completed_attempts_def mset_sort_completed_desc)
  moreover have "sorted_wrt (\<lambda>a b. \<not> more_recent (completed_at b) (completed_at a))
          (completed_attempts db userId)"
    by (simp add: completed_attempts_def sorted_sort_completed_desc)
  ultimately show ?thesis using none by simp
next
  case (Some m)
  note latest = latest_insight_Some[OF Some]
  let ?d = "\<lparr> data_weak_topics_array = weak_topics m,
               data_strong_topics = strong_topics m,
               data_confidence_scores = confidence_scores m,
               data_topic_proficiency = validate_scores (proficiency_source m),
               data_weak_topics = validate_scores (weak_source m (proficiency_source m)),
               data_performance_history = map performance_of (take 10 (completed_attempts db userId)),
               data_badges = badgeAchievements db userId,
               data_insight_last_updated = Some (last_updated m) \<rparr>"
  from Some have run: "getDashboardData db userId userId = Inr ?d"
    by (simp add: getDashboardData_def)
  have ms: "mset (completed_attempts db userId)
         = mset (filter (\<lambda>a. attempt_user_id a = userId \<and> status a = COMPLETED) (attempts db))"
    by (simp add: completed_attempts_def mset_sort_completed_desc)
  have so: "sorted_wrt (\<lambda>a b. \<not> more_recent (completed_at b) (completed_at a))
          (completed_attempts db userId)"
    by (simp add: completed_attempts_def sorted_sort_completed_desc)
  have snap: "\<exists>m \<in> set (insights db). insight_user_id m = userId
              \<and> (\<forall>m' \<in> set (insights db). insight_user_id m' = userId
                     \<longrightarrow> last_updated m' \<le> last_updated m)
              \<and> data_weak_topics_array ?d = weak_topics m
              \<and> data_strong_topics ?d = strong_topics m
              \<and> data_confidence_scores ?d = confidence_scores m
              \<and> data_insight_last_updated ?d = Some (last_updated m)
              \<and> data_topic_proficiency ?d = validate_scores (proficiency_source m)
              \<and> (list_all (\<lambda>(topic, s). 0 \<le> s \<and> s \<le> 100) (proficiency_source m)
                    \<longrightarrow> data_topic_proficiency ?d = proficiency_source m)"
    using latest by (intro bexI[of _ m]) (simp_all add: validate_scores_in_range)
  have some: "\<not> (\<forall>m \<in> set (insights db). insight_user_id m \<noteq> userId)"
    using latest by blast
  show ?thesis
  proof (intro exI[of _ ?d] conjI impI)
    show "getDashboardData db userId userId = Inr ?d" by (rule run)
    show "data_performance_history ?d = map performance_of (take 10 (completed_attempts db userId))"
      by simp
    show "length (data_performance_history ?d) \<le> 10" by simp
    show "mset (completed_attempts db userId)
         = mset (filter (\<lambda>a. attempt_user_id a = userId \<and> status a = COMPLETED) (attempts db))"
      by (rule ms)
    show "sorted_wrt (\<lambda>a b. \<not> more_recent (completed_at b) (completed_at a))
          (completed_attempts db userId)"
      by (rule so)
  next
    assume "\<forall>m \<in> set (insights db). insight_user_id m \<noteq> userId"
    with some show "data_weak_topics_array ?d = []" "data_strong_topics ?d = []"
      "data_confidence_scores ?d = []" "data_topic_proficiency ?d = []"
      "data_weak_topics ?d = []" "data_insight_last_updated ?d = None"
      by blast+
  next
    show "\<exists>m \<in> set (insights db). insight_user_id m = userId
              \<and> (\<forall>m' \<in> set (insights db). insight_user_id m' = userId
                     \<longrightarrow> last_updated m' \<le> last_updated m)
              \<and> data_weak_topics_array ?d = weak_topics m
              \<and> data_strong_topics ?d = strong_topics m
              \<and> data_confidence_scores ?d = confidence_scores m
              \<and> data_insight_last_updated ?d = Some (last_updated m)
              \<and> data_topic_proficiency ?d = validate_scores (proficiency_source m)
              \<and> (list_all (\<lambda>(topic, s). 0 \<le> s \<and> s \<le> 100) (proficiency_source m)
                    \<longrightarrow> data_topic_proficiency ?d = proficiency_source m)"
      by (rule snap)
  qed
qed

theorem own_dashboard_witness:
  "getDashboardData history_db ''u3'' ''u3'' = Inr dashboard_before
   \<and> data_topic_proficiency dashboard_before = []
   \<and> data_insight_last_updated dashboard_before = None
   \<and> getDashboardData analysed_db ''u3'' ''u3'' = Inr dashboard_after
   \<and> data_weak_topics_array dashboard_after = [''Sets'']
   \<and> data_insight_last_updated dashboard_after = Some 1000
   \<and> length (data_performance_history dashboard_after) = 5
   \<and> map entry_date (data_performance_history (projr (getDashboardData busy_db ''u4'' ''u4'')))
       = [12, 11, 10, 9, 8, 7, 6, 5, 4, 3]"
proof -
  have before: "getDashboardData history_db ''u3'' ''u3'' = Inr dashboard_before"
    by code_simp
  have no: "\<forall>m \<in> set (insights history_db). insight_user_id m \<noteq> ''u3''"
    by (simp add: history_db_def)
  from own_dashboard[of history_db "''u3''"] before no
  have empty: "data_topic_proficiency dashboard_before = []"
    "data_insight_last_updated dashboard_before = None"
    by auto
  have after: "getDashboardData analysed_db ''u3'' ''u3'' = Inr dashboard_after"
    by code_simp
  have yes: "\<exists>m \<in> set (insights analysed_db). insight_user_id m = ''u3''"
    by (simp add: analysed_db_def insight_u3_def)
  from own_dashboard[of analysed_db "''u3''"] after yes
  have full: "data_weak_topics_array dashboard_after = [''Sets'']"
    "data_insight_last_updated dashboard_after = Some 1000"
    "length (data_performance_history dashboard_after) \<le> 10"
    by (auto simp: analysed_db_def insight_u3_def)
  have five: "length (data_performance_history dashboard_after) = 5"
    by (simp add: dashboard_after_def history_entries_def)
  have busy: "map entry_date (data_performance_history (projr (getDashboardData busy_db ''u4'' ''u4'')))
       = [12, 11, 10, 9, 8, 7, 6, 5, 4, 3]"
    by code_simp
  from before empty after full five busy show ?thesis by simp
qed
end
